theory Spec2Isabelle
  imports Complex_Main
begin

section \<open>The Python runtime: exceptions and checked float operations\<close>

text \<open>
  The program \<^verbatim>\<open>galsimcat.py\<close> computes with Python floats. In the model of the whole
  run they are the real numbers: rounding, overflow, infinities and NaN are outside that
  model. Everything else the float operations do is kept: a division by zero, a logarithm
  of a non-positive number, a square root of a negative number and \<^verbatim>\<open>math.pow\<close> outside
  its domain raise, and an exception ends the whole run. An exception is a value of type
  \<open>error\<close>, and a computation that may raise returns \<open>error + 'a\<close>. The geometry of lines
  177 to 190, where the rounding decides whether an exception is raised, is modelled a
  second time with every operation rounded (section \<open>The geometry step in rounded
  arithmetic\<close>).
\<close>

datatype error = ValueError | ZeroDivisionError | IndexError | SystemExit int

definition ebind :: "error + 'a \<Rightarrow> ('a \<Rightarrow> error + 'b) \<Rightarrow> error + 'b" where
  "ebind m f = (case m of Inl e \<Rightarrow> Inl e | Inr v \<Rightarrow> f v)"

definition py_div :: "real \<Rightarrow> real \<Rightarrow> error + real" where
  "py_div x y = (if y = 0 then Inl ZeroDivisionError else Inr (x / y))"

definition math_log :: "real \<Rightarrow> error + real" where
  "math_log x = (if x \<le> 0 then Inl ValueError else Inr (ln x))"

definition math_sqrt :: "real \<Rightarrow> error + real" where
  "math_sqrt x = (if x < 0 then Inl ValueError else Inr (sqrt x))"

text \<open>
  \<^verbatim>\<open>math.pow(x, y)\<close>: a zero base with a negative exponent and a negative base with a
  non-integer exponent are domain errors; \<^verbatim>\<open>math.pow(0, 0)\<close> is 1.
\<close>

definition math_pow :: "real \<Rightarrow> real \<Rightarrow> error + real" where
  "math_pow x y =
     (if x = 0 then (if y < 0 then Inl ValueError else Inr (if y = 0 then 1 else 0))
      else if 0 < x then Inr (x powr y)
      else if y = of_int \<lfloor>y\<rfloor> then Inr ((if even \<lfloor>y\<rfloor> then 1 else - 1) * ((- x) powr y))
      else Inl ValueError)"

definition twopi :: real where "twopi = 2 * pi"
definition deg2rad :: real where "deg2rad = pi / 180"
definition deg2arcsec :: real where "deg2arcsec = 3600"
definition arcmin2arcsec :: real where "arcmin2arcsec = 60"

section \<open>The GalSim objects the program handles\<close>

text \<open>
  GalSim is an external library. Its integer bounds are a rectangle of pixels that is
  defined when \<open>xmin \<le> xmax\<close> and \<open>ymin \<le> ymax\<close>; the intersection of two bounds is
  undefined when either is undefined or when they share no pixel, and the area of
  undefined bounds is 0, of defined bounds the number of pixels.
\<close>

datatype boundsI = Bounds (isDefined: bool) (xmin: int) (xmax: int) (ymin: int) (ymax: int)

definition BoundsI :: "int \<Rightarrow> int \<Rightarrow> int \<Rightarrow> int \<Rightarrow> boundsI" where
  "BoundsI x1 x2 y1 y2 = Bounds (x1 \<le> x2 \<and> y1 \<le> y2) x1 x2 y1 y2"

definition undefined_bounds :: boundsI where
  "undefined_bounds = Bounds False 0 0 0 0"

definition bounds_and :: "boundsI \<Rightarrow> boundsI \<Rightarrow> boundsI" where
  "bounds_and b c =
     (if \<not> isDefined b \<or> \<not> isDefined c then undefined_bounds
      else let xmn = max (xmin b) (xmin c); xmx = min (xmax b) (xmax c);
               ymn = max (ymin b) (ymin c); ymx = min (ymax b) (ymax c)
           in if xmn > xmx \<or> ymn > ymx then undefined_bounds else BoundsI xmn xmx ymn ymx)"

definition area :: "boundsI \<Rightarrow> int" where
  "area b = (if isDefined b then (xmax b - xmin b + 1) * (ymax b - ymin b + 1) else 0)"

definition includes_px :: "boundsI \<Rightarrow> int \<times> int \<Rightarrow> bool" where
  "includes_px b p \<longleftrightarrow>
     isDefined b \<and> xmin b \<le> fst p \<and> fst p \<le> xmax b \<and> ymin b \<le> snd p \<and> snd p \<le> ymax b"

text \<open>
  An image is its pixel values; a new \<^verbatim>\<open>ImageD\<close> is zero everywhere. The arithmetic
  on images is pixel by pixel.
\<close>

type_synonym image = "int \<times> int \<Rightarrow> real"

definition ImageD :: image where
  "ImageD = (\<lambda>p. 0)"

definition img_add :: "image \<Rightarrow> image \<Rightarrow> image" where
  "img_add u v = (\<lambda>p. u p + v p)"

definition img_sub :: "image \<Rightarrow> image \<Rightarrow> image" where
  "img_sub u v = (\<lambda>p. u p - v p)"

definition img_scale :: "real \<Rightarrow> image \<Rightarrow> image" where
  "img_scale c u = (\<lambda>p. c * u p)"

text \<open>\<^verbatim>\<open>field[overlap] += nominal[overlap]\<close>\<close>

definition add_overlap :: "image \<Rightarrow> boundsI \<Rightarrow> image \<Rightarrow> image" where
  "add_overlap fld overlap stamp = (\<lambda>p. if includes_px overlap p then fld p + stamp p else fld p)"

text \<open>
  A source is an exponential profile with the transformations applied to it, in the order
  of the calls; what the rendering engine receives is the list of profiles to convolve,
  the \<^verbatim>\<open>real_space\<close> flag and the bounds of the stamp to draw into.
\<close>

datatype transform = ShearQBeta real real | ShearG real real | Shift real real

datatype profile =
    Exponential real real "transform list"
  | Moffat real real
  | Pixel real

datatype draw_request = Convolve "profile list" bool boundsI

datatype rng = BaseDeviate int

datatype noise = PoissonNoise rng real

text \<open>
  The external engines: the renderer, a function of its request, and the noise
  generator, a function of the noise description and of the image it is added to.
  \<open>fresh_seed\<close> is what changes from one run to the next: the seed that a random
  generator created without one would take from the clock.
\<close>

record engines =
  draw :: "draw_request \<Rightarrow> image"
  addNoise :: "noise \<Rightarrow> image \<Rightarrow> image"
  fresh_seed :: int

section \<open>createSource and createStamp\<close>

definition createSource ::
  "real \<Rightarrow> real \<Rightarrow> real \<Rightarrow> real \<Rightarrow> real \<Rightarrow> real \<Rightarrow> real \<Rightarrow> real \<Rightarrow> profile" where
  "createSource flux xc yc hlr q beta g1 g2 =
     Exponential flux hlr [ShearQBeta q beta, ShearG g1 g2, Shift xc yc]"

text \<open>
  \<open>createStamp\<close> calls the engine once; the list of the requests made so far is threaded
  through, so that the calls can be counted.
\<close>

definition createStamp ::
  "engines \<Rightarrow> profile \<Rightarrow> profile option \<Rightarrow> profile \<Rightarrow> boundsI \<Rightarrow> draw_request list
     \<Rightarrow> image \<times> draw_request list" where
  "createStamp E src psf pix bbox drawn =
     (let obj = (case psf of None \<Rightarrow> Convolve [src, pix] True bbox
                 | Some p \<Rightarrow> Convolve [src, p, pix] False bbox)
      in (draw E obj, drawn @ [obj]))"

section \<open>Configuration and the values fixed before the catalog loop\<close>

text \<open>The command-line arguments, as \<^verbatim>\<open>argparse\<close> types them.\<close>

record args =
  arg_output :: string
  arg_x_center :: real
  arg_y_center :: real
  arg_width :: int
  arg_height :: int
  arg_margin :: real
  arg_pixel_scale :: real
  arg_psf_fwhm :: real
  arg_psf_beta :: real
  arg_flux_norm :: real
  arg_nvisits :: int
  arg_sky_level :: real
  arg_g1 :: real
  arg_g2 :: real
  arg_partials :: bool
  arg_partials_order :: int

text \<open>The local variables of \<open>main\<close> that are set before the loop and only read in it.\<close>

record locals =
  pix :: profile
  psf :: profile
  RAmin :: real
  RAmax :: real
  DECmin :: real
  DECmax :: real
  margin :: real
  fdCoefs :: "real list"
  f0 :: real
  r0psf :: real
  cpsf :: real

definition fcut :: real where
  "fcut = 2.0"

definition field_bounds :: "args \<Rightarrow> boundsI" where
  "field_bounds a = BoundsI 1 (arg_width a) 1 (arg_height a)"

text \<open>
  Lines 110 to 122. With \<^verbatim>\<open>--partials\<close> an order outside 1 to 4 exits with status -1;
  without it \<open>fdCoefs\<close> is never assigned and never read (the empty list stands for
  the unbound variable).
\<close>

definition init_fdCoefs :: "args \<Rightarrow> error + real list" where
  "init_fdCoefs a =
     (if arg_partials a then
        (if arg_partials_order a < 1 \<or> arg_partials_order a > 4 then Inl (SystemExit (- 1))
         else if arg_partials_order a = 1 then Inr [1 / 2]
         else if arg_partials_order a = 2 then Inr [2 / 3, - 1 / 12]
         else if arg_partials_order a = 3 then Inr [3 / 4, - 3 / 20, 1 / 60]
         else Inr [4 / 5, - 1 / 5, 4 / 105, - 1 / 280])
      else Inr [])"

text \<open>
  Lines 92 to 140, in the order of the statements that can raise. The constructors of
  GalSim (the pixel response, the Moffat psf, the empty field image) and the opening of the
  catalog are taken to return; what they do with a configuration they refuse is outside
  the model.
\<close>

definition main_init :: "args \<Rightarrow> error + locals" where
  "main_init a =
     ebind (init_fdCoefs a) (\<lambda>coefs.
     ebind (py_div fcut (arg_pixel_scale a * arg_pixel_scale a)) (\<lambda>f0v.
     ebind (py_div 1 (arg_psf_beta a)) (\<lambda>ib.
     ebind (math_pow 2 ib) (\<lambda>p2.
     ebind (math_sqrt (p2 - 1)) (\<lambda>s.
     ebind (py_div (0.5 * arg_psf_fwhm a) s) (\<lambda>r0.
     ebind (py_div (pi * f0v * r0 * r0) (arg_psf_beta a - 1)) (\<lambda>c.
     Inr \<lparr> pix = Pixel (arg_pixel_scale a),
           psf = Moffat (arg_psf_beta a) (arg_psf_fwhm a),
           RAmin = (arg_x_center a - 0.5 * real_of_int (arg_width a)) * arg_pixel_scale a,
           RAmax = (arg_x_center a + 0.5 * real_of_int (arg_width a)) * arg_pixel_scale a,
           DECmin = (arg_y_center a - 0.5 * real_of_int (arg_height a)) * arg_pixel_scale a,
           DECmax = (arg_y_center a + 0.5 * real_of_int (arg_height a)) * arg_pixel_scale a,
           margin = arg_margin a * arcmin2arcsec,
           fdCoefs = coefs,
           f0 = f0v, r0psf = r0, cpsf = c \<rparr>)))))))"

section \<open>One catalog entry: the steps of the loop body\<close>

text \<open>
  A catalog line, split at white space: each column is the float that \<^verbatim>\<open>float()\<close>
  reads from it, or \<open>None\<close> where \<^verbatim>\<open>float()\<close> raises \<^verbatim>\<open>ValueError\<close>. A column that
  the line does not have raises \<^verbatim>\<open>IndexError\<close>.
\<close>

type_synonym row = "real option list"

definition float_col :: "row \<Rightarrow> nat \<Rightarrow> error + real" where
  "float_col cols i =
     (if i < length cols then (case cols ! i of None \<Rightarrow> Inl ValueError | Some v \<Rightarrow> Inr v)
      else Inl IndexError)"

text \<open>Lines 148 to 150: the position on the sky in arcsecs.\<close>

definition sky_position :: "row \<Rightarrow> error + real \<times> real" where
  "sky_position cols =
     ebind (float_col cols 1) (\<lambda>ra.
     ebind (float_col cols 2) (\<lambda>dec.
     Inr (ra * deg2arcsec, dec * deg2arcsec)))"

text \<open>Line 153.\<close>

definition outside_margins :: "locals \<Rightarrow> real \<Rightarrow> real \<Rightarrow> bool" where
  "outside_margins L RA DEC \<longleftrightarrow>
     RA < RAmin L - margin L \<or> RA > RAmax L + margin L \<or>
     DEC < DECmin L - margin L \<or> DEC > DECmax L + margin L"

text \<open>Lines 157 to 159: the total flux in ADU; the r-band magnitude is read and not used.\<close>

definition total_flux :: "args \<Rightarrow> row \<Rightarrow> error + real" where
  "total_flux a cols =
     ebind (float_col cols 22) (\<lambda>r_ab.
     ebind (float_col cols 23) (\<lambda>i_ab.
     ebind (math_pow 10 (24 - i_ab)) (\<lambda>p.
     Inr (arg_flux_norm a * p))))"

text \<open>Lines 168 to 174: the axis ratio and the position angle in radians.\<close>

definition disk_shape :: "row \<Rightarrow> error + real \<times> real" where
  "disk_shape cols =
     ebind (float_col cols 9) (\<lambda>pa_d.
     ebind (float_col cols 17) (\<lambda>a_d.
     ebind (float_col cols 19) (\<lambda>b_d.
     ebind (py_div b_d a_d) (\<lambda>q_d.
     Inr (q_d, pa_d * deg2rad)))))"

text \<open>Lines 179 to 182: the shear affine transform parameters \<open>gp\<close>, \<open>gx\<close> and \<open>detM\<close>.\<close>

definition shear_affine :: "real \<Rightarrow> real \<Rightarrow> error + real \<times> real \<times> real" where
  "shear_affine q_d pa_d =
     ebind (py_div (1 - q_d) (1 + q_d)) (\<lambda>g.
     let gp = g * cos (2 * pa_d);
         gx = g * sin (2 * pa_d);
         detM = 1 - gp * gp - gx * gx
     in Inr (gp, gx, detM))"

text \<open>
  Lines 177 to 190: the bounding box of the limiting isophote with no psf. \<open>None\<close> is the
  \<^verbatim>\<open>continue\<close> of line 188; otherwise the half width and the half height in arcsecs.
\<close>

definition isophote_box ::
  "real \<Rightarrow> real \<Rightarrow> real \<Rightarrow> real \<Rightarrow> real \<Rightarrow> error + (real \<times> real) option" where
  "isophote_box f0v flux hlr_d q_d pa_d =
     (let r_scale = hlr_d / 1.67835 in
      ebind (shear_affine q_d pa_d) (\<lambda>(gp, gx, detM).
      ebind (py_div (twopi * r_scale * r_scale * f0v) (flux * detM)) (\<lambda>x.
      ebind (math_log x) (\<lambda>lx.
      let rcut = - r_scale * lx in
      if rcut \<le> 0 then Inr None
      else
        ebind (py_div ((1 + gp) * (1 + gp) + gx * gx) detM) (\<lambda>wq.
        ebind (math_sqrt wq) (\<lambda>ws.
        ebind (py_div ((1 - gp) * (1 - gp) + gx * gx) detM) (\<lambda>hq.
        ebind (math_sqrt hq) (\<lambda>hs.
        Inr (Some (rcut * ws, rcut * hs))))))))))"

text \<open>Lines 192 to 196: the psf padding.\<close>

definition psf_padding :: "args \<Rightarrow> locals \<Rightarrow> real \<Rightarrow> error + real" where
  "psf_padding a L flux =
     ebind (py_div (cpsf L) flux) (\<lambda>r.
     ebind (py_div 1 (arg_psf_beta a)) (\<lambda>ib.
     ebind (math_pow r (- ib)) (\<lambda>p.
     let arg = p - 1 in
     if arg > 0 then ebind (math_sqrt arg) (\<lambda>s. Inr (r0psf L * s))
     else Inr 0)))"

text \<open>
  Lines 205 to 220: the offsets in pixels from the bottom left corner of the image, the pixel
  that contains the source center, the half sizes of the stamp and its bounding box.
\<close>

record stamp_addr =
  xoffset :: real
  yoffset :: real
  xpixels :: int
  ypixels :: int
  xhalf :: int
  yhalf :: int
  bbox :: boundsI

definition stamp_address ::
  "args \<Rightarrow> locals \<Rightarrow> real \<Rightarrow> real \<Rightarrow> real \<Rightarrow> real \<Rightarrow> error + stamp_addr" where
  "stamp_address a L RA DEC hwidth hheight =
     ebind (py_div (RA - RAmin L) (arg_pixel_scale a)) (\<lambda>xo.
     ebind (py_div (DEC - DECmin L) (arg_pixel_scale a)) (\<lambda>yo.
     let xp = \<lceil>xo\<rceil>; yp = \<lceil>yo\<rceil> in
     ebind (py_div hwidth (arg_pixel_scale a)) (\<lambda>wp.
     ebind (py_div hheight (arg_pixel_scale a)) (\<lambda>hp.
     let xh = \<lceil>wp\<rceil>; yh = \<lceil>hp\<rceil> in
     Inr \<lparr> xoffset = xo, yoffset = yo, xpixels = xp, ypixels = yp, xhalf = xh, yhalf = yh,
           bbox = BoundsI (xp - xh) (xp + xh) (yp - yh) (yp + yh) \<rparr>))))"

text \<open>Lines 233 and 234: the subpixel shift in arcsecs.\<close>

definition xshift :: "args \<Rightarrow> stamp_addr \<Rightarrow> real" where
  "xshift a sa = (xoffset sa - (real_of_int (xpixels sa) - 0.5)) * arg_pixel_scale a"

definition yshift :: "args \<Rightarrow> stamp_addr \<Rightarrow> real" where
  "yshift a sa = (yoffset sa - (real_of_int (ypixels sa) - 0.5)) * arg_pixel_scale a"

section \<open>The source parameters and the finite differences\<close>

text \<open>
  \<open>params\<close> is a dictionary with the eight keys of line 237 to 241: a function of the
  key. \<^verbatim>\<open>createSource(**params)\<close> passes each value under its name.
\<close>

datatype pname = Flux | Xc | Yc | Hlr | Q | Beta | G1 | G2

type_synonym params = "pname \<Rightarrow> real"

definition nominal_params ::
  "args \<Rightarrow> real \<Rightarrow> real \<Rightarrow> real \<Rightarrow> real \<Rightarrow> real \<Rightarrow> real \<Rightarrow> params" where
  "nominal_params a flux xs ys hlr_d q_d pa_d =
     (\<lambda>k. case k of Flux \<Rightarrow> flux | Xc \<Rightarrow> xs | Yc \<Rightarrow> ys | Hlr \<Rightarrow> hlr_d
                    | Q \<Rightarrow> q_d | Beta \<Rightarrow> pa_d | G1 \<Rightarrow> arg_g1 a | G2 \<Rightarrow> arg_g2 a)"

definition createSource_kw :: "params \<Rightarrow> profile" where
  "createSource_kw p =
     createSource (p Flux) (p Xc) (p Yc) (p Hlr) (p Q) (p Beta) (p G1) (p G2)"

text \<open>Lines 258 to 262.\<close>

definition variations :: "args \<Rightarrow> real \<Rightarrow> (pname \<times> real) list" where
  "variations a hlr_d =
     [(Xc, arg_pixel_scale a / 3), (Yc, arg_pixel_scale a / 3),
      (Hlr, 0.05 * hlr_d),
      (G1, 0.03), (G2, 0.03)]"

text \<open>
  Lines 268 to 278, the loop over \<^verbatim>\<open>range(args.partials_order)\<close>. The loop carries the
  dictionary \<open>newparams\<close>, the image \<open>partial\<close> and the requests made to the engine.
  Reading \<open>fdCoefs\<close> past its end raises \<^verbatim>\<open>IndexError\<close>.
\<close>

definition coef_at :: "real list \<Rightarrow> nat \<Rightarrow> error + real" where
  "coef_at cs i = (if i < length cs then Inr (cs ! i) else Inl IndexError)"

fun fd_steps ::
  "engines \<Rightarrow> locals \<Rightarrow> params \<Rightarrow> boundsI \<Rightarrow> pname \<Rightarrow> real \<Rightarrow> nat list
     \<Rightarrow> params \<times> image \<times> draw_request list
     \<Rightarrow> error + params \<times> image \<times> draw_request list" where
  "fd_steps E L prm bb pn delta [] acc = Inr acc"
| "fd_steps E L prm bb pn delta (step # steps) (newparams, partial, drawn) =
     (let np1 = newparams(pn := prm pn + (real step + 1) * delta);
          (plus, d1) = createStamp E (createSource_kw np1) (Some (psf L)) (pix L) bb drawn;
          np2 = np1(pn := prm pn - (real step + 1) * delta);
          (minus, d2) = createStamp E (createSource_kw np2) (Some (psf L)) (pix L) bb d1
      in ebind (coef_at (fdCoefs L) step) (\<lambda>c.
         ebind (py_div c delta) (\<lambda>w.
         fd_steps E L prm bb pn delta steps
           (np2, img_add partial (img_scale w (img_sub plus minus)), d2))))"

text \<open>Lines 266 to 280 for one parameter: the partial and the requests made.\<close>

definition fd_partial ::
  "engines \<Rightarrow> args \<Rightarrow> locals \<Rightarrow> params \<Rightarrow> boundsI \<Rightarrow> pname \<times> real \<Rightarrow> draw_request list
     \<Rightarrow> error + image \<times> draw_request list" where
  "fd_partial E a L prm bb v drawn =
     ebind (fd_steps E L prm bb (fst v) (snd v) [0..<nat (arg_partials_order a)]
              (prm, ImageD, drawn))
       (\<lambda>r. Inr (fst (snd r), snd (snd r)))"

text \<open>Lines 264 to 280: the loop over the parameters to vary.\<close>

fun partials_loop ::
  "engines \<Rightarrow> args \<Rightarrow> locals \<Rightarrow> params \<Rightarrow> boundsI \<Rightarrow> (pname \<times> real) list
     \<Rightarrow> image list \<times> draw_request list \<Rightarrow> error + image list \<times> draw_request list" where
  "partials_loop E a L prm bb [] acc = Inr acc"
| "partials_loop E a L prm bb (v # vs) (datacube, drawn) =
     ebind (fd_partial E a L prm bb v drawn) (\<lambda>r.
     partials_loop E a L prm bb vs (datacube @ [fst r], snd r))"

section \<open>The catalog loop\<close>

text \<open>
  The state that the loop changes: the field image, the list of datacubes written with
  \<^verbatim>\<open>writeCube\<close>, the two counters, and, as a record of the effects, the requests made to
  the rendering engine and the stamps announced on the log (number, line, width, height).
\<close>

record state =
  field :: image
  hduList :: "image list list"
  nkeep :: nat
  lineno :: nat
  drawn :: "draw_request list"
  logged :: "(nat \<times> nat \<times> int \<times> int) list"

definition init_state :: state where
  "init_state = \<lparr> field = ImageD, hduList = [], nkeep = 0, lineno = 0, drawn = [], logged = [] \<rparr>"

text \<open>
  Lines 226 to 285: an entry that is kept is rendered without and with the psf, added to the
  field where its stamp overlaps it, and its datacube, with the partials when they are asked
  for, is written.
\<close>

definition render_entry ::
  "engines \<Rightarrow> args \<Rightarrow> locals \<Rightarrow> real \<Rightarrow> real \<Rightarrow> real \<Rightarrow> real \<Rightarrow> stamp_addr \<Rightarrow> state
     \<Rightarrow> error + state" where
  "render_entry E a L flux hlr_d q_d pa_d sa st =
     (let nk = nkeep st + 1;
          msgs = logged st @ [(nk, lineno st, 2 * xhalf sa + 1, 2 * yhalf sa + 1)];
          prm = nominal_params a flux (xshift a sa) (yshift a sa) hlr_d q_d pa_d;
          gal = createSource_kw prm;
          (nopsf, d1) = createStamp E gal None (pix L) (bbox sa) (drawn st);
          (nominal, d2) = createStamp E gal (Some (psf L)) (pix L) (bbox sa) d1;
          overlap = bounds_and (bbox sa) (field_bounds a);
          fld = add_overlap (field st) overlap nominal;
          datacube = [nopsf, nominal]
      in ebind (if arg_partials a
                then partials_loop E a L prm (bbox sa) (variations a hlr_d) (datacube, d2)
                else Inr (datacube, d2)) (\<lambda>r.
         Inr (st\<lparr> field := fld, hduList := hduList st @ [fst r], nkeep := nk,
                   drawn := snd r, logged := msgs \<rparr>)))"

text \<open>
  The loop body, lines 145 to 285. Each \<^verbatim>\<open>continue\<close> is labelled with the test that
  takes it.
\<close>

datatype reject = OutsideMargin | FluxBelowCut | NonPositiveHlr | BelowThreshold | NoOverlap

datatype verdict = Rejected reject | Accepted

definition process_entry ::
  "engines \<Rightarrow> args \<Rightarrow> locals \<Rightarrow> state \<Rightarrow> row \<Rightarrow> error + verdict \<times> state" where
  "process_entry E a L st0 cols =
     (let st = st0\<lparr> lineno := lineno st0 + 1 \<rparr> in
      ebind (sky_position cols) (\<lambda>pos.
      if outside_margins L (fst pos) (snd pos) then Inr (Rejected OutsideMargin, st)
      else
      ebind (total_flux a cols) (\<lambda>flux.
      if flux < 0.5 * fcut then Inr (Rejected FluxBelowCut, st)
      else
      ebind (float_col cols 7) (\<lambda>hlr_d.
      if hlr_d \<le> 0 then Inr (Rejected NonPositiveHlr, st)
      else
      ebind (disk_shape cols) (\<lambda>shape.
      ebind (isophote_box (f0 L) flux hlr_d (fst shape) (snd shape)) (\<lambda>box.
      case box of
        None \<Rightarrow> Inr (Rejected BelowThreshold, st)
      | Some wh \<Rightarrow>
      ebind (psf_padding a L flux) (\<lambda>rpad.
      ebind (stamp_address a L (fst pos) (snd pos) (fst wh + rpad) (snd wh + rpad)) (\<lambda>sa.
      if area (bounds_and (bbox sa) (field_bounds a)) = 0 then Inr (Rejected NoOverlap, st)
      else
      ebind (render_entry E a L (2 * real_of_int (arg_nvisits a) * flux) hlr_d
               (fst shape) (snd shape) sa st) (\<lambda>st'.
      Inr (Accepted, st'))))))))))"

fun catalog_loop ::
  "engines \<Rightarrow> args \<Rightarrow> locals \<Rightarrow> state \<Rightarrow> row list \<Rightarrow> error + state" where
  "catalog_loop E a L st [] = Inr st"
| "catalog_loop E a L st (cols # cat) =
     ebind (process_entry E a L st cols) (\<lambda>r. catalog_loop E a L (snd r) cat)"

section \<open>The output files and the whole run\<close>

datatype payload = FieldImage image | StampCubes "image list list"

text \<open>Lines 287 to 305: the files written, in order, each with its name.\<close>

definition write_outputs :: "engines \<Rightarrow> args \<Rightarrow> state \<Rightarrow> (string \<times> payload) list" where
  "write_outputs E a st =
     (let w1 = [(arg_output a @ ''_field.fits'', FieldImage (field st))];
          w2 = (if arg_sky_level a > 0 then
                  (let rng = BaseDeviate 123;
                       noise = PoissonNoise rng (2 * real_of_int (arg_nvisits a) * arg_sky_level a);
                       fld = addNoise E noise (field st)
                   in w1 @ [(arg_output a @ ''_noise.fits'', FieldImage fld)])
                else w1)
      in w2 @ [(arg_output a @ ''_stamps.fits'', StampCubes (hduList st))])"

definition main :: "engines \<Rightarrow> args \<Rightarrow> row list \<Rightarrow> error + (string \<times> payload) list" where
  "main E a cat =
     ebind (main_init a) (\<lambda>L.
     ebind (catalog_loop E a L init_state cat) (\<lambda>st.
     Inr (write_outputs E a st)))"

section \<open>The geometry step in rounded arithmetic\<close>

text \<open>
  Whether lines 177 to 190 raise depends on the rounding of the floats: an axis ratio so
  small that \<^verbatim>\<open>1-q_d\<close> and \<^verbatim>\<open>1+q_d\<close> both round to 1 gives \<^verbatim>\<open>g = 1.0\<close> and
  \<^verbatim>\<open>detM = 0.0\<close>, and a product that underflows gives \<^verbatim>\<open>x = 0.0\<close>. For these lines the
  float operations are therefore also modelled as the machine performs them. A
  floating-point unit is a record of the operations the lines use: the conversion of a
  decimal literal (and of \<^verbatim>\<open>math.pi\<close>), the four arithmetic operations, and
  \<^verbatim>\<open>math.cos\<close>, \<^verbatim>\<open>math.sin\<close>, \<^verbatim>\<open>math.log\<close>, \<^verbatim>\<open>math.sqrt\<close> where they return. The
  floats are the finite ones, embedded in the reals: an overflow to infinity and NaN stay
  outside the model. Negation is exact.
\<close>

record fpu =
  fconst :: "real \<Rightarrow> real"
  fadd :: "real \<Rightarrow> real \<Rightarrow> real"
  fsub :: "real \<Rightarrow> real \<Rightarrow> real"
  fmul :: "real \<Rightarrow> real \<Rightarrow> real"
  fdiv :: "real \<Rightarrow> real \<Rightarrow> real"
  fcos :: "real \<Rightarrow> real"
  fsin :: "real \<Rightarrow> real"
  flog :: "real \<Rightarrow> real"
  fsqrt :: "real \<Rightarrow> real"

text \<open>
  The checks Python makes before the operation: a float division by zero raises
  \<^verbatim>\<open>ZeroDivisionError\<close>, \<^verbatim>\<open>math.log\<close> of a float that is not positive and
  \<^verbatim>\<open>math.sqrt\<close> of a negative float raise \<^verbatim>\<open>ValueError\<close>.
\<close>

definition fl_div :: "fpu \<Rightarrow> real \<Rightarrow> real \<Rightarrow> error + real" where
  "fl_div F x y = (if y = 0 then Inl ZeroDivisionError else Inr (fdiv F x y))"

definition fl_log :: "fpu \<Rightarrow> real \<Rightarrow> error + real" where
  "fl_log F x = (if x \<le> 0 then Inl ValueError else Inr (flog F x))"

definition fl_sqrt :: "fpu \<Rightarrow> real \<Rightarrow> error + real" where
  "fl_sqrt F x = (if x < 0 then Inl ValueError else Inr (fsqrt F x))"

text \<open>Line 18: \<^verbatim>\<open>twopi = 2*math.pi\<close>.\<close>

definition fl_twopi :: "fpu \<Rightarrow> real" where
  "fl_twopi F = fmul F 2 (fconst F pi)"

text \<open>
  Lines 179 to 182, one float operation for each operation of the source, in the order in
  which Python evaluates them.
\<close>

definition fl_shear_affine :: "fpu \<Rightarrow> real \<Rightarrow> real \<Rightarrow> error + real \<times> real \<times> real" where
  "fl_shear_affine F q_d pa_d =
     ebind (fl_div F (fsub F 1 q_d) (fadd F 1 q_d)) (\<lambda>g.
     let gp = fmul F g (fcos F (fmul F 2 pa_d));
         gx = fmul F g (fsin F (fmul F 2 pa_d));
         detM = fsub F (fsub F 1 (fmul F gp gp)) (fmul F gx gx)
     in Inr (gp, gx, detM))"

text \<open>Lines 177 to 190 in the same way.\<close>

definition fl_isophote_box ::
  "fpu \<Rightarrow> real \<Rightarrow> real \<Rightarrow> real \<Rightarrow> real \<Rightarrow> real \<Rightarrow> error + (real \<times> real) option" where
  "fl_isophote_box F f0v flux hlr_d q_d pa_d =
     (let r_scale = fdiv F hlr_d (fconst F 1.67835) in
      ebind (fl_shear_affine F q_d pa_d) (\<lambda>(gp, gx, detM).
      ebind (fl_div F (fmul F (fmul F (fmul F (fl_twopi F) r_scale) r_scale) f0v)
                      (fmul F flux detM)) (\<lambda>x.
      ebind (fl_log F x) (\<lambda>lx.
      let rcut = fmul F (- r_scale) lx in
      if rcut \<le> 0 then Inr None
      else
        ebind (fl_div F (fadd F (fmul F (fadd F 1 gp) (fadd F 1 gp)) (fmul F gx gx)) detM) (\<lambda>wq.
        ebind (fl_sqrt F wq) (\<lambda>ws.
        ebind (fl_div F (fadd F (fmul F (fsub F 1 gp) (fsub F 1 gp)) (fmul F gx gx)) detM) (\<lambda>hq.
        ebind (fl_sqrt F hq) (\<lambda>hs.
        Inr (Some (fmul F rcut ws, fmul F rcut hs))))))))))"

text \<open>
  Two floating-point units. The first computes exactly: with it the rounded geometry is the
  geometry in the reals of \<open>isophote_box\<close>. The second is the binary64 arithmetic of
  IEEE 754 with rounding to nearest, ties to even, which is the arithmetic of a Python
  float: the doubles around \<open>x\<close> are spaced by \<open>ulp x\<close> (52 fraction bits, the exponent
  not below \<open>-1022\<close>, so that the subnormal numbers are spaced by \<open>2 powr -1074\<close>), and
  \<open>rnd x\<close> is the double nearest to \<open>x\<close>. The functions of the C library are taken as
  correctly rounded in this unit.
\<close>

definition exact_fpu :: fpu where
  "exact_fpu = \<lparr>fconst = (\<lambda>x. x), fadd = (+), fsub = (-), fmul = (*), fdiv = (/),
                 fcos = cos, fsin = sin, flog = ln, fsqrt = sqrt\<rparr>"

definition rne :: "real \<Rightarrow> int" where
  "rne y = (let f = \<lfloor>y\<rfloor> in
            if y - of_int f < 1 / 2 then f
            else if 1 / 2 < y - of_int f then f + 1
            else if even f then f else f + 1)"

definition ulp :: "real \<Rightarrow> real" where
  "ulp x = 2 powr (of_int (max \<lfloor>log 2 \<bar>x\<bar>\<rfloor> (- 1022)) - 52)"

definition rnd :: "real \<Rightarrow> real" where
  "rnd x = ulp x * of_int (rne (x / ulp x))"

definition ieee_double :: fpu where
  "ieee_double = \<lparr>fconst = rnd,
                   fadd = (\<lambda>x y. rnd (x + y)), fsub = (\<lambda>x y. rnd (x - y)),
                   fmul = (\<lambda>x y. rnd (x * y)), fdiv = (\<lambda>x y. rnd (x / y)),
                   fcos = (\<lambda>x. rnd (cos x)), fsin = (\<lambda>x. rnd (sin x)),
                   flog = (\<lambda>x. rnd (ln x)), fsqrt = (\<lambda>x. rnd (sqrt x))\<rparr>"

text \<open>
  What is assumed of a floating-point unit in general: each result is within the relative
  error \<open>u\<close> and the absolute error \<open>u\<close> of the exact one (the absolute part covers the
  underflow), and the rounding of a result that is not negative is not negative. For
  binary64 \<open>u\<close> is \<open>2 powr -52\<close>.
\<close>

definition near :: "real \<Rightarrow> real \<Rightarrow> real \<Rightarrow> bool" where
  "near u a z \<longleftrightarrow> \<bar>a - z\<bar> \<le> u * \<bar>z\<bar> + u \<and> (0 \<le> z \<longrightarrow> 0 \<le> a)"

definition accurate :: "real \<Rightarrow> fpu \<Rightarrow> bool" where
  "accurate u F \<longleftrightarrow>
     (\<forall>c. near u (fconst F c) c) \<and>
     (\<forall>x y. near u (fadd F x y) (x + y)) \<and>
     (\<forall>x y. near u (fsub F x y) (x - y)) \<and>
     (\<forall>x y. near u (fmul F x y) (x * y)) \<and>
     (\<forall>x y. y \<noteq> 0 \<longrightarrow> near u (fdiv F x y) (x / y)) \<and>
     (\<forall>x. \<bar>fcos F x - cos x\<bar> \<le> u) \<and>
     (\<forall>x. \<bar>fsin F x - sin x\<bar> \<le> u) \<and>
     (\<forall>x. 0 < x \<longrightarrow> near u (flog F x) (ln x)) \<and>
     (\<forall>x. 0 \<le> x \<longrightarrow> near u (fsqrt F x) (sqrt x))"

section \<open>Definitions that follow the specification\<close>

text \<open>
  The quantities of the Geometry Solver as the specification writes them (section 4.2), with
  no check on the arguments of the division, the logarithm and the square root.
\<close>

definition spec_g :: "real \<Rightarrow> real" where
  "spec_g q = (1 - q) / (1 + q)"

definition spec_gp :: "real \<Rightarrow> real \<Rightarrow> real" where
  "spec_gp q pa = spec_g q * cos (2 * pa)"

definition spec_gx :: "real \<Rightarrow> real \<Rightarrow> real" where
  "spec_gx q pa = spec_g q * sin (2 * pa)"

definition spec_detM :: "real \<Rightarrow> real \<Rightarrow> real" where
  "spec_detM q pa = 1 - (spec_gp q pa)\<^sup>2 - (spec_gx q pa)\<^sup>2"

definition spec_scale :: "real \<Rightarrow> real" where
  "spec_scale hlr = hlr / 1.67835"

definition spec_rcut :: "real \<Rightarrow> real \<Rightarrow> real \<Rightarrow> real \<Rightarrow> real \<Rightarrow> real" where
  "spec_rcut f0v flux hlr q pa =
     - spec_scale hlr * ln (2 * pi * (spec_scale hlr)\<^sup>2 * f0v / (flux * spec_detM q pa))"

definition spec_half_width :: "real \<Rightarrow> real \<Rightarrow> real \<Rightarrow> real \<Rightarrow> real \<Rightarrow> real" where
  "spec_half_width f0v flux hlr q pa =
     spec_rcut f0v flux hlr q pa
       * sqrt (((1 + spec_gp q pa)\<^sup>2 + (spec_gx q pa)\<^sup>2) / spec_detM q pa)"

definition spec_half_height :: "real \<Rightarrow> real \<Rightarrow> real \<Rightarrow> real \<Rightarrow> real \<Rightarrow> real" where
  "spec_half_height f0v flux hlr q pa =
     spec_rcut f0v flux hlr q pa
       * sqrt (((1 - spec_gp q pa)\<^sup>2 + (spec_gx q pa)\<^sup>2) / spec_detM q pa)"

text \<open>
  The Finite-Difference Engine as the specification writes it (section 4.6): the render with
  the psf of the nominal parameters with one of them set to \<open>v\<close>, the table of the
  coefficients, and the sum over the steps 1 to \<open>k\<close>.
\<close>

definition request_at :: "locals \<Rightarrow> params \<Rightarrow> boundsI \<Rightarrow> pname \<Rightarrow> real \<Rightarrow> draw_request" where
  "request_at L prm bb pn v = Convolve [createSource_kw (prm(pn := v)), psf L, pix L] False bb"

definition render_at :: "engines \<Rightarrow> locals \<Rightarrow> params \<Rightarrow> boundsI \<Rightarrow> pname \<Rightarrow> real \<Rightarrow> image" where
  "render_at E L prm bb pn v = draw E (request_at L prm bb pn v)"

definition spec_fd_coefs :: "nat \<Rightarrow> real list" where
  "spec_fd_coefs k =
     (if k = 1 then [1 / 2]
      else if k = 2 then [2 / 3, - 1 / 12]
      else if k = 3 then [3 / 4, - 3 / 20, 1 / 60]
      else if k = 4 then [4 / 5, - 1 / 5, 4 / 105, - 1 / 280]
      else [])"

definition spec_central_difference ::
  "nat \<Rightarrow> real \<Rightarrow> (real \<Rightarrow> image) \<Rightarrow> real \<Rightarrow> image" where
  "spec_central_difference k delta render p =
     (\<lambda>px. \<Sum>s\<leftarrow>[1..<Suc k].
        (spec_fd_coefs k ! (s - 1) / delta)
          * (render (p + real s * delta) px - render (p - real s * delta) px))"

definition spec_fd_requests ::
  "nat \<Rightarrow> real \<Rightarrow> (real \<Rightarrow> draw_request) \<Rightarrow> real \<Rightarrow> draw_request list" where
  "spec_fd_requests k delta req p =
     concat (map (\<lambda>s. [req (p + real s * delta), req (p - real s * delta)]) [1..<Suc k])"

section \<open>The values of a run that starts without an exception, and sample inputs\<close>

text \<open>What \<open>main_init\<close> returns when none of its statements raises.\<close>

definition locals_of :: "args \<Rightarrow> real list \<Rightarrow> locals" where
  "locals_of a cs =
     (let f0v = fcut / (arg_pixel_scale a * arg_pixel_scale a);
          r0 = 0.5 * arg_psf_fwhm a / sqrt (2 powr (1 / arg_psf_beta a) - 1)
      in \<lparr> pix = Pixel (arg_pixel_scale a),
           psf = Moffat (arg_psf_beta a) (arg_psf_fwhm a),
           RAmin = (arg_x_center a - 0.5 * real_of_int (arg_width a)) * arg_pixel_scale a,
           RAmax = (arg_x_center a + 0.5 * real_of_int (arg_width a)) * arg_pixel_scale a,
           DECmin = (arg_y_center a - 0.5 * real_of_int (arg_height a)) * arg_pixel_scale a,
           DECmax = (arg_y_center a + 0.5 * real_of_int (arg_height a)) * arg_pixel_scale a,
           margin = arg_margin a * arcmin2arcsec,
           fdCoefs = cs,
           f0 = f0v, r0psf = r0, cpsf = pi * f0v * r0 * r0 / (arg_psf_beta a - 1) \<rparr>)"

text \<open>
  The defaults of the command line, with the flux normalisation, the partials switch and
  their order left open; a catalog line with 24 columns, a circular disk (both axes 1,
  position angle 0), with its position in degrees, its half-light radius and its i-band
  magnitude left open; and a rendering engine that draws the half-light radius of the source
  on every pixel of the stamp.
\<close>

definition sample_args :: "real \<Rightarrow> bool \<Rightarrow> int \<Rightarrow> args" where
  "sample_args fn p k =
     \<lparr> arg_output = ''catout'', arg_x_center = 2048, arg_y_center = - 2048,
       arg_width = 512, arg_height = 512, arg_margin = 10, arg_pixel_scale = 0.2,
       arg_psf_fwhm = 0.7, arg_psf_beta = 3, arg_flux_norm = fn, arg_nvisits = 230,
       arg_sky_level = 780.778, arg_g1 = 0, arg_g2 = 0,
       arg_partials = p, arg_partials_order = k \<rparr>"

definition sample_row :: "real \<Rightarrow> real \<Rightarrow> real \<Rightarrow> real \<Rightarrow> row" where
  "sample_row ra dec hlr i_ab =
     [Some 1, Some ra, Some dec, Some 0, Some 0, Some 0, Some 0, Some hlr, Some 0, Some 0,
      Some 0, Some 0, Some 0, Some 0, Some 0, Some 0, Some 0, Some 1, Some 0, Some 1,
      Some 0, Some 0, Some 24, Some i_ab]"

definition sample_engines :: engines where
  "sample_engines =
     \<lparr> draw = (\<lambda>r. case r of Convolve ps rs bb \<Rightarrow>
                  (case ps of Exponential fl h ts # rest \<Rightarrow> (\<lambda>p. if includes_px bb p then h else 0)
                   | _ \<Rightarrow> ImageD)),
       addNoise = (\<lambda>n img. img), fresh_seed = 0 \<rparr>"

definition sample_stamp :: stamp_addr where
  "sample_stamp = \<lparr> xoffset = 8, yoffset = 504, xpixels = 8, ypixels = 504, xhalf = 1, yhalf = 1,
                    bbox = BoundsI 7 9 503 505 \<rparr>"

text \<open>The two requests that line 245 and line 246 make for a kept entry.\<close>

definition nopsf_request :: "locals \<Rightarrow> params \<Rightarrow> boundsI \<Rightarrow> draw_request" where
  "nopsf_request L prm bb = Convolve [createSource_kw prm, pix L] True bb"

definition nominal_request :: "locals \<Rightarrow> params \<Rightarrow> boundsI \<Rightarrow> draw_request" where
  "nominal_request L prm bb = Convolve [createSource_kw prm, psf L, pix L] False bb"

text \<open>The state after the sample entry that is kept, from the initial state.\<close>

definition sample_kept_state :: state where
  "sample_kept_state =
     (let prm = nominal_params (sample_args 5 False 1) 2300 0.1 0.1 0.167835 1 0;
          L = locals_of (sample_args 5 False 1) [];
          bb = BoundsI 7 9 503 505
      in init_state\<lparr> lineno := 1, nkeep := 1,
           field := add_overlap ImageD (bounds_and bb (BoundsI 1 512 1 512))
                      (draw sample_engines (nominal_request L prm bb)),
           hduList := [[draw sample_engines (nopsf_request L prm bb),
                        draw sample_engines (nominal_request L prm bb)]],
           drawn := [nopsf_request L prm bb, nominal_request L prm bb],
           logged := [(1, 1, 3, 3)] \<rparr>)"

text \<open>
  A catalog line whose major axis is 0, so that the axis ratio of line 172 cannot be
  computed, and the sample configuration with a psf of width 0.
\<close>

definition zero_flux_row :: row where
  "zero_flux_row = (sample_row 0.1 (- 0.1) 0.167835 24)[17 := Some 0]"

definition no_psf_args :: args where
  "no_psf_args = (sample_args 5 False 1)\<lparr>arg_psf_fwhm := 0\<rparr>"

text \<open>
  The images that a run writes as field images, in order; the sample configuration with
  the sky level 0; and a noise generator that leaves the image as it is when its random
  generator is seeded with 123 and changes it otherwise.
\<close>

fun field_writes :: "(string \<times> payload) list \<Rightarrow> image list" where
  "field_writes [] = []"
| "field_writes ((n, FieldImage img) # ws) = img # field_writes ws"
| "field_writes ((n, StampCubes cs) # ws) = field_writes ws"

definition no_sky_args :: args where
  "no_sky_args = (sample_args 5 False 1)\<lparr>arg_sky_level := 0\<rparr>"

definition other_noise :: "noise \<Rightarrow> image \<Rightarrow> image" where
  "other_noise n img =
     (case n of PoissonNoise (BaseDeviate sd) sky \<Rightarrow> if sd = 123 then img else (\<lambda>p. img p + 42))"

section \<open>Exceptions: when the checked operations return\<close>

lemma ebind_Inr [simp]: "ebind (Inr v) f = f v"
  by (simp add: ebind_def)

lemma ebind_Inl [simp]: "ebind (Inl e) f = Inl e"
  by (simp add: ebind_def)

lemma ebind_eq_Inr: "ebind m f = Inr r \<longleftrightarrow> (\<exists>v. m = Inr v \<and> f v = Inr r)"
  by (cases m) simp_all

lemma py_div_ok [simp]: "y \<noteq> 0 \<Longrightarrow> py_div x y = Inr (x / y)"
  by (simp add: py_div_def)

lemma math_log_ok [simp]: "0 < x \<Longrightarrow> math_log x = Inr (ln x)"
  by (simp add: math_log_def)

lemma math_sqrt_ok [simp]: "0 \<le> x \<Longrightarrow> math_sqrt x = Inr (sqrt x)"
  by (simp add: math_sqrt_def)

lemma math_pow_pos [simp]: "0 < x \<Longrightarrow> math_pow x y = Inr (x powr y)"
  by (simp add: math_pow_def)

lemma coef_at_ok [simp]: "i < length cs \<Longrightarrow> coef_at cs i = Inr (cs ! i)"
  by (simp add: coef_at_def)

section \<open>The geometry of the isophote cut\<close>

lemma shear_g_bound:
  fixes q :: real
  assumes "0 < q"
  shows "((1 - q) / (1 + q))\<^sup>2 < 1"
proof -
  have "\<bar>(1 - q) / (1 + q)\<bar> < 1" using assms by (simp add: abs_if field_simps)
  then show ?thesis by (simp add: abs_square_less_1)
qed

lemma detM_formula:
  fixes g t :: real
  shows "1 - (g * cos t) * (g * cos t) - (g * sin t) * (g * sin t) = 1 - g\<^sup>2"
proof -
  have "(g * cos t) * (g * cos t) + (g * sin t) * (g * sin t) = g\<^sup>2 * ((cos t)\<^sup>2 + (sin t)\<^sup>2)"
    by (simp only: power2_eq_square distrib_left mult_ac)
  then show ?thesis by simp
qed

lemma spec_detM_eq: "spec_detM q pa = 1 - (spec_g q)\<^sup>2"
  unfolding spec_detM_def spec_gp_def spec_gx_def power2_eq_square [of "spec_g q * cos (2 * pa)"]
    power2_eq_square [of "spec_g q * sin (2 * pa)"]
  by (rule detM_formula)

lemma spec_detM_pos: "0 < q \<Longrightarrow> 0 < spec_detM q pa"
  using shear_g_bound [of q] by (simp add: spec_detM_eq spec_g_def)

lemma shear_affine_spec:
  assumes "0 < q"
  shows "shear_affine q pa = Inr (spec_gp q pa, spec_gx q pa, spec_detM q pa)"
  using assms
  by (simp add: shear_affine_def Let_def spec_gp_def spec_gx_def spec_detM_def spec_g_def
      power2_eq_square)

lemma isophote_box_spec:
  assumes "0 < flux" "0 < q" "0 < hlr" "0 < f0v"
  shows "isophote_box f0v flux hlr q pa =
     Inr (if spec_rcut f0v flux hlr q pa \<le> 0 then None
          else Some (spec_half_width f0v flux hlr q pa, spec_half_height f0v flux hlr q pa))"
proof -
  have d: "0 < spec_detM q pa" using assms by (simp add: spec_detM_pos)
  have s: "0 < spec_scale hlr" using assms by (simp add: spec_scale_def)
  have x: "0 < twopi * spec_scale hlr * spec_scale hlr * f0v / (flux * spec_detM q pa)"
    using assms d s by (simp add: twopi_def)
  have w: "0 \<le> ((1 + spec_gp q pa) * (1 + spec_gp q pa) + spec_gx q pa * spec_gx q pa)
               / spec_detM q pa"
    using d by (simp add: divide_nonneg_pos)
  have h: "0 \<le> ((1 - spec_gp q pa) * (1 - spec_gp q pa) + spec_gx q pa * spec_gx q pa)
               / spec_detM q pa"
    using d by (simp add: divide_nonneg_pos)
  have fd: "flux * spec_detM q pa \<noteq> 0" using assms d by simp
  have dn: "spec_detM q pa \<noteq> 0" using d by simp
  show ?thesis
    unfolding isophote_box_def Let_def shear_affine_spec [OF assms(2)] spec_scale_def [symmetric]
    using x w h fd dn
    by (simp add: spec_rcut_def spec_half_width_def spec_half_height_def
        twopi_def power2_eq_square mult_ac)
qed

subsection \<open>Rounding to the nearest double\<close>

lemma rne_error: "\<bar>of_int (rne y) - y\<bar> \<le> 1 / 2"
  unfolding rne_def Let_def by (auto simp: abs_if) linarith+

lemma rne_nonneg: "0 \<le> y \<Longrightarrow> 0 \<le> rne y"
  unfolding rne_def Let_def by (auto simp: le_floor_iff)

lemma rne_of_int [simp]: "rne (of_int n) = n"
  unfolding rne_def Let_def by simp

lemma rne_small: "0 \<le> y \<Longrightarrow> y < 1 / 2 \<Longrightarrow> rne y = 0"
proof -
  assume a: "0 \<le> y" "y < 1 / 2"
  then have f: "\<lfloor>y\<rfloor> = 0" by (simp add: floor_eq_iff)
  show ?thesis unfolding rne_def Let_def f using a by simp
qed

lemma rne_near:
  assumes "\<bar>y - of_int n\<bar> < 1 / 2"
  shows "rne y = n"
proof -
  have "\<bar>of_int (rne y) - y\<bar> \<le> 1 / 2" by (rule rne_error)
  then have "\<bar>(of_int (rne y) :: real) - of_int n\<bar> < 1" using assms by linarith
  then have "\<bar>rne y - n\<bar> < 1" by (metis of_int_diff of_int_abs of_int_less_1_iff)
  then show ?thesis by linarith
qed

lemma ulp_pos [simp]: "0 < ulp x"
  by (simp add: ulp_def)

lemma ulp_nonneg [simp]: "0 \<le> ulp x"
  by (simp add: ulp_def)

lemma ulp_nonzero [simp]: "ulp x \<noteq> 0"
  by (simp add: ulp_def)

lemma rne_zero [simp]: "rne 0 = 0"
  using rne_of_int [of 0] by simp

lemma rnd_zero [simp]: "rnd 0 = 0"
  by (simp add: rnd_def)

lemma rnd_nonneg: "0 \<le> x \<Longrightarrow> 0 \<le> rnd x"
  unfolding rnd_def by (intro mult_nonneg_nonneg) (simp_all add: rne_nonneg)

lemma rnd_half_ulp: "\<bar>rnd x - x\<bar> \<le> ulp x / 2"
proof -
  have "rnd x - x = ulp x * (of_int (rne (x / ulp x)) - x / ulp x)"
    by (simp add: rnd_def right_diff_distrib)
  then have "\<bar>rnd x - x\<bar> = ulp x * \<bar>of_int (rne (x / ulp x)) - x / ulp x\<bar>"
    by (simp add: abs_mult)
  also have "\<dots> \<le> ulp x * (1 / 2)"
    by (intro mult_left_mono rne_error) simp
  finally show ?thesis by simp
qed

lemma ulp_normal:
  assumes "2 powr (- 1022) \<le> \<bar>x\<bar>"
  shows "ulp x \<le> 2 powr (- 52) * \<bar>x\<bar>"
proof -
  have "(0::real) < 2 powr (- 1022)" by simp
  then have x: "0 < \<bar>x\<bar>" using assms by linarith
  have "- 1022 \<le> log 2 \<bar>x\<bar>" using assms x by (simp add: le_log_iff)
  then have "- 1022 \<le> \<lfloor>log 2 \<bar>x\<bar>\<rfloor>" by (simp add: le_floor_iff)
  then have "max \<lfloor>log 2 \<bar>x\<bar>\<rfloor> (- 1022) = \<lfloor>log 2 \<bar>x\<bar>\<rfloor>" by simp
  then have "ulp x = 2 powr (of_int \<lfloor>log 2 \<bar>x\<bar>\<rfloor> - 52)" unfolding ulp_def by simp
  also have "\<dots> = 2 powr (- 52) * 2 powr (of_int \<lfloor>log 2 \<bar>x\<bar>\<rfloor>)"
    by (simp add: powr_add [symmetric])
  also have "\<dots> \<le> 2 powr (- 52) * 2 powr (log 2 \<bar>x\<bar>)"
    by (intro mult_left_mono powr_mono) simp_all
  also have "\<dots> = 2 powr (- 52) * \<bar>x\<bar>" using x by simp
  finally show ?thesis .
qed

lemma ulp_subnormal:
  assumes "x \<noteq> 0" "\<bar>x\<bar> < 2 powr (- 1022)"
  shows "ulp x = 2 powr (- 1074)"
proof -
  have x: "0 < \<bar>x\<bar>" using assms by simp
  have "log 2 \<bar>x\<bar> < - 1022" using assms x by (simp add: log_less_iff)
  then have "\<lfloor>log 2 \<bar>x\<bar>\<rfloor> < - 1022" by (simp add: floor_less_iff)
  then show ?thesis by (simp add: ulp_def max_def)
qed

lemma rnd_error: "\<bar>rnd x - x\<bar> \<le> 2 powr (- 53) * \<bar>x\<bar> + 2 powr (- 1075)"
proof (cases "x = 0")
  case True
  then show ?thesis by simp
next
  case False
  have h: "\<bar>rnd x - x\<bar> \<le> ulp x / 2" by (rule rnd_half_ulp)
  have p: "(2::real) powr (- 53) = 2 powr (- 52) / 2" "(2::real) powr (- 1075) = 2 powr (- 1074) / 2"
    by (simp_all add: powr_minus field_simps)
  have a: "0 \<le> 2 powr (- 53) * \<bar>x\<bar>" "(0::real) \<le> 2 powr (- 1075)" by simp_all
  show ?thesis
  proof (cases "2 powr (- 1022) \<le> \<bar>x\<bar>")
    case True
    have "ulp x / 2 \<le> 2 powr (- 53) * \<bar>x\<bar>"
      using ulp_normal [OF True] unfolding p by simp
    then show ?thesis using h a by linarith
  next
    case False
    then have "ulp x = 2 powr (- 1074)" using \<open>x \<noteq> 0\<close> by (intro ulp_subnormal) simp_all
    then have "ulp x / 2 = 2 powr (- 1075)" unfolding p by simp
    then show ?thesis using h a by linarith
  qed
qed

lemma rnd_underflow:
  assumes "0 \<le> x" "x < 2 powr (- 1075)"
  shows "rnd x = 0"
proof (cases "x = 0")
  case True
  then show ?thesis by simp
next
  case False
  have "(2::real) powr (- 1075) \<le> 2 powr (- 1022)" by (intro powr_mono) simp_all
  then have "\<bar>x\<bar> < 2 powr (- 1022)" using assms by linarith
  then have u: "ulp x = 2 powr (- 1074)" using False by (intro ulp_subnormal)
  have "x / 2 powr (- 1074) < 1 / 2"
  proof -
    have "(2::real) powr (- 1075) = 2 powr (- 1074) / 2" by (simp add: powr_minus field_simps)
    then have "x < 2 powr (- 1074) / 2" using assms by simp
    then show ?thesis by (simp add: field_simps)
  qed
  moreover have "0 \<le> x / 2 powr (- 1074)" using assms by simp
  ultimately have "rne (x / 2 powr (- 1074)) = 0" by (intro rne_small)
  then show ?thesis by (simp add: rnd_def u)
qed


lemma ulp_binade:
  assumes "2 powr (of_int k) \<le> \<bar>x\<bar>" "\<bar>x\<bar> < 2 powr (of_int k + 1)" "- 1022 \<le> k"
  shows "ulp x = 2 powr (of_int k - 52)"
proof -
  have "(0::real) < 2 powr (of_int k)" by simp
  then have x: "0 < \<bar>x\<bar>" using assms(1) by linarith
  have "\<lfloor>log 2 \<bar>x\<bar>\<rfloor> = k" using assms(1,2) x by (simp add: floor_log_eq_powr_iff)
  then show ?thesis using assms(3) by (simp add: ulp_def max_def)
qed

lemma ulp_1_2:
  assumes "1 \<le> x" "x < 2"
  shows "ulp x = 1 / 2 ^ 52"
  using ulp_binade [of 0 x] assms by (simp add: powr_minus field_simps)

lemma ulp_half_1:
  assumes "1 / 2 \<le> x" "x < 1"
  shows "ulp x = 1 / 2 ^ 53"
  using ulp_binade [of "- 1" x] assms by (simp add: powr_minus field_simps)

lemma rnd_exact:
  assumes "x / ulp x = of_int n"
  shows "rnd x = x"
proof -
  have "rnd x = ulp x * (x / ulp x)" unfolding rnd_def assms by simp
  then show ?thesis by simp
qed

lemma rnd_one [simp]: "rnd 1 = 1"
proof -
  have u: "ulp 1 = 1 / 2 ^ 52" by (rule ulp_1_2) simp_all
  show ?thesis by (rule rnd_exact [of _ "2 ^ 52"]) (simp add: u)
qed

lemma rnd_near:
  assumes "ulp x = u" "\<bar>x / u - of_int n\<bar> < 1 / 2"
  shows "rnd x = u * of_int n"
  unfolding rnd_def assms(1) rne_near [OF assms(2)] ..

lemma rnd_below_one:
  assumes "0 \<le> e" "e < 1 / 2 ^ 54"
  shows "rnd (1 - e) = 1"
proof -
  have u: "ulp (1 - e) = 1 / 2 ^ 53" if "e \<noteq> 0"
    using assms that by (intro ulp_half_1) simp_all
  show ?thesis
  proof (cases "e = 0")
    case True
    then show ?thesis by simp
  next
    case False
    have "\<bar>(1 - e) / (1 / 2 ^ 53) - of_int (2 ^ 53)\<bar> = e * 2 ^ 53"
      using assms by (simp add: field_simps)
    also have "\<dots> < 1 / 2" using assms by simp
    finally have "rnd (1 - e) = 1 / 2 ^ 53 * of_int (2 ^ 53)"
      by (rule rnd_near [OF u [OF False]])
    then show ?thesis by simp
  qed
qed

lemma rnd_above_one:
  assumes "0 \<le> e" "e < 1 / 2 ^ 53"
  shows "rnd (1 + e) = 1"
proof -
  have u: "ulp (1 + e) = 1 / 2 ^ 52"
    using assms by (intro ulp_1_2) simp_all
  have "\<bar>(1 + e) / (1 / 2 ^ 52) - of_int (2 ^ 52)\<bar> = e * 2 ^ 52"
    using assms by (simp add: field_simps)
  also have "\<dots> < 1 / 2" using assms by simp
  finally have "rnd (1 + e) = 1 / 2 ^ 52 * of_int (2 ^ 52)"
    by (rule rnd_near [OF u])
  then show ?thesis by simp
qed

lemma rnd_two [simp]: "rnd 2 = 2"
proof -
  have u: "ulp 2 = 1 / 2 ^ 51"
    using ulp_binade [of 1 2] by (simp add: powr_minus field_simps)
  show ?thesis by (rule rnd_exact [of _ "2 ^ 52"]) (simp add: u)
qed

lemma rnd_five [simp]: "rnd 5 = 5"
proof -
  have u: "ulp 5 = 1 / 2 ^ 50"
    using ulp_binade [of 2 5] by (simp add: powr_minus field_simps)
  show ?thesis by (rule rnd_exact [of _ "5 * 2 ^ 50"]) (simp add: u)
qed

subsection \<open>The two floating-point units\<close>

lemma exact_sel:
  "fconst exact_fpu = (\<lambda>x. x)" "fadd exact_fpu = (+)" "fsub exact_fpu = (-)"
  "fmul exact_fpu = (*)" "fdiv exact_fpu = (/)" "fcos exact_fpu = cos" "fsin exact_fpu = sin"
  "flog exact_fpu = ln" "fsqrt exact_fpu = sqrt"
  by (simp_all add: exact_fpu_def)

lemma ieee_sel:
  "fconst ieee_double = rnd" "fadd ieee_double = (\<lambda>x y. rnd (x + y))"
  "fsub ieee_double = (\<lambda>x y. rnd (x - y))" "fmul ieee_double = (\<lambda>x y. rnd (x * y))"
  "fdiv ieee_double = (\<lambda>x y. rnd (x / y))" "fcos ieee_double = (\<lambda>x. rnd (cos x))"
  "fsin ieee_double = (\<lambda>x. rnd (sin x))" "flog ieee_double = (\<lambda>x. rnd (ln x))"
  "fsqrt ieee_double = (\<lambda>x. rnd (sqrt x))"
  by (simp_all add: ieee_double_def)

lemma fl_shear_affine_exact: "fl_shear_affine exact_fpu = shear_affine"
  unfolding fl_shear_affine_def shear_affine_def fl_div_def py_div_def exact_sel ..

lemma fl_isophote_box_exact: "fl_isophote_box exact_fpu = isophote_box"
  unfolding fl_isophote_box_def isophote_box_def fl_shear_affine_exact
    fl_div_def py_div_def fl_log_def math_log_def fl_sqrt_def math_sqrt_def
    fl_twopi_def twopi_def exact_sel ..

lemma ieee_shear_tiny:
  assumes "0 < q" "q < 1 / 2 ^ 54"
  shows "fl_shear_affine ieee_double q 0 = Inr (1, 0, 0)"
proof -
  have a: "rnd (1 - q) = 1" using assms by (intro rnd_below_one) simp_all
  have b: "rnd (1 + q) = 1" using assms by (intro rnd_above_one) simp_all
  show ?thesis
    unfolding fl_shear_affine_def fl_div_def ieee_sel a b Let_def by simp
qed

lemma ieee_box_tiny:
  assumes "0 < q" "q < 1 / 2 ^ 54"
  shows "fl_isophote_box ieee_double f0v flux hlr q 0 = Inl ZeroDivisionError"
  unfolding fl_isophote_box_def ieee_shear_tiny [OF assms] Let_def
  by (simp add: fl_div_def ieee_sel)

lemma pow53: "(2::real) powr (- 53) = 1 / 2 ^ 53"
  by (simp add: powr_minus field_simps)

lemma pow1075: "(2::real) powr (- 1075) = 1 / 2 ^ 1075"
  by (simp add: powr_minus field_simps)

lemma rnd_close: "\<bar>rnd x - x\<bar> \<le> \<bar>x\<bar> / 2 ^ 53 + 1 / 2 ^ 1075"
  using rnd_error [of x] unfolding pow53 pow1075 by simp

lemma rnd_accurate: "\<bar>rnd x - x\<bar> \<le> (1 / 2 ^ 52) * \<bar>x\<bar> + 1 / 2 ^ 52"
proof -
  have "\<bar>x\<bar> / 2 ^ 53 \<le> (1 / 2 ^ 52) * \<bar>x\<bar>" by simp
  moreover have "(1::real) / 2 ^ 1075 \<le> 1 / 2 ^ 52" by simp
  ultimately show ?thesis using rnd_close [of x] by linarith
qed

lemma rnd_unit_accurate:
  assumes "\<bar>x\<bar> \<le> 1"
  shows "\<bar>rnd x - x\<bar> \<le> 1 / 2 ^ 52"
proof -
  have "\<bar>x\<bar> / 2 ^ 53 \<le> 1 / 2 ^ 53" using assms by (simp add: divide_right_mono)
  moreover have "(1::real) / 2 ^ 1075 \<le> 1 / 2 ^ 53" by simp
  ultimately show ?thesis using rnd_close [of x] by simp
qed

lemma rnd_near_exact: "near (1 / 2 ^ 52) (rnd x) x"
  unfolding near_def using rnd_accurate [of x] rnd_nonneg [of x] by simp

lemma ieee_double_accurate: "accurate (1 / 2 ^ 52) ieee_double"
  unfolding accurate_def ieee_sel
  by (intro conjI allI impI rnd_near_exact rnd_unit_accurate) simp_all

lemma rnd_le_double:
  assumes "0 \<le> x"
  shows "rnd x \<le> 2 * x + 1 / 2 ^ 1075"
proof -
  have "\<bar>x\<bar> / 2 ^ 53 \<le> x" using assms by (simp add: field_simps)
  then show ?thesis using rnd_close [of x] assms by linarith
qed


lemma rnd_ge_one:
  assumes "3 / 2 \<le> x"
  shows "1 \<le> rnd x"
proof -
  have "\<bar>x\<bar> / 2 ^ 53 \<le> x / 4" using assms by (simp add: field_simps)
  moreover have "(1::real) / 2 ^ 1075 \<le> 1 / 8" by simp
  ultimately show ?thesis using rnd_close [of x] assms by linarith
qed

lemma ieee_shear_circular: "fl_shear_affine ieee_double 1 0 = Inr (0, 0, 1)"
  unfolding fl_shear_affine_def fl_div_def ieee_sel Let_def by simp

lemma ieee_scale_underflow:
  fixes h :: real
  assumes h: "h = 1 / 2 ^ 600"
  defines "r \<equiv> rnd (h / rnd 1.67835)"
  shows "rnd (rnd (rnd (2 * rnd pi) * r) * r) = 0"
proof -
  have eta: "(1::real) / 2 ^ 1075 \<le> h" unfolding h by simp
  have hp: "0 < h" unfolding h by simp
  have c: "1 \<le> rnd 1.67835" by (rule rnd_ge_one) simp
  have q: "0 \<le> h / rnd 1.67835" "h / rnd 1.67835 \<le> h"
    using c hp by (simp_all add: field_simps)
  have r0: "0 \<le> r" unfolding r_def using q(1) by (rule rnd_nonneg)
  have "r \<le> 2 * (h / rnd 1.67835) + 1 / 2 ^ 1075" unfolding r_def using q(1) by (rule rnd_le_double)
  then have r1: "r \<le> 3 * h" using q(2) eta by linarith
  have p0: "0 \<le> rnd pi" by (rule rnd_nonneg) simp
  have "rnd pi \<le> 2 * pi + 1 / 2 ^ 1075" by (rule rnd_le_double) simp
  moreover have "(1::real) / 2 ^ 1075 \<le> 1" by simp
  ultimately have p1: "rnd pi \<le> 9" using pi_less_4 by linarith
  have tw0: "0 \<le> rnd (2 * rnd pi)" using p0 by (intro rnd_nonneg) simp
  have "rnd (2 * rnd pi) \<le> 2 * (2 * rnd pi) + 1 / 2 ^ 1075" using p0 by (intro rnd_le_double) simp
  then have tw1: "rnd (2 * rnd pi) \<le> 37" using p1 \<open>(1::real) / 2 ^ 1075 \<le> 1\<close> by linarith
  have m0: "0 \<le> rnd (2 * rnd pi) * r" using tw0 r0 by simp
  have m1: "rnd (2 * rnd pi) * r \<le> 37 * (3 * h)"
    using tw0 tw1 r0 r1 by (intro mult_mono) simp_all
  have t0: "0 \<le> rnd (rnd (2 * rnd pi) * r)" using m0 by (rule rnd_nonneg)
  have "rnd (rnd (2 * rnd pi) * r) \<le> 2 * (rnd (2 * rnd pi) * r) + 1 / 2 ^ 1075"
    using m0 by (rule rnd_le_double)
  then have t1: "rnd (rnd (2 * rnd pi) * r) \<le> 223 * h" using m1 eta by linarith
  have n0: "0 \<le> rnd (rnd (2 * rnd pi) * r) * r" using t0 r0 by simp
  have "rnd (rnd (2 * rnd pi) * r) * r \<le> (223 * h) * (3 * h)"
    using t0 t1 r0 r1 by (intro mult_mono) simp_all
  also have "\<dots> < 2 powr (- 1075)" unfolding h pow1075 by simp
  finally show ?thesis using n0 by (intro rnd_underflow)
qed

lemma ieee_box_underflow:
  "fl_isophote_box ieee_double 50 5 (1 / 2 ^ 600) 1 0 = Inl ValueError"
proof -
  have z: "rnd (rnd (rnd (2 * rnd pi) * rnd (1 / 2 ^ 600 / rnd 1.67835))
             * rnd (1 / 2 ^ 600 / rnd 1.67835)) = 0"
    by (rule ieee_scale_underflow) (rule refl)
  show ?thesis
    unfolding fl_isophote_box_def ieee_shear_circular Let_def fl_twopi_def fl_div_def fl_log_def
      ieee_sel ebind_Inr prod.case z
    by simp
qed

lemma exact_fpu_accurate: "accurate 0 exact_fpu"
  by (simp add: accurate_def near_def exact_sel)

subsection \<open>The shear determinant in rounded arithmetic\<close>

lemma abs_mult_le:
  fixes a b :: real
  assumes "\<bar>a\<bar> \<le> A" "\<bar>b\<bar> \<le> B"
  shows "\<bar>a * b\<bar> \<le> A * B"
proof -
  have "0 \<le> A" using assms(1) by linarith
  then have "\<bar>a\<bar> * \<bar>b\<bar> \<le> A * B" using assms by (intro mult_mono) simp_all
  then show ?thesis by (simp add: abs_mult)
qed

lemma near_bound:
  fixes a z u B :: real
  assumes "near u a z" "0 \<le> u" "\<bar>z\<bar> \<le> B"
  shows "\<bar>a - z\<bar> \<le> (B + 1) * u"
proof -
  have "u * \<bar>z\<bar> \<le> u * B" using assms by (intro mult_left_mono) simp_all
  then show ?thesis using assms(1) unfolding near_def by (simp add: algebra_simps)
qed

lemma near_nonneg: "near u a z \<Longrightarrow> 0 \<le> z \<Longrightarrow> 0 \<le> a"
  by (simp add: near_def)

lemma accurate_nonneg: "accurate u F \<Longrightarrow> 0 \<le> u"
proof -
  assume "accurate u F"
  then have "\<bar>fcos F 0 - cos 0\<bar> \<le> u" unfolding accurate_def by blast
  then show ?thesis by linarith
qed

lemma accurateD:
  assumes "accurate u F"
  shows "near u (fadd F x y) (x + y)"
    and "near u (fsub F x y) (x - y)"
    and "near u (fmul F x y) (x * y)"
    and "y \<noteq> 0 \<Longrightarrow> near u (fdiv F x y) (x / y)"
    and "\<bar>fcos F x - cos x\<bar> \<le> u"
    and "\<bar>fsin F x - sin x\<bar> \<le> u"
  using assms unfolding accurate_def by blast+

lemma square_near:
  fixes v a u :: real
  assumes "\<bar>v - a\<bar> \<le> 4 * u" "\<bar>a\<bar> \<le> 1" "u \<le> 1 / 100"
  shows "v * v \<le> a * a + 9 * u"
proof -
  define e where "e = v - a"
  have e: "\<bar>e\<bar> \<le> 4 * u" using assms(1) by (simp add: e_def)
  then have u0: "0 \<le> u" by linarith
  have "\<bar>a * e\<bar> \<le> 1 * (4 * u)" using assms(2) e by (rule abs_mult_le)
  moreover have "\<bar>e * e\<bar> \<le> (4 * u) * (4 * u)" using e e by (rule abs_mult_le)
  moreover have "u * u \<le> u * (1 / 100)" using u0 assms(3) by (intro mult_left_mono)
  moreover have "v * v = a * a + 2 * (a * e) + e * e" by (simp add: e_def algebra_simps)
  ultimately show ?thesis by (simp add: algebra_simps abs_le_iff)
qed

lemma shear_bounds:
  fixes F :: fpu and u q pa :: real
  assumes A: "accurate u F" and Q: "0 < q" "100 * u \<le> q" "q \<le> 1"
  defines "g \<equiv> fdiv F (fsub F 1 q) (fadd F 1 q)"
  defines "gp \<equiv> fmul F g (fcos F (fmul F 2 pa))"
  defines "gx \<equiv> fmul F g (fsin F (fmul F 2 pa))"
  defines "detM \<equiv> fsub F (fsub F 1 (fmul F gp gp)) (fmul F gx gx)"
  shows "1 \<le> fadd F 1 q" "q / 2 \<le> detM" "detM \<le> 2"
proof -
  note u0 = accurate_nonneg [OF A]
  have U: "u \<le> 1 / 100" using Q by linarith
  define t where "t = fmul F 2 pa"
  define n where "n = fsub F 1 q"
  define d where "d = fadd F 1 q"
  have "\<bar>1 - q\<bar> \<le> 1" using Q by simp
  from near_bound [OF accurateD(2) [OF A] u0 this]
  have "\<bar>n - (1 - q)\<bar> \<le> 2 * u" unfolding n_def by simp
  then have n: "\<bar>n\<bar> \<le> 1 - q + 2 * u" using Q by linarith
  have "\<bar>1 + q\<bar> \<le> 2" using Q by simp
  from near_bound [OF accurateD(1) [OF A] u0 this]
  have "\<bar>d - (1 + q)\<bar> \<le> 3 * u" unfolding d_def by simp
  then have d: "1 \<le> d" using Q u0 by linarith
  then have d0: "d \<noteq> 0" "0 < d" by simp_all
  have nd: "\<bar>n / d\<bar> \<le> 1 - q + 2 * u"
  proof -
    have "\<bar>n / d\<bar> = \<bar>n\<bar> / d" using d0 by simp
    also have "\<dots> \<le> \<bar>n\<bar> / 1" using d by (intro divide_left_mono) simp_all
    finally show ?thesis using n by simp
  qed
  then have "\<bar>n / d\<bar> \<le> 2" using Q U by linarith
  from near_bound [OF accurateD(4) [OF A d0(1)] u0 this]
  have "\<bar>g - n / d\<bar> \<le> 3 * u" unfolding g_def n_def d_def by simp
  then have g: "\<bar>g\<bar> \<le> 1 - q + 5 * u" using nd by linarith
  then have g1: "\<bar>g\<bar> \<le> 1" using Q u0 by linarith
  have c: "\<bar>fcos F t - cos t\<bar> \<le> u" by (rule accurateD(5) [OF A])
  have s: "\<bar>fsin F t - sin t\<bar> \<le> u" by (rule accurateD(6) [OF A])
  have cb: "\<bar>fcos F t\<bar> \<le> 2" using c U abs_cos_le_one [of t] by linarith
  have sb: "\<bar>fsin F t\<bar> \<le> 2" using s U abs_sin_le_one [of t] by linarith
  have gcos: "\<bar>g * cos t\<bar> \<le> 1" using abs_mult_le [OF g1 abs_cos_le_one [of t]] by simp
  have gsin: "\<bar>g * sin t\<bar> \<le> 1" using abs_mult_le [OF g1 abs_sin_le_one [of t]] by simp
  have gpn: "\<bar>gp - g * cos t\<bar> \<le> 4 * u"
  proof -
    have z: "\<bar>g * fcos F t\<bar> \<le> 2" using abs_mult_le [OF g1 cb] by simp
    from near_bound [OF accurateD(3) [OF A] u0 this]
    have "\<bar>gp - g * fcos F t\<bar> \<le> 3 * u" unfolding gp_def t_def by simp
    moreover have "\<bar>g * (fcos F t - cos t)\<bar> \<le> 1 * u" using g1 c by (rule abs_mult_le)
    moreover have "gp - g * cos t = (gp - g * fcos F t) + g * (fcos F t - cos t)"
      by (simp add: algebra_simps)
    ultimately show ?thesis by linarith
  qed
  have gxn: "\<bar>gx - g * sin t\<bar> \<le> 4 * u"
  proof -
    have z: "\<bar>g * fsin F t\<bar> \<le> 2" using abs_mult_le [OF g1 sb] by simp
    from near_bound [OF accurateD(3) [OF A] u0 this]
    have "\<bar>gx - g * fsin F t\<bar> \<le> 3 * u" unfolding gx_def t_def by simp
    moreover have "\<bar>g * (fsin F t - sin t)\<bar> \<le> 1 * u" using g1 s by (rule abs_mult_le)
    moreover have "gx - g * sin t = (gx - g * fsin F t) + g * (fsin F t - sin t)"
      by (simp add: algebra_simps)
    ultimately show ?thesis by linarith
  qed
  define G where "G = 1 - q + 5 * u"
  have G: "0 \<le> G" "G \<le> 1" "\<bar>g\<bar> \<le> G" using g Q u0 unfolding G_def by linarith+
  have "\<bar>g * g\<bar> \<le> G * G" using G(3) G(3) by (rule abs_mult_le)
  moreover have "G * G \<le> G * 1" using G by (intro mult_left_mono)
  ultimately have gg: "g * g \<le> G" by simp
  have circ: "(g * cos t) * (g * cos t) + (g * sin t) * (g * sin t) = g * g"
    using detM_formula [of g t] unfolding power2_eq_square by linarith
  have p2: "gp * gp \<le> (g * cos t) * (g * cos t) + 9 * u" using gpn gcos U by (rule square_near)
  have x2: "gx * gx \<le> (g * sin t) * (g * sin t) + 9 * u" using gxn gsin U by (rule square_near)
  have sum: "gp * gp + gx * gx \<le> G + 18 * u" using p2 x2 circ gg by linarith
  have p0: "0 \<le> gp * gp" and x0: "0 \<le> gx * gx" by simp_all
  have pz: "\<bar>gp * gp\<bar> \<le> 2" and xz: "\<bar>gx * gx\<bar> \<le> 2"
    using sum p0 x0 G U by linarith+
  define P where "P = fmul F gp gp"
  define X where "X = fmul F gx gx"
  have P: "\<bar>P - gp * gp\<bar> \<le> 3 * u"
    using near_bound [OF accurateD(3) [OF A] u0 pz] unfolding P_def by simp
  have X: "\<bar>X - gx * gx\<bar> \<le> 3 * u"
    using near_bound [OF accurateD(3) [OF A] u0 xz] unfolding X_def by simp
  define A1 where "A1 = fsub F 1 P"
  have "\<bar>1 - P\<bar> \<le> 3" using P pz p0 U by linarith
  from near_bound [OF accurateD(2) [OF A] u0 this]
  have A1: "\<bar>A1 - (1 - P)\<bar> \<le> 4 * u" unfolding A1_def by simp
  have "\<bar>A1 - X\<bar> \<le> 6" using A1 P X pz xz p0 x0 U by linarith
  from near_bound [OF accurateD(2) [OF A] u0 this]
  have D: "\<bar>fsub F A1 X - (A1 - X)\<bar> \<le> 7 * u" by simp
  have dm: "detM = fsub F A1 X" by (simp add: detM_def A1_def P_def X_def)
  show "q / 2 \<le> detM" unfolding dm using D A1 P X sum Q unfolding G_def by linarith
  show "detM \<le> 2" unfolding dm using D A1 P X p0 x0 U by linarith
  show "1 \<le> fadd F 1 q" using d unfolding d_def .
qed

lemma near_pos:
  fixes a z u q :: real
  assumes "near u a z" "0 < q" "100 * u \<le> q" "q \<le> 1" "q / 2 \<le> z"
  shows "0 < a"
proof -
  have z: "0 \<le> z" using assms(2,5) by linarith
  have "\<bar>a - z\<bar> \<le> u * \<bar>z\<bar> + u" using assms(1) by (simp add: near_def)
  moreover have "u * \<bar>z\<bar> \<le> (1 / 100) * \<bar>z\<bar>"
    using assms(3,4) by (intro mult_right_mono) simp_all
  ultimately show ?thesis using assms(2,3,5) z by linarith
qed

lemma fl_shear_affine_value:
  assumes "fadd F 1 q \<noteq> 0"
  shows "fl_shear_affine F q pa =
     Inr (let g = fdiv F (fsub F 1 q) (fadd F 1 q);
              gp = fmul F g (fcos F (fmul F 2 pa));
              gx = fmul F g (fsin F (fmul F 2 pa));
              detM = fsub F (fsub F 1 (fmul F gp gp)) (fmul F gx gx)
          in (gp, gx, detM))"
  using assms by (simp add: fl_shear_affine_def fl_div_def Let_def)

lemma extent_nonneg:
  assumes A: "accurate u F" and d: "0 < detM"
  shows "\<not> fdiv F (fadd F (fmul F s s) (fmul F x x)) detM < 0"
proof -
  have "0 \<le> fmul F s s" by (rule near_nonneg [OF accurateD(3) [OF A]]) simp
  moreover have "0 \<le> fmul F x x" by (rule near_nonneg [OF accurateD(3) [OF A]]) simp
  ultimately have "0 \<le> fadd F (fmul F s s) (fmul F x x)"
    by (intro near_nonneg [OF accurateD(1) [OF A]]) simp
  then have "0 \<le> fdiv F (fadd F (fmul F s s) (fmul F x x)) detM"
    using d by (intro near_nonneg [OF accurateD(4) [OF A]]) simp_all
  then show ?thesis by simp
qed

lemma fl_isophote_box_positive_det:
  assumes A: "accurate u F" and S: "fl_shear_affine F q pa = Inr (gp, gx, detM)"
    and d: "0 < detM" and fd: "0 < fmul F f detM"
  shows "fl_isophote_box F f0v f hlr q pa =
     (let scale = fdiv F hlr (fconst F 1.67835);
          x = fdiv F (fmul F (fmul F (fmul F (fl_twopi F) scale) scale) f0v) (fmul F f detM);
          r_cut = fmul F (- scale) (flog F x)
      in if x \<le> 0 then Inl ValueError
         else if r_cut \<le> 0 then Inr None
         else Inr (Some
           (fmul F r_cut (fsqrt F
              (fdiv F (fadd F (fmul F (fadd F 1 gp) (fadd F 1 gp)) (fmul F gx gx)) detM)),
            fmul F r_cut (fsqrt F
              (fdiv F (fadd F (fmul F (fsub F 1 gp) (fsub F 1 gp)) (fmul F gx gx)) detM)))))"
proof -
  have n: "detM \<noteq> 0" "fmul F f detM \<noteq> 0" using d fd by simp_all
  show ?thesis
    unfolding fl_isophote_box_def S Let_def
    by (simp add: fl_div_def fl_log_def fl_sqrt_def n extent_nonneg [OF A d])
qed

text \<open>
  C8, as amended. On a floating-point unit whose operations are accurate to \<open>u\<close>, for
  every axis ratio \<open>q\<close> with \<open>0 < q\<close>, \<open>100 u \<le> q \<le> 1\<close> (for binary64, \<open>q\<close> from
  \<open>100 / 2^52\<close>, about \<open>2.3e-14\<close>, to 1) and every position angle, lines 179 to 182 do
  not raise and the \<open>detM\<close> they compute is at least \<open>q / 2\<close>, so positive; for an entry
  that has passed the flux test of line 161 (\<open>flux \<ge> 0.5 fcut = 1\<close>) the divisor
  \<open>flux * detM\<close> of line 184 is positive as computed, and lines 177 to 190 never raise
  \<^verbatim>\<open>ZeroDivisionError\<close>.
\<close>

theorem shear_determinant_positive:
  assumes "accurate u F" "0 < q" "100 * u \<le> q" "q \<le> 1" "1 \<le> flux"
  shows "\<exists>gp gx detM. fl_shear_affine F q pa = Inr (gp, gx, detM)
       \<and> q / 2 \<le> detM \<and> 0 < detM \<and> 0 < fmul F flux detM
       \<and> fl_isophote_box F f0v flux hlr q pa \<noteq> Inl ZeroDivisionError"
proof -
  define g where "g = fdiv F (fsub F 1 q) (fadd F 1 q)"
  define gp where "gp = fmul F g (fcos F (fmul F 2 pa))"
  define gx where "gx = fmul F g (fsin F (fmul F 2 pa))"
  define detM where "detM = fsub F (fsub F 1 (fmul F gp gp)) (fmul F gx gx)"
  note b1 = shear_bounds(1) [OF assms(1-4)]
  have b2: "q / 2 \<le> detM"
    using shear_bounds(2) [OF assms(1-4), of pa] unfolding detM_def gx_def gp_def g_def .
  have S: "fl_shear_affine F q pa = Inr (gp, gx, detM)"
    using b1 by (simp add: fl_shear_affine_value Let_def g_def gp_def gx_def detM_def)
  have d: "0 < detM" using b2 assms(2) by linarith
  have "q / 2 \<le> flux * detM"
  proof -
    have "1 * detM \<le> flux * detM" using assms(5) d by (intro mult_right_mono) simp_all
    then show ?thesis using b2 by linarith
  qed
  then have fd: "0 < fmul F flux detM"
    by (rule near_pos [OF accurateD(3) [OF assms(1)] assms(2-4)])
  have "fl_isophote_box F f0v flux hlr q pa \<noteq> Inl ZeroDivisionError"
    unfolding fl_isophote_box_positive_det [OF assms(1) S d fd] Let_def by simp
  then show ?thesis using S b2 d fd by blast
qed

theorem shear_determinant_positive_witness:
  "accurate (1 / 2 ^ 52) ieee_double
     \<and> (0::real) < 1 / 2 \<and> 100 * (1 / 2 ^ 52) \<le> (1 / 2 :: real) \<and> (1 / 2 :: real) \<le> 1
     \<and> (1::real) \<le> 5
     \<and> (\<exists>gp gx detM. fl_shear_affine ieee_double (1 / 2) 0 = Inr (gp, gx, detM)
           \<and> 1 / 4 \<le> detM \<and> 0 < fmul ieee_double 5 detM
           \<and> fl_isophote_box ieee_double 50 5 1 (1 / 2) 0 \<noteq> Inl ZeroDivisionError)"
proof -
  have h: "(0::real) < 1 / 2" "100 * (1 / 2 ^ 52) \<le> (1 / 2 :: real)" "(1 / 2 :: real) \<le> 1"
    "(1::real) \<le> 5"
    by simp_all
  from shear_determinant_positive [OF ieee_double_accurate h, of 0 50 1]
  obtain gp gx detM where "fl_shear_affine ieee_double (1 / 2) 0 = Inr (gp, gx, detM)"
    "1 / 2 / 2 \<le> detM" "0 < fmul ieee_double 5 detM"
    "fl_isophote_box ieee_double 50 5 1 (1 / 2) 0 \<noteq> Inl ZeroDivisionError"
    by blast
  then have "\<exists>gp gx detM. fl_shear_affine ieee_double (1 / 2) 0 = Inr (gp, gx, detM)
           \<and> 1 / 4 \<le> detM \<and> 0 < fmul ieee_double 5 detM
           \<and> fl_isophote_box ieee_double 50 5 1 (1 / 2) 0 \<noteq> Inl ZeroDivisionError"
    by (intro exI [of _ gp] exI [of _ gx] exI [of _ detM]) simp
  then show ?thesis using ieee_double_accurate h by blast
qed

text \<open>
  C8 as stated fails: the axis ratio \<open>2^-60\<close> is in \<open>(0, 1]\<close> (the catalog columns
  \<^verbatim>\<open>a_d = 1\<close> and \<^verbatim>\<open>b_d = 8.673617379884035e-19\<close> give it exactly), and in binary64
  \<open>1 - q\<close> and \<open>1 + q\<close> both round to 1, so that with the position angle 0 lines 179 to
  182 give \<open>g = gp = 1\<close>, \<open>gx = 0\<close> and \<open>detM = 0\<close>, which is not positive, and line 184
  divides by \<open>flux * detM = 0\<close>.
\<close>

theorem tiny_axis_ratio_divides_by_zero:
  "(0::real) < 1 / 2 ^ 60 \<and> (1 / 2 ^ 60 :: real) \<le> 1
     \<and> fl_shear_affine ieee_double (1 / 2 ^ 60) 0 = Inr (1, 0, 0)
     \<and> fl_isophote_box ieee_double 50 5 1 (1 / 2 ^ 60) 0 = Inl ZeroDivisionError"
  using ieee_shear_tiny [of "1 / 2 ^ 60"] ieee_box_tiny [of "1 / 2 ^ 60" 50 5 1]
  by simp

text \<open>
  C2, as amended. On a floating-point unit whose operations are accurate to \<open>u\<close>, for an
  entry that has passed the flux test (\<open>f \<ge> 0.5 fcut = 1\<close>) with an axis ratio \<open>q\<close>,
  \<open>0 < q\<close>, \<open>100 u \<le> q \<le> 1\<close>, lines 177 to 190 compute, each operation rounded,
  \<open>scale = hlr / 1.67835\<close>, \<open>g = (1 - q) / (1 + q)\<close>, \<open>gp = g cos (2 PA)\<close>,
  \<open>gx = g sin (2 PA)\<close>, \<open>detM = 1 - gp gp - gx gx\<close> and
  \<open>x = 2 pi scale scale f0 / (f detM)\<close> with no division by zero. When the computed \<open>x\<close> is
  not positive (an underflow) \<^verbatim>\<open>math.log\<close> raises \<^verbatim>\<open>ValueError\<close>; otherwise
  \<open>r_cut = - scale ln x\<close>, the entry is dropped when \<open>r_cut \<le> 0\<close> (\<open>None\<close>, the
  \<^verbatim>\<open>continue\<close> of line 188), and otherwise the half width before padding is
  \<open>r_cut sqrt (((1 + gp) (1 + gp) + gx gx) / detM)\<close> and the half height
  \<open>r_cut sqrt (((1 - gp) (1 - gp) + gx gx) / detM)\<close>, with no exception from the divisions
  and the square roots. On the exact unit these are the formulas of \<open>isophote_box_spec\<close>.
\<close>

theorem isophote_cut_geometry:
  assumes "accurate u F" "0 < q" "100 * u \<le> q" "q \<le> 1" "1 \<le> f"
  shows "fl_isophote_box F f0v f hlr q pa =
     (let scale = fdiv F hlr (fconst F 1.67835);
          g = fdiv F (fsub F 1 q) (fadd F 1 q);
          gp = fmul F g (fcos F (fmul F 2 pa));
          gx = fmul F g (fsin F (fmul F 2 pa));
          detM = fsub F (fsub F 1 (fmul F gp gp)) (fmul F gx gx);
          x = fdiv F (fmul F (fmul F (fmul F (fl_twopi F) scale) scale) f0v) (fmul F f detM);
          r_cut = fmul F (- scale) (flog F x)
      in if x \<le> 0 then Inl ValueError
         else if r_cut \<le> 0 then Inr None
         else Inr (Some
           (fmul F r_cut (fsqrt F
              (fdiv F (fadd F (fmul F (fadd F 1 gp) (fadd F 1 gp)) (fmul F gx gx)) detM)),
            fmul F r_cut (fsqrt F
              (fdiv F (fadd F (fmul F (fsub F 1 gp) (fsub F 1 gp)) (fmul F gx gx)) detM)))))"
proof -
  define g where "g = fdiv F (fsub F 1 q) (fadd F 1 q)"
  define gp where "gp = fmul F g (fcos F (fmul F 2 pa))"
  define gx where "gx = fmul F g (fsin F (fmul F 2 pa))"
  define detM where "detM = fsub F (fsub F 1 (fmul F gp gp)) (fmul F gx gx)"
  note b1 = shear_bounds(1) [OF assms(1-4)]
  have b2: "q / 2 \<le> detM"
    using shear_bounds(2) [OF assms(1-4), of pa] unfolding detM_def gx_def gp_def g_def .
  have S: "fl_shear_affine F q pa = Inr (gp, gx, detM)"
    using b1 by (simp add: fl_shear_affine_value Let_def g_def gp_def gx_def detM_def)
  have d: "0 < detM" using b2 assms(2) by linarith
  have "q / 2 \<le> f * detM"
  proof -
    have "1 * detM \<le> f * detM" using assms(5) d by (intro mult_right_mono) simp_all
    then show ?thesis using b2 by linarith
  qed
  then have fd: "0 < fmul F f detM"
    by (rule near_pos [OF accurateD(3) [OF assms(1)] assms(2-4)])
  show ?thesis
    unfolding fl_isophote_box_positive_det [OF assms(1) S d fd]
    unfolding Let_def g_def gp_def gx_def detM_def ..
qed

theorem isophote_cut_geometry_witness:
  "accurate 0 exact_fpu \<and> (0::real) < 1 / 2 \<and> 100 * 0 \<le> (1 / 2 :: real)
     \<and> (1 / 2 :: real) \<le> 1 \<and> (1::real) \<le> 9
     \<and> fl_isophote_box exact_fpu 1 9 1.67835 (1 / 2) 0 =
         Inr (Some (- ln (pi / 4) * sqrt 2, - ln (pi / 4) * sqrt (1 / 2)))
     \<and> accurate (1 / 2 ^ 52) ieee_double \<and> 100 * (1 / 2 ^ 52) \<le> (1 / 2 :: real)
     \<and> fl_isophote_box ieee_double 1 9 1.67835 (1 / 2) 0 \<noteq> Inl ZeroDivisionError"
proof -
  have h: "(0::real) < 1 / 2" "100 * 0 \<le> (1 / 2 :: real)" "(1 / 2 :: real) \<le> 1" "(1::real) \<le> 9"
    by simp_all
  have l: "ln (pi / 4) < 0"
  proof (rule ln_less_zero)
    show "0 < pi / 4" using pi_gt_zero by linarith
    show "pi / 4 < 1" using pi_less_4 by linarith
  qed
  have np: "\<not> pi \<le> 0" using pi_gt_zero by linarith
  have e: "fl_isophote_box exact_fpu 1 9 1.67835 (1 / 2) 0 =
         Inr (Some (- ln (pi / 4) * sqrt 2, - ln (pi / 4) * sqrt (1 / 2)))"
    unfolding isophote_cut_geometry [OF exact_fpu_accurate h] exact_sel fl_twopi_def Let_def
    using l np by simp
  have k: "100 * (1 / 2 ^ 52) \<le> (1 / 2 :: real)" by simp
  have i: "fl_isophote_box ieee_double 1 9 1.67835 (1 / 2) 0 \<noteq> Inl ZeroDivisionError"
    unfolding isophote_cut_geometry [OF ieee_double_accurate h(1) k h(3,4)] Let_def by simp
  from e i k show ?thesis using exact_fpu_accurate ieee_double_accurate h by blast
qed

text \<open>
  C2 as stated fails for two entries with a positive flux and an axis ratio in \<open>(0, 1]\<close>
  that reach the geometry step. With the axis ratio \<open>2^-55\<close> the binary64 \<open>detM\<close> is 0
  and line 184 raises \<^verbatim>\<open>ZeroDivisionError\<close>. With the half-light radius \<open>2^-600\<close>
  (\<^verbatim>\<open>2.409919865102884e-181\<close>) and a circular source, \<^verbatim>\<open>twopi*r_scale*r_scale\<close>
  underflows to 0, \<open>x\<close> is 0 and \<^verbatim>\<open>math.log\<close> of line 185 raises \<^verbatim>\<open>ValueError\<close>. In
  both cases no \<open>r_cut\<close> is computed and the entry is neither dropped nor given a box.
\<close>

theorem isophote_cut_raises:
  "(0::real) < 5 \<and> (0::real) < 1 / 2 ^ 55 \<and> (1 / 2 ^ 55 :: real) \<le> 1
     \<and> fl_isophote_box ieee_double 50 5 1 (1 / 2 ^ 55) 0 = Inl ZeroDivisionError
     \<and> fl_isophote_box ieee_double 50 5 (1 / 2 ^ 600) 1 0 = Inl ValueError"
  using ieee_box_tiny [of "1 / 2 ^ 55" 50 5 1] ieee_box_underflow
  by simp

section \<open>The finite differences\<close>

lemma createStamp_psf:
  "createStamp E (createSource_kw (prm(pn := v))) (Some (psf L)) (pix L) bb ds =
     (render_at E L prm bb pn v, ds @ [request_at L prm bb pn v])"
  by (simp add: createStamp_def render_at_def request_at_def Let_def)

lemma request_at_upd [simp]:
  "request_at L (prm(pn := u)) bb pn v = request_at L prm bb pn v"
  by (simp add: request_at_def)

lemma render_at_upd [simp]:
  "render_at E L (prm(pn := u)) bb pn v = render_at E L prm bb pn v"
  by (simp add: render_at_def)

lemma fd_steps_eval:
  assumes "delta \<noteq> 0" "\<forall>s\<in>set steps. s < length (fdCoefs L)" "\<forall>k. k \<noteq> pn \<longrightarrow> np k = prm k"
  shows "\<exists>np'. (\<forall>k. k \<noteq> pn \<longrightarrow> np' k = prm k) \<and>
     fd_steps E L prm bb pn delta steps (np, partial, ds) =
       Inr (np',
            (\<lambda>px. partial px + (\<Sum>s\<leftarrow>steps. (fdCoefs L ! s / delta)
                 * (render_at E L prm bb pn (prm pn + (real s + 1) * delta) px
                    - render_at E L prm bb pn (prm pn - (real s + 1) * delta) px))),
            ds @ concat (map (\<lambda>s. [request_at L prm bb pn (prm pn + (real s + 1) * delta),
                                        request_at L prm bb pn (prm pn - (real s + 1) * delta)]) steps))"
  using assms
proof (induction steps arbitrary: np partial ds)
  case Nil
  then show ?case by simp
next
  case (Cons s steps)
  let ?up = "prm pn + (real s + 1) * delta" and ?dn = "prm pn - (real s + 1) * delta"
  let ?partial' = "img_add partial (img_scale (fdCoefs L ! s / delta)
        (img_sub (render_at E L prm bb pn ?up) (render_at E L prm bb pn ?dn)))"
  let ?ds' = "(ds @ [request_at L prm bb pn ?up]) @ [request_at L prm bb pn ?dn]"
  have n1: "np(pn := ?up) = prm(pn := ?up)"
    using Cons.prems(3) by (auto simp: fun_eq_iff)
  have agree: "\<forall>k. k \<noteq> pn \<longrightarrow> (prm(pn := ?dn)) k = prm k"
    by simp
  have rest: "\<forall>s\<in>set steps. s < length (fdCoefs L)" and here: "s < length (fdCoefs L)"
    using Cons.prems(2) by simp_all
  have step: "fd_steps E L prm bb pn delta (s # steps) (np, partial, ds) =
      fd_steps E L prm bb pn delta steps (prm(pn := ?dn), ?partial', ?ds')"
    using here Cons.prems(1)
    by (simp add: Let_def n1 createStamp_psf del: fun_upd_apply)
  from Cons.IH [OF Cons.prems(1) rest agree, of ?partial' ?ds']
  obtain np' where a: "\<forall>k. k \<noteq> pn \<longrightarrow> np' k = prm k"
    and b: "fd_steps E L prm bb pn delta steps (prm(pn := ?dn), ?partial', ?ds') =
       Inr (np',
            (\<lambda>px. ?partial' px + (\<Sum>s\<leftarrow>steps. (fdCoefs L ! s / delta)
                 * (render_at E L prm bb pn (prm pn + (real s + 1) * delta) px
                    - render_at E L prm bb pn (prm pn - (real s + 1) * delta) px))),
            ?ds' @ concat (map (\<lambda>s. [request_at L prm bb pn (prm pn + (real s + 1) * delta),
                                        request_at L prm bb pn (prm pn - (real s + 1) * delta)]) steps))"
    by blast
  show ?case
    unfolding step b using a
    by (intro exI [of _ np']) (simp add: img_add_def img_scale_def img_sub_def add.assoc)
qed

lemma init_fdCoefs_spec:
  assumes "arg_partials a" "init_fdCoefs a = Inr cs"
  shows "1 \<le> arg_partials_order a \<and> arg_partials_order a \<le> 4
     \<and> cs = spec_fd_coefs (nat (arg_partials_order a)) \<and> length cs = nat (arg_partials_order a)"
proof -
  from assms have r: "1 \<le> arg_partials_order a" "arg_partials_order a \<le> 4"
    by (auto simp: init_fdCoefs_def split: if_splits)
  then consider "arg_partials_order a = 1" | "arg_partials_order a = 2"
    | "arg_partials_order a = 3" | "arg_partials_order a = 4"
    by linarith
  then show ?thesis
    using assms by cases (auto simp: init_fdCoefs_def spec_fd_coefs_def)
qed

lemma sum_list_shift:
  "(\<Sum>s\<leftarrow>[1..<Suc k]. f s) = (\<Sum>s\<leftarrow>[0..<k]. f (Suc s))"
proof -
  have "[1..<Suc k] = map Suc [0..<k]" by (simp add: map_Suc_upt)
  then show ?thesis by (simp add: comp_def)
qed

lemma concat_map_shift:
  "concat (map f [1..<Suc k]) = concat (map (\<lambda>s. f (Suc s)) [0..<k])"
proof -
  have "[1..<Suc k] = map Suc [0..<k]" by (simp add: map_Suc_upt)
  then show ?thesis by (simp add: comp_def)
qed

lemma fd_partial_eval:
  assumes "delta \<noteq> 0" "nat (arg_partials_order a) \<le> length (fdCoefs L)"
  shows "fd_partial E a L prm bb (pn, delta) ds =
     Inr ((\<lambda>px. \<Sum>s\<leftarrow>[1..<Suc (nat (arg_partials_order a))]. (fdCoefs L ! (s - 1) / delta)
                 * (render_at E L prm bb pn (prm pn + real s * delta) px
                    - render_at E L prm bb pn (prm pn - real s * delta) px)),
          ds @ spec_fd_requests (nat (arg_partials_order a)) delta (request_at L prm bb pn) (prm pn))"
proof -
  have r: "\<forall>s\<in>set [0..<nat (arg_partials_order a)]. s < length (fdCoefs L)"
    using assms(2) by simp
  from fd_steps_eval [OF assms(1) r, of pn prm prm E bb ImageD ds]
  obtain np' where "fd_steps E L prm bb pn delta [0..<nat (arg_partials_order a)] (prm, ImageD, ds) =
       Inr (np',
            (\<lambda>px. ImageD px + (\<Sum>s\<leftarrow>[0..<nat (arg_partials_order a)]. (fdCoefs L ! s / delta)
                 * (render_at E L prm bb pn (prm pn + (real s + 1) * delta) px
                    - render_at E L prm bb pn (prm pn - (real s + 1) * delta) px))),
            ds @ concat (map (\<lambda>s. [request_at L prm bb pn (prm pn + (real s + 1) * delta),
                                        request_at L prm bb pn (prm pn - (real s + 1) * delta)])
                            [0..<nat (arg_partials_order a)]))"
    by auto
  then show ?thesis
    unfolding fd_partial_def spec_fd_requests_def sum_list_shift concat_map_shift
    by (simp add: ImageD_def add.commute)
qed

lemma fd_partial_spec:
  assumes "delta \<noteq> 0" "fdCoefs L = spec_fd_coefs (nat (arg_partials_order a))"
    "length (fdCoefs L) = nat (arg_partials_order a)"
  shows "fd_partial E a L prm bb (pn, delta) ds =
     Inr (spec_central_difference (nat (arg_partials_order a)) delta
            (render_at E L prm bb pn) (prm pn),
          ds @ spec_fd_requests (nat (arg_partials_order a)) delta (request_at L prm bb pn) (prm pn))"
proof -
  have "nat (arg_partials_order a) \<le> length (fdCoefs L)" using assms(3) by simp
  from fd_partial_eval [OF assms(1) this] show ?thesis
    unfolding spec_central_difference_def assms(2) [symmetric] .
qed

lemma partials_loop_eval:
  assumes "\<forall>v\<in>set vs. snd v \<noteq> 0" "fdCoefs L = spec_fd_coefs (nat (arg_partials_order a))"
    "length (fdCoefs L) = nat (arg_partials_order a)"
  shows "partials_loop E a L prm bb vs (cube, ds) =
     Inr (cube @ map (\<lambda>v. spec_central_difference (nat (arg_partials_order a)) (snd v)
                          (render_at E L prm bb (fst v)) (prm (fst v))) vs,
          ds @ concat (map (\<lambda>v. spec_fd_requests (nat (arg_partials_order a)) (snd v)
                          (request_at L prm bb (fst v)) (prm (fst v))) vs))"
  using assms(1)
proof (induction vs arbitrary: cube ds)
  case Nil
  then show ?case by simp
next
  case (Cons v vs)
  obtain pn delta where v: "v = (pn, delta)" by (cases v)
  have d: "delta \<noteq> 0" and rest: "\<forall>v\<in>set vs. snd v \<noteq> 0"
    using Cons.prems v by simp_all
  show ?case
    by (simp add: v fd_partial_spec [OF d assms(2) assms(3)] Cons.IH [OF rest])
qed

lemma length_spec_fd_requests: "length (spec_fd_requests k delta req p) = 2 * k"
  by (simp add: spec_fd_requests_def length_concat comp_def sum_list_triv del: upt_Suc)

lemma render_entry_partials:
  assumes "arg_partials a" "init_fdCoefs a = Inr (fdCoefs L)" "arg_pixel_scale a \<noteq> 0" "hlr_d \<noteq> 0"
  shows "render_entry E a L flux hlr_d q_d pa_d sa st =
     (let prm = nominal_params a flux (xshift a sa) (yshift a sa) hlr_d q_d pa_d;
          k = nat (arg_partials_order a);
          nominal = draw E (nominal_request L prm (bbox sa))
      in Inr (st\<lparr> field := add_overlap (field st) (bounds_and (bbox sa) (field_bounds a)) nominal,
                 hduList := hduList st @
                   [[draw E (nopsf_request L prm (bbox sa)), nominal]
                    @ map (\<lambda>v. spec_central_difference k (snd v)
                                  (render_at E L prm (bbox sa) (fst v)) (prm (fst v)))
                          (variations a hlr_d)],
                 nkeep := nkeep st + 1,
                 drawn := drawn st @ [nopsf_request L prm (bbox sa), nominal_request L prm (bbox sa)]
                   @ concat (map (\<lambda>v. spec_fd_requests k (snd v)
                          (request_at L prm (bbox sa) (fst v)) (prm (fst v))) (variations a hlr_d)),
                 logged := logged st @ [(nkeep st + 1, lineno st, 2 * xhalf sa + 1, 2 * yhalf sa + 1)] \<rparr>))"
proof -
  from init_fdCoefs_spec [OF assms(1,2)]
  have c: "fdCoefs L = spec_fd_coefs (nat (arg_partials_order a))"
    "length (fdCoefs L) = nat (arg_partials_order a)" by blast+
  have v: "\<forall>v\<in>set (variations a hlr_d). snd v \<noteq> 0"
    using assms(3,4) by (simp add: variations_def)
  show ?thesis
    unfolding render_entry_def Let_def
    by (simp add: assms(1) createStamp_def Let_def partials_loop_eval [OF v c]
        nopsf_request_def nominal_request_def)
qed

lemma spec_fd_coefs_table:
  "spec_fd_coefs 1 = [1 / 2]" "spec_fd_coefs 2 = [2 / 3, - 1 / 12]"
  "spec_fd_coefs 3 = [3 / 4, - 3 / 20, 1 / 60]"
  "spec_fd_coefs 4 = [4 / 5, - 1 / 5, 4 / 105, - 1 / 280]"
  "spec_fd_coefs (Suc 0) = [1 / 2]"
  by (simp_all add: spec_fd_coefs_def)

lemma steps_two: "[1..<Suc 2] = [1, 2]"
  by (simp add: upt_conv_Cons)

lemma spec_central_difference_two:
  "spec_central_difference 2 delta render p =
     (\<lambda>px. (2 / 3) * (render (p + delta) px - render (p - delta) px) / delta
           - (1 / 12) * (render (p + 2 * delta) px - render (p - 2 * delta) px) / delta)"
  unfolding spec_central_difference_def steps_two
  by (simp add: spec_fd_coefs_def fun_eq_iff)

text \<open>
  C3. With \<^verbatim>\<open>--partials\<close> and an order \<open>k\<close> that the initialisation accepts, \<open>k\<close> is one
  of 1, 2, 3, 4, the coefficients are those of the table (\<open>[1/2]\<close>, \<open>[2/3, -1/12]\<close>,
  \<open>[3/4, -3/20, 1/60]\<close>, \<open>[4/5, -1/5, 4/105, -1/280]\<close>), and a kept entry is rendered
  without an exception into a datacube that holds, after the render without the psf and the
  nominal render, one derivative image for each of \<open>xc\<close>, \<open>yc\<close>, \<open>hlr\<close>, \<open>g1\<close>, \<open>g2\<close>
  in this order, with the steps \<open>pixel_scale / 3\<close>, \<open>pixel_scale / 3\<close>, \<open>0.05 hlr\<close>, 0.03
  and 0.03. The derivative for a parameter \<open>p\<close> with step \<open>delta\<close> is the sum over
  \<open>s = 1..k\<close> of \<open>(c\<^sub>s / delta) (render (p + s delta) - render (p - s delta))\<close>, where each
  render is made with the psf and with all the other parameters at their nominal values.
\<close>

theorem finite_difference_partials:
  assumes "arg_partials a" "init_fdCoefs a = Inr (fdCoefs L)" "arg_pixel_scale a \<noteq> 0" "hlr_d \<noteq> 0"
  shows "\<exists>st'. render_entry E a L flux hlr_d q_d pa_d sa st = Inr st'
     \<and> arg_partials_order a \<in> {1, 2, 3, 4}
     \<and> fdCoefs L = spec_fd_coefs (nat (arg_partials_order a))
     \<and> spec_fd_coefs 1 = [1 / 2] \<and> spec_fd_coefs 2 = [2 / 3, - 1 / 12]
     \<and> spec_fd_coefs 3 = [3 / 4, - 3 / 20, 1 / 60]
     \<and> spec_fd_coefs 4 = [4 / 5, - 1 / 5, 4 / 105, - 1 / 280]
     \<and> hduList st' = hduList st @
         [let prm = nominal_params a flux (xshift a sa) (yshift a sa) hlr_d q_d pa_d;
              D = (\<lambda>pn delta. spec_central_difference (nat (arg_partials_order a)) delta
                     (render_at E L prm (bbox sa) pn) (prm pn))
          in [draw E (nopsf_request L prm (bbox sa)), draw E (nominal_request L prm (bbox sa)),
              D Xc (arg_pixel_scale a / 3), D Yc (arg_pixel_scale a / 3), D Hlr (0.05 * hlr_d),
              D G1 0.03, D G2 0.03]]"
proof -
  from init_fdCoefs_spec [OF assms(1,2)]
  have k: "1 \<le> arg_partials_order a" "arg_partials_order a \<le> 4"
    and c: "fdCoefs L = spec_fd_coefs (nat (arg_partials_order a))"
    by blast+
  from k have m: "arg_partials_order a \<in> {1, 2, 3, 4}" by auto
  show ?thesis
    unfolding render_entry_partials [OF assms] Let_def
    using m c by (simp add: spec_fd_coefs_table variations_def)
qed

theorem finite_difference_partials_witness:
  "arg_partials (sample_args 5 True 2)
   \<and> init_fdCoefs (sample_args 5 True 2)
       = Inr (fdCoefs (locals_of (sample_args 5 True 2) [2 / 3, - 1 / 12]))
   \<and> arg_pixel_scale (sample_args 5 True 2) \<noteq> 0 \<and> (0.167835 :: real) \<noteq> 0
   \<and> (\<exists>st'. render_entry sample_engines (sample_args 5 True 2)
             (locals_of (sample_args 5 True 2) [2 / 3, - 1 / 12]) 2300 0.167835 1 0
             sample_stamp init_state = Inr st'
         \<and> length (hduList st') = 1 \<and> length (hd (hduList st')) = 7
         \<and> (hd (hduList st') ! 4) (8, 504) = 1)"
proof -
  have a: "arg_partials (sample_args 5 True 2)"
    and i: "init_fdCoefs (sample_args 5 True 2)
       = Inr (fdCoefs (locals_of (sample_args 5 True 2) [2 / 3, - 1 / 12]))"
    and p: "arg_pixel_scale (sample_args 5 True 2) \<noteq> 0" and h: "(0.167835 :: real) \<noteq> 0"
    by (simp_all add: sample_args_def init_fdCoefs_def locals_of_def)
  from finite_difference_partials [OF a i p h, of sample_engines 2300 1 0 sample_stamp init_state]
  obtain st' where r: "render_entry sample_engines (sample_args 5 True 2)
             (locals_of (sample_args 5 True 2) [2 / 3, - 1 / 12]) 2300 0.167835 1 0
             sample_stamp init_state = Inr st'"
    and c: "hduList st' = hduList init_state @
         [let prm = nominal_params (sample_args 5 True 2) 2300 (xshift (sample_args 5 True 2) sample_stamp)
                      (yshift (sample_args 5 True 2) sample_stamp) 0.167835 1 0;
              D = (\<lambda>pn delta. spec_central_difference (nat (arg_partials_order (sample_args 5 True 2))) delta
                     (render_at sample_engines (locals_of (sample_args 5 True 2) [2 / 3, - 1 / 12]) prm (bbox sample_stamp) pn) (prm pn))
          in [draw sample_engines (nopsf_request (locals_of (sample_args 5 True 2) [2 / 3, - 1 / 12]) prm (bbox sample_stamp)),
              draw sample_engines (nominal_request (locals_of (sample_args 5 True 2) [2 / 3, - 1 / 12]) prm (bbox sample_stamp)),
              D Xc (arg_pixel_scale (sample_args 5 True 2) / 3), D Yc (arg_pixel_scale (sample_args 5 True 2) / 3), D Hlr (0.05 * 0.167835),
              D G1 0.03, D G2 0.03]]"
    by blast
  have z: "(hd (hduList st') ! 4) (8, 504) = 1"
    unfolding c
    by (simp add: Let_def init_state_def spec_central_difference_two render_at_def request_at_def
        sample_engines_def sample_args_def createSource_kw_def createSource_def nominal_params_def
        includes_px_def sample_stamp_def BoundsI_def)
  from a i p h r c z show ?thesis
    by (auto simp: Let_def init_state_def)
qed

text \<open>
  C6, as amended. With \<^verbatim>\<open>--partials\<close> and an accepted order \<open>k\<close>, the partial of one
  parameter makes exactly \<open>2 k\<close> requests to the rendering engine, the renders at
  \<open>p + s delta\<close> and \<open>p - s delta\<close> for \<open>s = 1..k\<close>; with the order 2 these are exactly 4
  requests, and the derivative is
  \<open>(2/3) (plus\<^sub>1 - minus\<^sub>1) / delta - (1/12) (plus\<^sub>2 - minus\<^sub>2) / delta\<close>.
\<close>

theorem finite_difference_render_count:
  assumes "arg_partials a" "init_fdCoefs a = Inr (fdCoefs L)" "delta \<noteq> 0"
  shows "\<exists>partial new.
       fd_partial E a L prm bb (pn, delta) ds = Inr (partial, ds @ new)
     \<and> new = spec_fd_requests (nat (arg_partials_order a)) delta (request_at L prm bb pn) (prm pn)
     \<and> length new = 2 * nat (arg_partials_order a)
     \<and> (arg_partials_order a = 2 \<longrightarrow>
          length new = 4
        \<and> partial = (\<lambda>px.
            (2 / 3) * (render_at E L prm bb pn (prm pn + delta) px
                       - render_at E L prm bb pn (prm pn - delta) px) / delta
            - (1 / 12) * (render_at E L prm bb pn (prm pn + 2 * delta) px
                         - render_at E L prm bb pn (prm pn - 2 * delta) px) / delta))"
proof -
  from init_fdCoefs_spec [OF assms(1,2)]
  have c: "fdCoefs L = spec_fd_coefs (nat (arg_partials_order a))"
    "length (fdCoefs L) = nat (arg_partials_order a)"
    by blast+
  show ?thesis
    unfolding fd_partial_spec [OF assms(3) c]
    by (auto simp: length_spec_fd_requests spec_central_difference_two)
qed

lemma sample_partials_init:
  "arg_partials (sample_args fn True 2)"
  "init_fdCoefs (sample_args fn True 2) = Inr (fdCoefs (locals_of (sample_args fn True 2) [2 / 3, - 1 / 12]))"
  "arg_partials_order (sample_args fn True 2) = 2"
  by (simp_all add: sample_args_def init_fdCoefs_def locals_of_def)

theorem finite_difference_render_count_witness:
  "arg_partials (sample_args 5 True 2)
   \<and> init_fdCoefs (sample_args 5 True 2)
       = Inr (fdCoefs (locals_of (sample_args 5 True 2) [2 / 3, - 1 / 12]))
   \<and> (0.05 * 0.167835 :: real) \<noteq> 0
   \<and> (\<exists>partial new.
         fd_partial sample_engines (sample_args 5 True 2)
           (locals_of (sample_args 5 True 2) [2 / 3, - 1 / 12])
           (nominal_params (sample_args 5 True 2) 2300 0.1 0.1 0.167835 1 0)
           (BoundsI 7 9 503 505) (Hlr, 0.05 * 0.167835) [] = Inr (partial, new)
       \<and> length new = 4 \<and> partial (8, 504) = 1)"
proof -
  let ?a = "sample_args 5 True 2"
  let ?L = "locals_of ?a [2 / 3, - 1 / 12]"
  let ?prm = "nominal_params ?a 2300 0.1 0.1 0.167835 1 0"
  let ?bb = "BoundsI 7 9 503 505"
  let ?d = "0.05 * 0.167835 :: real"
  have a: "arg_partials ?a" and i: "init_fdCoefs ?a = Inr (fdCoefs ?L)"
    and k: "arg_partials_order ?a = 2"
    by (rule sample_partials_init)+
  have d: "?d \<noteq> 0" by simp
  from finite_difference_render_count [OF a i d, of sample_engines ?prm ?bb Hlr "[]"] k
  obtain partial new where
    r: "fd_partial sample_engines ?a ?L ?prm ?bb (Hlr, ?d) [] = Inr (partial, new)"
    and n: "length new = 4"
    and p: "partial = (\<lambda>px.
            (2 / 3) * (render_at sample_engines ?L ?prm ?bb Hlr (?prm Hlr + ?d) px
                       - render_at sample_engines ?L ?prm ?bb Hlr (?prm Hlr - ?d) px) / ?d
            - (1 / 12) * (render_at sample_engines ?L ?prm ?bb Hlr (?prm Hlr + 2 * ?d) px
                         - render_at sample_engines ?L ?prm ?bb Hlr (?prm Hlr - 2 * ?d) px) / ?d)"
    by auto
  have v: "partial (8, 504) = 1"
    unfolding p
    by (simp add: render_at_def request_at_def sample_engines_def createSource_kw_def
        createSource_def nominal_params_def includes_px_def BoundsI_def)
  from a i d r n v show ?thesis by blast
qed

text \<open>
  C6 as stated fails: with the order 2 the partial with respect to \<open>hlr\<close> makes 4 requests
  to the rendering engine, not 2.
\<close>

theorem order_two_renders_four_times:
  "map_sum id (length \<circ> snd)
     (fd_partial sample_engines (sample_args 5 True 2)
        (locals_of (sample_args 5 True 2) [2 / 3, - 1 / 12])
        (nominal_params (sample_args 5 True 2) 2300 0.1 0.1 0.167835 1 0)
        (BoundsI 7 9 503 505) (Hlr, 0.05 * 0.167835) []) = Inr 4"
proof -
  have d: "(0.05 * 0.167835 :: real) \<noteq> 0" by simp
  from init_fdCoefs_spec [OF sample_partials_init(1,2), of 5]
  have c: "fdCoefs (locals_of (sample_args 5 True 2) [2 / 3, - 1 / 12])
             = spec_fd_coefs (nat (arg_partials_order (sample_args 5 True 2)))"
    "length (fdCoefs (locals_of (sample_args 5 True 2) [2 / 3, - 1 / 12]))
             = nat (arg_partials_order (sample_args 5 True 2))"
    by blast+
  show ?thesis
    unfolding fd_partial_spec [OF d c]
    by (simp add: length_spec_fd_requests sample_partials_init)
qed

section \<open>The initialisation\<close>

lemma main_init_eval:
  assumes "init_fdCoefs a = Inr cs" "arg_pixel_scale a \<noteq> 0" "0 < arg_psf_beta a"
    "arg_psf_beta a \<noteq> 1"
  shows "main_init a = Inr (locals_of a cs)"
proof -
  have g: "1 < (2::real) powr (1 / arg_psf_beta a)"
    using assms(3) by simp
  then have s: "0 \<le> (2::real) powr (1 / arg_psf_beta a) - 1"
    by linarith
  from g have "0 < (2::real) powr (1 / arg_psf_beta a) - 1"
    by linarith
  then have "0 < sqrt ((2::real) powr (1 / arg_psf_beta a) - 1)"
    by (simp only: real_sqrt_gt_0_iff)
  then have n: "sqrt ((2::real) powr (1 / arg_psf_beta a) - 1) \<noteq> 0"
    by linarith
  have b: "arg_psf_beta a \<noteq> 0" "arg_psf_beta a - 1 \<noteq> 0" "arg_pixel_scale a * arg_pixel_scale a \<noteq> 0"
    using assms by simp_all
  show ?thesis
    unfolding main_init_def locals_of_def Let_def
    by (simp only: assms(1) ebind_Inr py_div_ok [OF b(1)] py_div_ok [OF b(2)] py_div_ok [OF b(3)]
        py_div_ok [OF n] math_sqrt_ok [OF s] math_pow_pos [OF zero_less_numeral])
qed

lemma main_init_fields:
  assumes "main_init a = Inr L"
  shows "arg_pixel_scale a \<noteq> 0 \<and> 0 < arg_psf_beta a \<and> arg_psf_beta a \<noteq> 1
     \<and> init_fdCoefs a = Inr (fdCoefs L) \<and> L = locals_of a (fdCoefs L)"
proof -
  from assms obtain cs where c: "init_fdCoefs a = Inr cs"
    by (auto simp: main_init_def ebind_eq_Inr)
  from assms c have p: "arg_pixel_scale a \<noteq> 0"
    by (auto simp: main_init_def ebind_eq_Inr py_div_def split: if_splits)
  from assms c p have b0: "arg_psf_beta a \<noteq> 0"
    by (auto simp: main_init_def ebind_eq_Inr py_div_def split: if_splits)
  from assms c p b0 have s: "0 \<le> (2::real) powr (1 / arg_psf_beta a) - 1"
    by (auto simp: main_init_def ebind_eq_Inr math_sqrt_def split: if_splits)
  have b: "0 < arg_psf_beta a"
  proof (rule ccontr)
    assume "\<not> 0 < arg_psf_beta a"
    with b0 have "1 / arg_psf_beta a < 0" by simp
    then have "(2::real) powr (1 / arg_psf_beta a) < 2 powr 0"
      by (intro powr_less_mono) simp_all
    with s show False by simp
  qed
  have g: "1 < (2::real) powr (1 / arg_psf_beta a)"
    using b by simp
  then have "0 < (2::real) powr (1 / arg_psf_beta a) - 1"
    by linarith
  then have "0 < sqrt ((2::real) powr (1 / arg_psf_beta a) - 1)"
    by (simp only: real_sqrt_gt_0_iff)
  then have n: "sqrt ((2::real) powr (1 / arg_psf_beta a) - 1) \<noteq> 0"
    by linarith
  from assms c p b0 s n have b1: "arg_psf_beta a \<noteq> 1"
    by (auto simp: main_init_def ebind_eq_Inr py_div_def [of _ "arg_psf_beta a - 1"]
        split: if_splits)
  from main_init_eval [OF c p b b1] assms have "L = locals_of a cs" by simp
  moreover from this have "fdCoefs L = cs" by (simp add: locals_of_def Let_def)
  ultimately show ?thesis using p b b1 c by simp
qed

section \<open>The loop body, one branch at a time\<close>

lemma process_entry_outside:
  assumes "sky_position cols = Inr (RA, DEC)" "outside_margins L RA DEC"
  shows "process_entry E a L st cols = Inr (Rejected OutsideMargin, st\<lparr>lineno := lineno st + 1\<rparr>)"
  using assms by (simp add: process_entry_def Let_def)

lemma process_entry_flux:
  assumes "sky_position cols = Inr (RA, DEC)" "\<not> outside_margins L RA DEC"
    "total_flux a cols = Inr flux" "flux < 0.5 * fcut"
  shows "process_entry E a L st cols = Inr (Rejected FluxBelowCut, st\<lparr>lineno := lineno st + 1\<rparr>)"
  using assms by (simp add: process_entry_def Let_def)

lemma process_entry_hlr:
  assumes "sky_position cols = Inr (RA, DEC)" "\<not> outside_margins L RA DEC"
    "total_flux a cols = Inr flux" "\<not> flux < 0.5 * fcut"
    "float_col cols 7 = Inr hlr" "hlr \<le> 0"
  shows "process_entry E a L st cols = Inr (Rejected NonPositiveHlr, st\<lparr>lineno := lineno st + 1\<rparr>)"
  using assms by (simp add: process_entry_def Let_def)

lemma process_entry_threshold:
  assumes "sky_position cols = Inr (RA, DEC)" "\<not> outside_margins L RA DEC"
    "total_flux a cols = Inr flux" "\<not> flux < 0.5 * fcut"
    "float_col cols 7 = Inr hlr" "\<not> hlr \<le> 0"
    "disk_shape cols = Inr (q, pa)" "isophote_box (f0 L) flux hlr q pa = Inr None"
  shows "process_entry E a L st cols = Inr (Rejected BelowThreshold, st\<lparr>lineno := lineno st + 1\<rparr>)"
  using assms by (simp add: process_entry_def Let_def)

lemma process_entry_overlap:
  assumes "sky_position cols = Inr (RA, DEC)" "\<not> outside_margins L RA DEC"
    "total_flux a cols = Inr flux" "\<not> flux < 0.5 * fcut"
    "float_col cols 7 = Inr hlr" "\<not> hlr \<le> 0"
    "disk_shape cols = Inr (q, pa)" "isophote_box (f0 L) flux hlr q pa = Inr (Some (w, h))"
    "psf_padding a L flux = Inr rpad"
    "stamp_address a L RA DEC (w + rpad) (h + rpad) = Inr sa"
    "area (bounds_and (bbox sa) (field_bounds a)) = 0"
  shows "process_entry E a L st cols = Inr (Rejected NoOverlap, st\<lparr>lineno := lineno st + 1\<rparr>)"
  using assms by (simp add: process_entry_def Let_def)

lemma process_entry_keep:
  assumes "sky_position cols = Inr (RA, DEC)" "\<not> outside_margins L RA DEC"
    "total_flux a cols = Inr flux" "\<not> flux < 0.5 * fcut"
    "float_col cols 7 = Inr hlr" "\<not> hlr \<le> 0"
    "disk_shape cols = Inr (q, pa)" "isophote_box (f0 L) flux hlr q pa = Inr (Some (w, h))"
    "psf_padding a L flux = Inr rpad"
    "stamp_address a L RA DEC (w + rpad) (h + rpad) = Inr sa"
    "area (bounds_and (bbox sa) (field_bounds a)) \<noteq> 0"
  shows "process_entry E a L st cols =
     ebind (render_entry E a L (2 * real_of_int (arg_nvisits a) * flux) hlr q pa sa
              (st\<lparr>lineno := lineno st + 1\<rparr>)) (\<lambda>st'. Inr (Accepted, st'))"
  using assms by (simp add: process_entry_def Let_def)

lemma not_Some_pair: "(\<forall>a b. x \<noteq> Some (a, b)) \<longleftrightarrow> x = None"
  by (cases x) auto


lemma process_entry_cases:
  assumes "process_entry E a L st cols = Inr (v, st')"
  obtains
    (outside) RA DEC where "sky_position cols = Inr (RA, DEC)" "outside_margins L RA DEC"
      "v = Rejected OutsideMargin" "st' = st\<lparr>lineno := lineno st + 1\<rparr>"
  | (flux) RA DEC flux where "sky_position cols = Inr (RA, DEC)" "\<not> outside_margins L RA DEC"
      "total_flux a cols = Inr flux" "flux < 0.5 * fcut"
      "v = Rejected FluxBelowCut" "st' = st\<lparr>lineno := lineno st + 1\<rparr>"
  | (hlr) RA DEC flux hlr where "sky_position cols = Inr (RA, DEC)" "\<not> outside_margins L RA DEC"
      "total_flux a cols = Inr flux" "\<not> flux < 0.5 * fcut"
      "float_col cols 7 = Inr hlr" "hlr \<le> 0"
      "v = Rejected NonPositiveHlr" "st' = st\<lparr>lineno := lineno st + 1\<rparr>"
  | (threshold) RA DEC flux hlr q pa where "sky_position cols = Inr (RA, DEC)"
      "\<not> outside_margins L RA DEC"
      "total_flux a cols = Inr flux" "\<not> flux < 0.5 * fcut"
      "float_col cols 7 = Inr hlr" "\<not> hlr \<le> 0"
      "disk_shape cols = Inr (q, pa)" "isophote_box (f0 L) flux hlr q pa = Inr None"
      "v = Rejected BelowThreshold" "st' = st\<lparr>lineno := lineno st + 1\<rparr>"
  | (overlap) RA DEC flux hlr q pa w h rpad sa where "sky_position cols = Inr (RA, DEC)"
      "\<not> outside_margins L RA DEC"
      "total_flux a cols = Inr flux" "\<not> flux < 0.5 * fcut"
      "float_col cols 7 = Inr hlr" "\<not> hlr \<le> 0"
      "disk_shape cols = Inr (q, pa)" "isophote_box (f0 L) flux hlr q pa = Inr (Some (w, h))"
      "psf_padding a L flux = Inr rpad"
      "stamp_address a L RA DEC (w + rpad) (h + rpad) = Inr sa"
      "area (bounds_and (bbox sa) (field_bounds a)) = 0"
      "v = Rejected NoOverlap" "st' = st\<lparr>lineno := lineno st + 1\<rparr>"
  | (keep) RA DEC flux hlr q pa w h rpad sa where "sky_position cols = Inr (RA, DEC)"
      "\<not> outside_margins L RA DEC"
      "total_flux a cols = Inr flux" "\<not> flux < 0.5 * fcut"
      "float_col cols 7 = Inr hlr" "\<not> hlr \<le> 0"
      "disk_shape cols = Inr (q, pa)" "isophote_box (f0 L) flux hlr q pa = Inr (Some (w, h))"
      "psf_padding a L flux = Inr rpad"
      "stamp_address a L RA DEC (w + rpad) (h + rpad) = Inr sa"
      "area (bounds_and (bbox sa) (field_bounds a)) \<noteq> 0"
      "render_entry E a L (2 * real_of_int (arg_nvisits a) * flux) hlr q pa sa
              (st\<lparr>lineno := lineno st + 1\<rparr>) = Inr st'"
      "v = Accepted"
  using assms
  unfolding process_entry_def Let_def
  by (auto simp: ebind_eq_Inr not_Some_pair split: if_splits option.splits)


lemma fd_steps_extends:
  assumes "fd_steps E L prm bb pn delta steps (np, partial, ds) = Inr (np', partial', ds')"
  shows "\<exists>more. ds' = ds @ more"
  using assms
proof (induction steps arbitrary: np partial ds)
  case Nil
  then show ?case by simp
next
  case (Cons s steps)
  from Cons.prems obtain np2 partial2 r1 r2 where
    "fd_steps E L prm bb pn delta steps (np2, partial2, (ds @ [r1]) @ [r2]) = Inr (np', partial', ds')"
    by (auto simp: Let_def createStamp_def ebind_eq_Inr)
  from Cons.IH [OF this] show ?case by auto
qed

lemma fd_partial_extends:
  assumes "fd_partial E a L prm bb v ds = Inr (partial, ds')"
  shows "\<exists>more. ds' = ds @ more"
proof -
  from assms obtain np' where
    "fd_steps E L prm bb (fst v) (snd v) [0..<nat (arg_partials_order a)] (prm, ImageD, ds)
       = Inr (np', partial, ds')"
    by (auto simp: fd_partial_def ebind_eq_Inr)
  then show ?thesis by (rule fd_steps_extends)
qed

lemma partials_loop_extends:
  assumes "partials_loop E a L prm bb vs (cube, ds) = Inr (cube', ds')"
  shows "(\<exists>more. cube' = cube @ more) \<and> (\<exists>more. ds' = ds @ more)"
  using assms
proof (induction vs arbitrary: cube ds)
  case Nil
  then show ?case by simp
next
  case (Cons v vs)
  from Cons.prems obtain partial d1 where
    p: "fd_partial E a L prm bb v ds = Inr (partial, d1)"
    and r: "partials_loop E a L prm bb vs (cube @ [partial], d1) = Inr (cube', ds')"
    by (auto simp: ebind_eq_Inr)
  from fd_partial_extends [OF p] obtain m1 where "d1 = ds @ m1" by blast
  with Cons.IH [OF r] show ?case by auto
qed

lemma render_entry_unfold:
  "render_entry E a L flux hlr_d q_d pa_d sa st =
     (let prm = nominal_params a flux (xshift a sa) (yshift a sa) hlr_d q_d pa_d;
          nominal = draw E (nominal_request L prm (bbox sa));
          cube = [draw E (nopsf_request L prm (bbox sa)), nominal];
          ds = drawn st @ [nopsf_request L prm (bbox sa), nominal_request L prm (bbox sa)]
      in ebind (if arg_partials a
                then partials_loop E a L prm (bbox sa) (variations a hlr_d) (cube, ds)
                else Inr (cube, ds)) (\<lambda>r.
         Inr (st\<lparr> field := add_overlap (field st) (bounds_and (bbox sa) (field_bounds a)) nominal,
                   hduList := hduList st @ [fst r], nkeep := nkeep st + 1,
                   drawn := snd r,
                   logged := logged st @ [(nkeep st + 1, lineno st, 2 * xhalf sa + 1, 2 * yhalf sa + 1)] \<rparr>)))"
  unfolding render_entry_def Let_def
  by (simp add: createStamp_def Let_def nopsf_request_def nominal_request_def)

lemma render_entry_effects:
  assumes "render_entry E a L flux hlr_d q_d pa_d sa st = Inr st'"
  shows "nkeep st' = nkeep st + 1 \<and> lineno st' = lineno st
     \<and> field st' = add_overlap (field st) (bounds_and (bbox sa) (field_bounds a))
          (draw E (nominal_request L (nominal_params a flux (xshift a sa) (yshift a sa) hlr_d q_d pa_d) (bbox sa)))
     \<and> (\<exists>cube. hduList st' = hduList st @ [cube]
           \<and> take 2 cube = [draw E (nopsf_request L (nominal_params a flux (xshift a sa) (yshift a sa) hlr_d q_d pa_d) (bbox sa)),
                            draw E (nominal_request L (nominal_params a flux (xshift a sa) (yshift a sa) hlr_d q_d pa_d) (bbox sa))])
     \<and> (\<exists>more. drawn st' = drawn st @ [nopsf_request L (nominal_params a flux (xshift a sa) (yshift a sa) hlr_d q_d pa_d) (bbox sa),
                            nominal_request L (nominal_params a flux (xshift a sa) (yshift a sa) hlr_d q_d pa_d) (bbox sa)] @ more)
     \<and> logged st' = logged st @ [(nkeep st + 1, lineno st, 2 * xhalf sa + 1, 2 * yhalf sa + 1)]"
proof -
  let ?prm = "nominal_params a flux (xshift a sa) (yshift a sa) hlr_d q_d pa_d"
  let ?cube = "[draw E (nopsf_request L ?prm (bbox sa)), draw E (nominal_request L ?prm (bbox sa))]"
  let ?ds = "drawn st @ [nopsf_request L ?prm (bbox sa), nominal_request L ?prm (bbox sa)]"
  from assms [unfolded render_entry_unfold Let_def ebind_eq_Inr] obtain r where
    r0: "(if arg_partials a then partials_loop E a L ?prm (bbox sa) (variations a hlr_d) (?cube, ?ds)
         else Inr (?cube, ?ds)) = Inr r"
    and s0: "Inr (st\<lparr> field := add_overlap (field st) (bounds_and (bbox sa) (field_bounds a))
                            (draw E (nominal_request L ?prm (bbox sa))),
                 hduList := hduList st @ [fst r], nkeep := nkeep st + 1,
                 drawn := snd r,
                 logged := logged st @ [(nkeep st + 1, lineno st, 2 * xhalf sa + 1, 2 * yhalf sa + 1)] \<rparr>)
          = (Inr st' :: error + state)"
    by blast
  obtain cube' ds' where rr: "r = (cube', ds')" by (cases r)
  from r0 rr have
    r: "(if arg_partials a then partials_loop E a L ?prm (bbox sa) (variations a hlr_d) (?cube, ?ds)
         else Inr (?cube, ?ds)) = Inr (cube', ds')" by simp
  from s0 rr have
    s: "st' = st\<lparr> field := add_overlap (field st) (bounds_and (bbox sa) (field_bounds a))
                            (draw E (nominal_request L ?prm (bbox sa))),
                 hduList := hduList st @ [cube'], nkeep := nkeep st + 1,
                 drawn := ds',
                 logged := logged st @ [(nkeep st + 1, lineno st, 2 * xhalf sa + 1, 2 * yhalf sa + 1)] \<rparr>"
    by simp
  have "(\<exists>more. cube' = ?cube @ more) \<and> (\<exists>more. ds' = ?ds @ more)"
  proof (cases "arg_partials a")
    case True
    with r show ?thesis by (auto dest: partials_loop_extends)
  next
    case False
    with r show ?thesis by auto
  qed
  then obtain mc md where "cube' = ?cube @ mc" "ds' = ?ds @ md" by blast
  then show ?thesis unfolding s by simp
qed

section \<open>The sample entries\<close>

lemma sample_locals_fields [simp]:
  "RAmin (locals_of (sample_args fn p k) cs) = 1792 / 5"
  "RAmax (locals_of (sample_args fn p k) cs) = 2304 / 5"
  "DECmin (locals_of (sample_args fn p k) cs) = - (2304 / 5)"
  "DECmax (locals_of (sample_args fn p k) cs) = - (1792 / 5)"
  "margin (locals_of (sample_args fn p k) cs) = 600"
  "f0 (locals_of (sample_args fn p k) cs) = 50"
  "fdCoefs (locals_of (sample_args fn p k) cs) = cs"
  by (simp_all add: locals_of_def sample_args_def Let_def fcut_def arcmin2arcsec_def)

lemma sample_args_fields [simp]:
  "arg_pixel_scale (sample_args fn p k) = 1 / 5"
  "arg_psf_beta (sample_args fn p k) = 3"
  "arg_flux_norm (sample_args fn p k) = fn"
  "arg_nvisits (sample_args fn p k) = 230"
  "arg_partials (sample_args fn p k) = p"
  "arg_partials_order (sample_args fn p k) = k"
  "arg_width (sample_args fn p k) = 512"
  "arg_height (sample_args fn p k) = 512"
  by (simp_all add: sample_args_def)

lemma sample_cpsf: "6 \<le> cpsf (locals_of (sample_args fn p k) cs)"
proof -
  let ?s = "sqrt ((2::real) powr (1 / 3) - 1)"
  have g: "1 < (2::real) powr (1 / 3)" by simp
  have "(2::real) powr (1 / 3) \<le> 2 powr 1" by (rule powr_mono) simp_all
  then have l: "(2::real) powr (1 / 3) - 1 \<le> 1" by simp
  from g have p: "0 < (2::real) powr (1 / 3) - 1" by linarith
  then have s0: "0 < ?s" by (simp only: real_sqrt_gt_0_iff)
  from l have "?s \<le> sqrt 1" by (simp only: real_sqrt_le_iff)
  then have s1: "?s \<le> 1" by simp
  have "7 / 20 \<le> (7 / 20) / ?s"
    using s0 s1 by (simp add: field_simps)
  then have r: "7 / 20 \<le> r0psf (locals_of (sample_args fn p k) cs)"
    by (simp add: locals_of_def sample_args_def Let_def)
  have c: "cpsf (locals_of (sample_args fn p k) cs)
      = 25 * pi * (r0psf (locals_of (sample_args fn p k) cs) * r0psf (locals_of (sample_args fn p k) cs))"
    by (simp add: locals_of_def sample_args_def Let_def fcut_def)
  from r have r0n: "0 \<le> r0psf (locals_of (sample_args fn p k) cs)" by linarith
  have rr: "(7 / 20) * (7 / 20) \<le> r0psf (locals_of (sample_args fn p k) cs) * r0psf (locals_of (sample_args fn p k) cs)"
    by (rule mult_mono [OF r r r0n]) simp
  have pp: "(25::real) * 2 \<le> 25 * pi" using pi_ge_two by simp
  have "25 * 2 * ((7 / 20) * (7 / 20)) \<le> 25 * pi * (r0psf (locals_of (sample_args fn p k) cs) * r0psf (locals_of (sample_args fn p k) cs))"
    by (rule mult_mono [OF pp rr]) simp_all
  then show ?thesis unfolding c by simp
qed

lemma psf_padding_zero:
  assumes "0 < flux" "flux \<le> cpsf L" "0 < arg_psf_beta a"
  shows "psf_padding a L flux = Inr 0"
proof -
  have r: "1 \<le> cpsf L / flux" using assms by simp
  then have r0: "0 < cpsf L / flux" by linarith
  have "(cpsf L / flux) powr (- (1 / arg_psf_beta a)) \<le> (cpsf L / flux) powr 0"
    using r assms(3) by (intro powr_mono) simp_all
  then have le: "(cpsf L / flux) powr (- (1 / arg_psf_beta a)) \<le> 1"
    using r0 by (auto split: if_splits)
  have f: "flux \<noteq> 0" "arg_psf_beta a \<noteq> 0" using assms by simp_all
  show ?thesis
    unfolding psf_padding_def Let_def
    using le by (simp add: f math_pow_pos [OF r0])
qed

lemma sample_row_cols [simp]:
  "sky_position (sample_row ra dec hlr i_ab) = Inr (ra * 3600, dec * 3600)"
  "total_flux a (sample_row ra dec hlr i_ab) = Inr (arg_flux_norm a * 10 powr (24 - i_ab))"
  "float_col (sample_row ra dec hlr i_ab) 7 = Inr hlr"
  "disk_shape (sample_row ra dec hlr i_ab) = Inr (1, 0)"
  by (simp_all add: sky_position_def total_flux_def disk_shape_def float_col_def sample_row_def
      deg2arcsec_def deg2rad_def)

lemma circular_geometry:
  "spec_detM 1 pa = 1"
  "spec_half_width f0v flux hlr 1 pa = spec_rcut f0v flux hlr 1 pa"
  "spec_half_height f0v flux hlr 1 pa = spec_rcut f0v flux hlr 1 pa"
  by (simp_all add: spec_detM_def spec_half_width_def spec_half_height_def spec_gp_def
      spec_gx_def spec_g_def)

lemma ln_bounds:
  fixes x :: real
  assumes "1 / 3 \<le> x" "x < 1"
  shows "ln x < 0" "- 2 \<le> ln x"
proof -
  have x0: "0 < x" using assms by linarith
  show "ln x < 0" using x0 assms(2) by (rule ln_less_zero)
  have "(3::real) \<le> exp 2" using exp_ge_add_one_self [of "2::real"] by simp
  then have "inverse (exp (2::real)) \<le> inverse 3" by (intro le_imp_inverse_le) simp_all
  then have "exp (- 2 :: real) \<le> 1 / 3" by (simp add: exp_minus)
  also have "\<dots> \<le> x" by (rule assms(1))
  finally show "- 2 \<le> ln x" using x0 by (simp add: ln_ge_iff)
qed

lemma stamp_address_eval:
  assumes "arg_pixel_scale a \<noteq> 0"
  shows "stamp_address a L RA DEC hw hh =
     Inr \<lparr> xoffset = (RA - RAmin L) / arg_pixel_scale a,
           yoffset = (DEC - DECmin L) / arg_pixel_scale a,
           xpixels = \<lceil>(RA - RAmin L) / arg_pixel_scale a\<rceil>,
           ypixels = \<lceil>(DEC - DECmin L) / arg_pixel_scale a\<rceil>,
           xhalf = \<lceil>hw / arg_pixel_scale a\<rceil>, yhalf = \<lceil>hh / arg_pixel_scale a\<rceil>,
           bbox = BoundsI (\<lceil>(RA - RAmin L) / arg_pixel_scale a\<rceil> - \<lceil>hw / arg_pixel_scale a\<rceil>)
                    (\<lceil>(RA - RAmin L) / arg_pixel_scale a\<rceil> + \<lceil>hw / arg_pixel_scale a\<rceil>)
                    (\<lceil>(DEC - DECmin L) / arg_pixel_scale a\<rceil> - \<lceil>hh / arg_pixel_scale a\<rceil>)
                    (\<lceil>(DEC - DECmin L) / arg_pixel_scale a\<rceil> + \<lceil>hh / arg_pixel_scale a\<rceil>) \<rparr>"
  using assms by (simp add: stamp_address_def Let_def)

lemma render_entry_plain:
  assumes "\<not> arg_partials a"
  shows "render_entry E a L flux hlr_d q_d pa_d sa st =
     (let prm = nominal_params a flux (xshift a sa) (yshift a sa) hlr_d q_d pa_d;
          nominal = draw E (nominal_request L prm (bbox sa))
      in Inr (st\<lparr> field := add_overlap (field st) (bounds_and (bbox sa) (field_bounds a)) nominal,
                 hduList := hduList st @ [[draw E (nopsf_request L prm (bbox sa)), nominal]],
                 nkeep := nkeep st + 1,
                 drawn := drawn st @ [nopsf_request L prm (bbox sa), nominal_request L prm (bbox sa)],
                 logged := logged st @ [(nkeep st + 1, lineno st, 2 * xhalf sa + 1, 2 * yhalf sa + 1)] \<rparr>))"
  unfolding render_entry_def Let_def
  by (simp add: assms createStamp_def Let_def nopsf_request_def nominal_request_def)

lemma small_disk_rcut:
  fixes flux r :: real
  assumes "0 < r" "r \<le> 1 / 10" "0 < flux" "1 / 3 \<le> 100 * pi * r * r / flux" "100 * pi * r * r / flux < 1"
  shows "0 < spec_rcut 50 flux (r * 1.67835) 1 pa" "spec_rcut 50 flux (r * 1.67835) 1 pa \<le> 1 / 5"
proof -
  have e: "spec_rcut 50 flux (r * 1.67835) 1 pa = - r * ln (100 * pi * r * r / flux)"
    by (simp add: spec_rcut_def spec_scale_def circular_geometry power2_eq_square mult_ac)
  from ln_bounds [OF assms(4,5)]
  have l: "ln (100 * pi * r * r / flux) < 0" "- 2 \<le> ln (100 * pi * r * r / flux)" .
  show "0 < spec_rcut 50 flux (r * 1.67835) 1 pa"
    unfolding e using assms(1) l(1) by (simp add: mult_pos_neg)
  have "r * (- ln (100 * pi * r * r / flux)) \<le> (1 / 10) * 2"
    using assms(1,2) l by (intro mult_mono) simp_all
  then show "spec_rcut 50 flux (r * 1.67835) 1 pa \<le> 1 / 5"
    unfolding e by simp
qed

lemma ceiling_small:
  fixes r :: real
  assumes "0 < r" "r \<le> 1 / 5"
  shows "\<lceil>r / (1 / 5)\<rceil> = 1"
  using assms by (intro ceiling_unique) simp_all

lemma sample_isophote:
  fixes flux r :: real
  assumes "0 < r" "r \<le> 1 / 10" "0 < flux" "1 / 3 \<le> 100 * pi * r * r / flux" "100 * pi * r * r / flux < 1"
  shows "isophote_box 50 flux (r * 1.67835) 1 pa =
     Inr (Some (spec_rcut 50 flux (r * 1.67835) 1 pa, spec_rcut 50 flux (r * 1.67835) 1 pa))"
proof -
  have h: "0 < r * 1.67835" using assms(1) by simp
  from small_disk_rcut(1) [OF assms, of pa]
  have n: "\<not> spec_rcut 50 flux (r * 1.67835) 1 pa \<le> 0" by linarith
  have "isophote_box 50 flux (r * 1.67835) 1 pa =
     Inr (if spec_rcut 50 flux (r * 1.67835) 1 pa \<le> 0 then None
          else Some (spec_half_width 50 flux (r * 1.67835) 1 pa,
                     spec_half_height 50 flux (r * 1.67835) 1 pa))"
    by (rule isophote_box_spec [OF assms(3) _ h]) simp_all
  then show ?thesis
    by (simp only: n if_False circular_geometry)
qed

lemma sample_stamp_address:
  fixes rc :: real
  assumes "0 < rc" "rc \<le> 1 / 5"
  shows "stamp_address (sample_args fn p k) (locals_of (sample_args fn p k) cs) 360 (- 360) (rc + 0) (rc + 0)
           = Inr sample_stamp"
proof -
  have n: "arg_pixel_scale (sample_args fn p k) \<noteq> 0" by simp
  have c: "\<lceil>rc / (1 / 5)\<rceil> = 1" by (rule ceiling_small [OF assms])
  have x: "\<lceil>((360::real) - 1792 / 5) / (1 / 5)\<rceil> = 8" "\<lceil>((- 360::real) - - (2304 / 5)) / (1 / 5)\<rceil> = 504"
    by simp_all
  show ?thesis
    unfolding stamp_address_eval [OF n]
    by (simp only: sample_locals_fields sample_args_fields add_0_right c x sample_stamp_def)
      simp
qed

lemma sample_stamp_overlap:
  "area (bounds_and (bbox sample_stamp) (field_bounds (sample_args fn p k))) = 9"
  by (simp add: sample_stamp_def field_bounds_def BoundsI_def bounds_and_def area_def Let_def)

lemma sample_inside: "\<not> outside_margins (locals_of (sample_args fn p k) cs) (0.1 * 3600) (- 0.1 * 3600)"
  by (simp add: outside_margins_def)

lemma sample_accept:
  fixes fn r :: real
  assumes "0 < r" "r \<le> 1 / 10" "1 \<le> fn" "fn \<le> 6"
    "1 / 3 \<le> 100 * pi * r * r / fn" "100 * pi * r * r / fn < 1"
  shows "process_entry E (sample_args fn p k) (locals_of (sample_args fn p k) cs) st
           (sample_row 0.1 (- 0.1) (r * 1.67835) 24) =
         ebind (render_entry E (sample_args fn p k) (locals_of (sample_args fn p k) cs)
                  (2 * 230 * fn) (r * 1.67835) 1 0 sample_stamp (st\<lparr>lineno := lineno st + 1\<rparr>))
           (\<lambda>st'. Inr (Accepted, st'))"
proof -
  let ?a = "sample_args fn p k"
  let ?L = "locals_of ?a cs"
  let ?row = "sample_row 0.1 (- 0.1) (r * 1.67835) 24"
  let ?rc = "spec_rcut 50 fn (r * 1.67835) 1 0"
  have f0: "0 < fn" using assms(3) by linarith
  have pos: "sky_position ?row = Inr (0.1 * 3600, - 0.1 * 3600)" by simp
  have fl: "total_flux ?a ?row = Inr fn" by simp
  have nf: "\<not> fn < 0.5 * fcut" using assms(3) by (simp add: fcut_def)
  have hl: "float_col ?row 7 = Inr (r * 1.67835)" by simp
  have nh: "\<not> r * 1.67835 \<le> 0" using assms(1) by simp
  have sh: "disk_shape ?row = Inr (1, 0)" by simp
  have iso: "isophote_box (f0 ?L) fn (r * 1.67835) 1 0 = Inr (Some (?rc, ?rc))"
    using sample_isophote [OF assms(1,2) f0 assms(5,6), of 0] by simp
  have pad: "psf_padding ?a ?L fn = Inr 0"
    using sample_cpsf [of fn p k cs] assms(4) f0 by (intro psf_padding_zero) simp_all
  have rc: "0 < ?rc" "?rc \<le> 1 / 5"
    by (rule small_disk_rcut [OF assms(1,2) f0 assms(5,6)])+
  have sa: "stamp_address ?a ?L (0.1 * 3600) (- 0.1 * 3600) (?rc + 0) (?rc + 0) = Inr sample_stamp"
    using sample_stamp_address [OF rc, of fn p k cs] by simp
  have ov: "area (bounds_and (bbox sample_stamp) (field_bounds ?a)) \<noteq> 0"
    by (simp add: sample_stamp_overlap)
  from process_entry_keep [OF pos sample_inside fl nf hl nh sh iso pad sa ov, of E st]
  show ?thesis by simp
qed

lemma sample_outside: "outside_margins (locals_of (sample_args fn p k) cs) (1 * 3600) (- 0.1 * 3600)"
  by (simp add: outside_margins_def)

lemma sample_inside_far: "\<not> outside_margins (locals_of (sample_args fn p k) cs) (0 * 3600) (- 0.1 * 3600)"
  by (simp add: outside_margins_def)

lemma sample_faint_flux: "(5::real) * 10 powr (24 - 25) < 0.5 * fcut"
proof -
  have "(10::real) powr (24 - 25) = 10 powr (- 1)" by simp
  also have "\<dots> = 1 / 10" by (simp add: powr_minus_divide)
  finally show ?thesis by (simp add: fcut_def)
qed

lemma sample_bright_flux: "\<not> (5::real) * 10 powr (24 - 24) < 0.5 * fcut"
  by (simp add: fcut_def)

lemma sample_large_disk: "isophote_box 50 5 1.67835 1 0 = Inr None"
proof -
  have "isophote_box 50 5 1.67835 1 0 =
     Inr (if spec_rcut 50 5 1.67835 1 0 \<le> 0 then None
          else Some (spec_half_width 50 5 1.67835 1 0, spec_half_height 50 5 1.67835 1 0))"
    by (rule isophote_box_spec) simp_all
  moreover have "spec_rcut 50 5 1.67835 1 0 = - ln (20 * pi)"
    by (simp add: spec_rcut_def spec_scale_def circular_geometry)
  moreover have "0 \<le> ln (20 * pi)"
    using pi_ge_two by (intro ln_ge_zero) simp
  ultimately show ?thesis by simp
qed

lemma sample_small_disk:
  "isophote_box 50 5 0.167835 1 0 = Inr (Some (spec_rcut 50 5 0.167835 1 0, spec_rcut 50 5 0.167835 1 0))"
  "0 < spec_rcut 50 5 0.167835 1 0" "spec_rcut 50 5 0.167835 1 0 \<le> 1 / 5"
proof -
  have a: "(0::real) < 1 / 10" "(1 / 10 :: real) \<le> 1 / 10" "(0::real) < 5"
    "1 / 3 \<le> 100 * pi * (1 / 10) * (1 / 10) / 5" "100 * pi * (1 / 10) * (1 / 10) / 5 < 1"
    using pi_ge_two pi_less_4 by simp_all
  have h: "(1 / 10) * 1.67835 = (0.167835 :: real)" by simp
  from sample_isophote [OF a, of 0] small_disk_rcut [OF a, of 0]
  show "isophote_box 50 5 0.167835 1 0 = Inr (Some (spec_rcut 50 5 0.167835 1 0, spec_rcut 50 5 0.167835 1 0))"
    "0 < spec_rcut 50 5 0.167835 1 0" "spec_rcut 50 5 0.167835 1 0 \<le> 1 / 5"
    unfolding h by blast+
qed

lemma sample_far_stamp:
  fixes rc :: real
  assumes "0 < rc" "rc \<le> 1 / 5"
  shows "stamp_address (sample_args fn p k) (locals_of (sample_args fn p k) cs) 0 (- 360) (rc + 0) (rc + 0)
           = Inr \<lparr> xoffset = - 1792, yoffset = 504, xpixels = - 1792, ypixels = 504,
                   xhalf = 1, yhalf = 1, bbox = BoundsI (- 1793) (- 1791) 503 505 \<rparr>"
proof -
  have n: "arg_pixel_scale (sample_args fn p k) \<noteq> 0" by simp
  have c: "\<lceil>rc / (1 / 5)\<rceil> = 1" by (rule ceiling_small [OF assms])
  have x: "\<lceil>((0::real) - 1792 / 5) / (1 / 5)\<rceil> = - 1792" "\<lceil>((- 360::real) - - (2304 / 5)) / (1 / 5)\<rceil> = 504"
    by simp_all
  show ?thesis
    unfolding stamp_address_eval [OF n]
    by (simp only: sample_locals_fields sample_args_fields add_0_right c x) simp
qed

lemma far_stamp_no_overlap:
  "area (bounds_and (BoundsI (- 1793) (- 1791) 503 505) (field_bounds (sample_args fn p k))) = 0"
  by (simp add: field_bounds_def BoundsI_def bounds_and_def area_def Let_def undefined_bounds_def)

section \<open>The eligibility filter\<close>

text \<open>
  C1. For a catalog entry whose position is read, the loop body tests, in this order and
  stopping at the first test that fires: (a) the position is outside the field enlarged by
  the margin; (b) the total flux is below \<open>0.5 fcut\<close>; (c) the half-light radius of the
  disk is \<open>\<le> 0\<close>; (d) the isophote cut has a radius \<open>\<le> 0\<close> (\<open>isophote_box\<close> returns
  \<open>None\<close>); (e) the stamp and the field share no pixel. A test that fires returns the
  rejection with the state unchanged but for the line counter, whatever the columns that
  the later steps would read; each conjunct assumes only what the earlier steps computed.
  An entry that is rejected leaves the field, the datacubes and the render requests as
  they were, and an entry that is accepted has passed all five tests, is rendered, adds
  one datacube and is added to the field on the overlap of its stamp.
\<close>

theorem eligibility_precedence:
  assumes "sky_position cols = Inr (RA, DEC)"
  shows
    "(outside_margins L RA DEC \<longrightarrow>
        process_entry E a L st cols = Inr (Rejected OutsideMargin, st\<lparr>lineno := lineno st + 1\<rparr>))
   \<and> (\<forall>flux. \<not> outside_margins L RA DEC \<and> total_flux a cols = Inr flux \<longrightarrow>
        (flux < 0.5 * fcut \<longrightarrow>
           process_entry E a L st cols = Inr (Rejected FluxBelowCut, st\<lparr>lineno := lineno st + 1\<rparr>))
      \<and> (\<forall>hlr. \<not> flux < 0.5 * fcut \<and> float_col cols 7 = Inr hlr \<longrightarrow>
           (hlr \<le> 0 \<longrightarrow>
              process_entry E a L st cols = Inr (Rejected NonPositiveHlr, st\<lparr>lineno := lineno st + 1\<rparr>))
         \<and> (\<forall>q pa. 0 < hlr \<and> disk_shape cols = Inr (q, pa) \<longrightarrow>
              (isophote_box (f0 L) flux hlr q pa = Inr None \<longrightarrow>
                 process_entry E a L st cols
                   = Inr (Rejected BelowThreshold, st\<lparr>lineno := lineno st + 1\<rparr>))
            \<and> (\<forall>w h rpad sa.
                  isophote_box (f0 L) flux hlr q pa = Inr (Some (w, h))
                  \<and> psf_padding a L flux = Inr rpad
                  \<and> stamp_address a L RA DEC (w + rpad) (h + rpad) = Inr sa \<longrightarrow>
                 (area (bounds_and (bbox sa) (field_bounds a)) = 0 \<longrightarrow>
                    process_entry E a L st cols
                      = Inr (Rejected NoOverlap, st\<lparr>lineno := lineno st + 1\<rparr>))
               \<and> (area (bounds_and (bbox sa) (field_bounds a)) \<noteq> 0 \<longrightarrow>
                    process_entry E a L st cols
                      = ebind (render_entry E a L (2 * real_of_int (arg_nvisits a) * flux) hlr q pa sa
                                 (st\<lparr>lineno := lineno st + 1\<rparr>))
                          (\<lambda>st'. Inr (Accepted, st')))))))
   \<and> (\<forall>r st'. process_entry E a L st cols = Inr (Rejected r, st') \<longrightarrow>
        st' = st\<lparr>lineno := lineno st + 1\<rparr>)
   \<and> (\<forall>st'. process_entry E a L st cols = Inr (Accepted, st') \<longrightarrow>
        (\<exists>flux hlr q pa w h rpad sa.
            \<not> outside_margins L RA DEC
          \<and> total_flux a cols = Inr flux \<and> \<not> flux < 0.5 * fcut
          \<and> float_col cols 7 = Inr hlr \<and> 0 < hlr
          \<and> disk_shape cols = Inr (q, pa)
          \<and> isophote_box (f0 L) flux hlr q pa = Inr (Some (w, h))
          \<and> psf_padding a L flux = Inr rpad
          \<and> stamp_address a L RA DEC (w + rpad) (h + rpad) = Inr sa
          \<and> area (bounds_and (bbox sa) (field_bounds a)) \<noteq> 0
          \<and> render_entry E a L (2 * real_of_int (arg_nvisits a) * flux) hlr q pa sa
               (st\<lparr>lineno := lineno st + 1\<rparr>) = Inr st'
          \<and> nkeep st' = nkeep st + 1
          \<and> (\<exists>cube. hduList st' = hduList st @ [cube])
          \<and> field st' = add_overlap (field st) (bounds_and (bbox sa) (field_bounds a))
               (draw E (nominal_request L
                  (nominal_params a (2 * real_of_int (arg_nvisits a) * flux) (xshift a sa) (yshift a sa)
                     hlr q pa) (bbox sa)))))"
proof (intro conjI allI impI, goal_cases)
  case 1
  then show ?case by (rule process_entry_outside [OF assms])
next
  case (2 flux)
  then show ?case by (intro process_entry_flux [OF assms]) (auto simp: not_le)
next
  case (3 flux hlr)
  then show ?case by (intro process_entry_hlr [OF assms]) (auto simp: not_le)
next
  case (4 flux hlr q pa)
  then show ?case by (intro process_entry_threshold [OF assms]) (auto simp: not_le)
next
  case (5 flux hlr q pa w h rpad sa)
  then show ?case by (intro process_entry_overlap [OF assms]) (auto simp: not_le)
next
  case (6 flux hlr q pa w h rpad sa)
  then show ?case by (intro process_entry_keep [OF assms]) (auto simp: not_le)
next
  case (7 r st')
  then show ?case
  proof (cases rule: process_entry_cases)
    case outside
    then show ?thesis by blast
  next
    case flux
    then show ?thesis by blast
  next
    case hlr
    then show ?thesis by blast
  next
    case threshold
    then show ?thesis by blast
  next
    case overlap
    then show ?thesis by blast
  next
    case keep
    from keep(13) show ?thesis by simp
  qed
next
  case (8 st')
  then show ?case
  proof (cases rule: process_entry_cases)
    case outside
    from outside(3) show ?thesis by simp
  next
    case flux
    from flux(5) show ?thesis by simp
  next
    case hlr
    from hlr(7) show ?thesis by simp
  next
    case threshold
    from threshold(9) show ?thesis by simp
  next
    case overlap
    from overlap(12) show ?thesis by simp
  next
    case (keep RA' DEC' flux hlr q pa w h rpad sa)
    from keep(1) assms have e: "RA' = RA" "DEC' = DEC" by simp_all
    from keep(6) have hp: "0 < hlr" by simp
    note k = keep(2-5,7-12) [unfolded e]
    note eff = render_entry_effects [OF k(10), simplified]
    from eff have e1: "nkeep st' = nkeep st + 1" by simp
    from eff have e2: "\<exists>cube. hduList st' = hduList st @ [cube]" by blast
    from eff have e3: "field st' = add_overlap (field st) (bounds_and (bbox sa) (field_bounds a))
               (draw E (nominal_request L
                  (nominal_params a (2 * real_of_int (arg_nvisits a) * flux) (xshift a sa) (yshift a sa)
                     hlr q pa) (bbox sa)))"
      by blast
    from k hp e1 e2 e3 show ?thesis by blast
  qed
qed

theorem eligibility_precedence_witness:
  "process_entry sample_engines (sample_args 5 False 1) (locals_of (sample_args 5 False 1) []) init_state
     (sample_row 1 (- 0.1) 0.167835 24)
     = Inr (Rejected OutsideMargin, init_state\<lparr>lineno := lineno init_state + 1\<rparr>)
   \<and> process_entry sample_engines (sample_args 5 False 1) (locals_of (sample_args 5 False 1) []) init_state
     (sample_row 0.1 (- 0.1) 0.167835 25)
     = Inr (Rejected FluxBelowCut, init_state\<lparr>lineno := lineno init_state + 1\<rparr>)
   \<and> process_entry sample_engines (sample_args 5 False 1) (locals_of (sample_args 5 False 1) []) init_state
     (sample_row 0.1 (- 0.1) 0 24)
     = Inr (Rejected NonPositiveHlr, init_state\<lparr>lineno := lineno init_state + 1\<rparr>)
   \<and> process_entry sample_engines (sample_args 5 False 1) (locals_of (sample_args 5 False 1) []) init_state
     (sample_row 0.1 (- 0.1) 1.67835 24)
     = Inr (Rejected BelowThreshold, init_state\<lparr>lineno := lineno init_state + 1\<rparr>)
   \<and> process_entry sample_engines (sample_args 5 False 1) (locals_of (sample_args 5 False 1) []) init_state
     (sample_row 0 (- 0.1) 0.167835 24)
     = Inr (Rejected NoOverlap, init_state\<lparr>lineno := lineno init_state + 1\<rparr>)
   \<and> map_sum id fst
       (process_entry sample_engines (sample_args 5 False 1) (locals_of (sample_args 5 False 1) []) init_state
          (sample_row 0.1 (- 0.1) 0.167835 24))
     = Inr Accepted"
proof -
  let ?a = "sample_args 5 False 1"
  let ?L = "locals_of ?a []"
  let ?E = sample_engines
  let ?rc = "spec_rcut 50 5 0.167835 1 0"
  have fl: "\<And>ra dec hlr. total_flux ?a (sample_row ra dec hlr 24) = Inr (5 * 10 powr (24 - 24))"
    by simp
  have pad: "psf_padding ?a ?L (5 * 10 powr (24 - 24)) = Inr 0"
    using sample_cpsf [of 5 False 1 "[]"] by (intro psf_padding_zero) simp_all
  have iso: "isophote_box (f0 ?L) (5 * 10 powr (24 - 24)) 0.167835 1 0 = Inr (Some (?rc, ?rc))"
    using sample_small_disk(1) by simp
  have big: "isophote_box (f0 ?L) (5 * 10 powr (24 - 24)) 1.67835 1 0 = Inr None"
    using sample_large_disk by simp
  \<comment> \<open>outside the margins\<close>
  have p1: "sky_position (sample_row 1 (- 0.1) 0.167835 24) = Inr (1 * 3600, - 0.1 * 3600)"
    by simp
  from eligibility_precedence [OF p1, of ?L ?E ?a init_state] sample_outside [of 5 False 1 "[]"]
  have r1: "process_entry ?E ?a ?L init_state (sample_row 1 (- 0.1) 0.167835 24)
     = Inr (Rejected OutsideMargin, init_state\<lparr>lineno := lineno init_state + 1\<rparr>)"
    by blast
  \<comment> \<open>too faint\<close>
  have p2: "sky_position (sample_row 0.1 (- 0.1) 0.167835 25) = Inr (0.1 * 3600, - 0.1 * 3600)"
    by simp
  have f2: "total_flux ?a (sample_row 0.1 (- 0.1) 0.167835 25) = Inr (5 * 10 powr (24 - 25))"
    by simp
  from eligibility_precedence [OF p2, of ?L ?E ?a init_state] sample_inside [of 5 False 1 "[]"]
    f2 sample_faint_flux
  have r2: "process_entry ?E ?a ?L init_state (sample_row 0.1 (- 0.1) 0.167835 25)
     = Inr (Rejected FluxBelowCut, init_state\<lparr>lineno := lineno init_state + 1\<rparr>)"
    by blast
  \<comment> \<open>no disk\<close>
  have p3: "sky_position (sample_row 0.1 (- 0.1) 0 24) = Inr (0.1 * 3600, - 0.1 * 3600)"
    by simp
  have h3: "float_col (sample_row 0.1 (- 0.1) 0 24) 7 = Inr 0" "(0::real) \<le> 0" by simp_all
  from eligibility_precedence [OF p3, of ?L ?E ?a init_state] sample_inside [of 5 False 1 "[]"]
    fl [of "0.1" "- 0.1" 0] sample_bright_flux h3
  have r3: "process_entry ?E ?a ?L init_state (sample_row 0.1 (- 0.1) 0 24)
     = Inr (Rejected NonPositiveHlr, init_state\<lparr>lineno := lineno init_state + 1\<rparr>)"
    by blast
  \<comment> \<open>below the threshold\<close>
  have p4: "sky_position (sample_row 0.1 (- 0.1) 1.67835 24) = Inr (0.1 * 3600, - 0.1 * 3600)"
    by simp
  have h4: "float_col (sample_row 0.1 (- 0.1) 1.67835 24) 7 = Inr 1.67835" "(0::real) < 1.67835"
    "disk_shape (sample_row 0.1 (- 0.1) 1.67835 24) = Inr (1, 0)" by simp_all
  from eligibility_precedence [OF p4, of ?L ?E ?a init_state] sample_inside [of 5 False 1 "[]"]
    fl [of "0.1" "- 0.1" "1.67835"] sample_bright_flux h4 big
  have r4: "process_entry ?E ?a ?L init_state (sample_row 0.1 (- 0.1) 1.67835 24)
     = Inr (Rejected BelowThreshold, init_state\<lparr>lineno := lineno init_state + 1\<rparr>)"
    by blast
  \<comment> \<open>no overlap\<close>
  have h: "\<And>ra. float_col (sample_row ra (- 0.1) 0.167835 24) 7 = Inr 0.167835" "(0::real) < 0.167835"
    "\<And>ra. disk_shape (sample_row ra (- 0.1) 0.167835 24) = Inr (1, 0)" by simp_all
  have p5: "sky_position (sample_row 0 (- 0.1) 0.167835 24) = Inr (0 * 3600, - 0.1 * 3600)"
    by simp
  have s5: "stamp_address ?a ?L (0 * 3600) (- 0.1 * 3600) (?rc + 0) (?rc + 0)
     = Inr \<lparr> xoffset = - 1792, yoffset = 504, xpixels = - 1792, ypixels = 504,
                   xhalf = 1, yhalf = 1, bbox = BoundsI (- 1793) (- 1791) 503 505 \<rparr>"
    using sample_far_stamp [OF sample_small_disk(2,3), of 5 False 1 "[]"] by simp
  have o5: "area (bounds_and (bbox \<lparr> xoffset = - 1792, yoffset = 504, xpixels = - 1792, ypixels = 504,
                   xhalf = 1, yhalf = 1, bbox = BoundsI (- 1793) (- 1791) 503 505 \<rparr>) (field_bounds ?a)) = 0"
    using far_stamp_no_overlap [of 5 False 1] by simp
  from eligibility_precedence [OF p5, of ?L ?E ?a init_state] sample_inside_far [of 5 False 1 "[]"]
    fl [of 0 "- 0.1" "0.167835"] sample_bright_flux h(1) [of 0] h(2) h(3) [of 0] iso pad s5 o5
  have r5: "process_entry ?E ?a ?L init_state (sample_row 0 (- 0.1) 0.167835 24)
     = Inr (Rejected NoOverlap, init_state\<lparr>lineno := lineno init_state + 1\<rparr>)"
    by blast
  \<comment> \<open>kept\<close>
  have p6: "sky_position (sample_row 0.1 (- 0.1) 0.167835 24) = Inr (0.1 * 3600, - 0.1 * 3600)"
    by simp
  have s6: "stamp_address ?a ?L (0.1 * 3600) (- 0.1 * 3600) (?rc + 0) (?rc + 0) = Inr sample_stamp"
    using sample_stamp_address [OF sample_small_disk(2,3), of 5 False 1 "[]"] by simp
  have o6: "area (bounds_and (bbox sample_stamp) (field_bounds ?a)) \<noteq> 0"
    by (simp add: sample_stamp_overlap)
  from eligibility_precedence [OF p6, of ?L ?E ?a init_state] sample_inside [of 5 False 1 "[]"]
    fl [of "0.1" "- 0.1" "0.167835"] sample_bright_flux h(1) [of "0.1"] h(2) h(3) [of "0.1"] iso pad s6 o6
  have "process_entry ?E ?a ?L init_state (sample_row 0.1 (- 0.1) 0.167835 24)
     = ebind (render_entry ?E ?a ?L (2 * real_of_int (arg_nvisits ?a) * (5 * 10 powr (24 - 24)))
                0.167835 1 0 sample_stamp (init_state\<lparr>lineno := lineno init_state + 1\<rparr>))
         (\<lambda>st'. Inr (Accepted, st'))"
    by blast
  then have r6: "map_sum id fst (process_entry ?E ?a ?L init_state (sample_row 0.1 (- 0.1) 0.167835 24))
     = Inr Accepted"
    by (simp add: render_entry_plain Let_def)
  from r1 r2 r3 r4 r5 r6 show ?thesis by blast
qed

section \<open>The stamp of an accepted entry\<close>

lemma stamp_address_Inr:
  assumes "stamp_address a L RA DEC hw hh = Inr sa"
  shows "arg_pixel_scale a \<noteq> 0"
  using assms by (auto simp: stamp_address_def py_div_def split: if_splits)

lemma area_nonzero_defined:
  assumes "area (bounds_and b c) \<noteq> 0"
  shows "isDefined b" "isDefined c"
  using assms by (auto simp: bounds_and_def area_def undefined_bounds_def split: if_splits)

text \<open>
  C4. For every entry that is accepted: the offsets are the angular offsets from the minimum
  corner of the field divided by the pixel scale, the center pixel is the ceiling of the
  offset, the half sizes of the stamp are the ceilings of the padded angular half extents
  divided by the pixel scale, and they are not negative; the stamp is the defined rectangle
  from \<open>center - half\<close> to \<open>center + half\<close>, so it has exactly \<open>2 half + 1\<close> pixels in each
  dimension, an odd number that is at least 1, and these are the sizes announced on the log.
  The subpixel shift is \<open>(offset - (pixel - 0.5)) pixel_scale\<close> on each axis, and the two
  renders of the entry receive the position of the source through this shift (the
  \<open>Shift\<close> of the source) and through the integer bounds of the stamp only.
\<close>

theorem stamp_addressing:
  assumes "process_entry E a L st cols = Inr (Accepted, st')"
  shows "\<exists>RA DEC flux hlr q pa w h rpad sa.
      sky_position cols = Inr (RA, DEC)
    \<and> total_flux a cols = Inr flux \<and> float_col cols 7 = Inr hlr \<and> disk_shape cols = Inr (q, pa)
    \<and> isophote_box (f0 L) flux hlr q pa = Inr (Some (w, h))
    \<and> psf_padding a L flux = Inr rpad
    \<and> stamp_address a L RA DEC (w + rpad) (h + rpad) = Inr sa
    \<and> arg_pixel_scale a \<noteq> 0
    \<and> xoffset sa = (RA - RAmin L) / arg_pixel_scale a
    \<and> yoffset sa = (DEC - DECmin L) / arg_pixel_scale a
    \<and> xpixels sa = \<lceil>xoffset sa\<rceil> \<and> ypixels sa = \<lceil>yoffset sa\<rceil>
    \<and> xhalf sa = \<lceil>(w + rpad) / arg_pixel_scale a\<rceil>
    \<and> yhalf sa = \<lceil>(h + rpad) / arg_pixel_scale a\<rceil>
    \<and> 0 \<le> xhalf sa \<and> 0 \<le> yhalf sa
    \<and> bbox sa = Bounds True (xpixels sa - xhalf sa) (xpixels sa + xhalf sa)
                            (ypixels sa - yhalf sa) (ypixels sa + yhalf sa)
    \<and> xmax (bbox sa) - xmin (bbox sa) + 1 = 2 * xhalf sa + 1
    \<and> ymax (bbox sa) - ymin (bbox sa) + 1 = 2 * yhalf sa + 1
    \<and> odd (2 * xhalf sa + 1) \<and> 1 \<le> 2 * xhalf sa + 1
    \<and> odd (2 * yhalf sa + 1) \<and> 1 \<le> 2 * yhalf sa + 1
    \<and> logged st' = logged st @ [(nkeep st + 1, lineno st + 1, 2 * xhalf sa + 1, 2 * yhalf sa + 1)]
    \<and> xshift a sa = (xoffset sa - (real_of_int (xpixels sa) - 0.5)) * arg_pixel_scale a
    \<and> yshift a sa = (yoffset sa - (real_of_int (ypixels sa) - 0.5)) * arg_pixel_scale a
    \<and> (\<exists>more. drawn st' = drawn st @
          [Convolve [createSource (2 * real_of_int (arg_nvisits a) * flux) (xshift a sa) (yshift a sa)
                       hlr q pa (arg_g1 a) (arg_g2 a), pix L] True (bbox sa),
           Convolve [createSource (2 * real_of_int (arg_nvisits a) * flux) (xshift a sa) (yshift a sa)
                       hlr q pa (arg_g1 a) (arg_g2 a), psf L, pix L] False (bbox sa)] @ more)"
  using assms
proof (cases rule: process_entry_cases)
  case (keep RA DEC flux hlr q pa w h rpad sa)
  have ps: "arg_pixel_scale a \<noteq> 0" by (rule stamp_address_Inr [OF keep(10)])
  note sa = keep(10) [unfolded stamp_address_eval [OF ps]]
  from sa have f: "xoffset sa = (RA - RAmin L) / arg_pixel_scale a"
    "yoffset sa = (DEC - DECmin L) / arg_pixel_scale a"
    "xpixels sa = \<lceil>xoffset sa\<rceil>" "ypixels sa = \<lceil>yoffset sa\<rceil>"
    "xhalf sa = \<lceil>(w + rpad) / arg_pixel_scale a\<rceil>"
    "yhalf sa = \<lceil>(h + rpad) / arg_pixel_scale a\<rceil>"
    and bb: "bbox sa = BoundsI (xpixels sa - xhalf sa) (xpixels sa + xhalf sa)
                            (ypixels sa - yhalf sa) (ypixels sa + yhalf sa)"
    by auto
  from area_nonzero_defined(1) [OF keep(11)] bb
  have nn: "0 \<le> xhalf sa" "0 \<le> yhalf sa"
    by (simp_all add: BoundsI_def)
  from bb nn have b: "bbox sa = Bounds True (xpixels sa - xhalf sa) (xpixels sa + xhalf sa)
                            (ypixels sa - yhalf sa) (ypixels sa + yhalf sa)"
    by (simp add: BoundsI_def)
  have sz: "xmax (bbox sa) - xmin (bbox sa) + 1 = 2 * xhalf sa + 1"
    "ymax (bbox sa) - ymin (bbox sa) + 1 = 2 * yhalf sa + 1"
    by (simp_all add: b)
  have od: "odd (2 * xhalf sa + 1)" "1 \<le> 2 * xhalf sa + 1"
    "odd (2 * yhalf sa + 1)" "1 \<le> 2 * yhalf sa + 1"
    using nn by simp_all
  note eff = render_entry_effects [OF keep(12), simplified]
  from eff have lg: "logged st' = logged st @ [(nkeep st + 1, lineno st + 1, 2 * xhalf sa + 1, 2 * yhalf sa + 1)]"
    by simp
  from eff have dr: "\<exists>more. drawn st' = drawn st @
          [Convolve [createSource (2 * real_of_int (arg_nvisits a) * flux) (xshift a sa) (yshift a sa)
                       hlr q pa (arg_g1 a) (arg_g2 a), pix L] True (bbox sa),
           Convolve [createSource (2 * real_of_int (arg_nvisits a) * flux) (xshift a sa) (yshift a sa)
                       hlr q pa (arg_g1 a) (arg_g2 a), psf L, pix L] False (bbox sa)] @ more"
    by (simp add: nopsf_request_def nominal_request_def createSource_kw_def nominal_params_def)
  have sh: "xshift a sa = (xoffset sa - (real_of_int (xpixels sa) - 0.5)) * arg_pixel_scale a"
    "yshift a sa = (yoffset sa - (real_of_int (ypixels sa) - 0.5)) * arg_pixel_scale a"
    by (simp_all add: xshift_def yshift_def)
  from keep(1,3,5,7,8,9,10) ps f nn b sz od lg sh dr show ?thesis by blast
qed simp_all

lemma sample_kept:
  "process_entry sample_engines (sample_args 5 False 1) (locals_of (sample_args 5 False 1) []) init_state
     (sample_row 0.1 (- 0.1) 0.167835 24)
   = Inr (Accepted, sample_kept_state)"
proof -
  have a: "(0::real) < 1 / 10" "(1 / 10 :: real) \<le> 1 / 10" "(1::real) \<le> 5" "(5::real) \<le> 6"
    "1 / 3 \<le> 100 * pi * (1 / 10) * (1 / 10) / 5" "100 * pi * (1 / 10) * (1 / 10) / 5 < 1"
    using pi_ge_two pi_less_4 by simp_all
  have h: "(1 / 10) * 1.67835 = (0.167835 :: real)" by simp
  show ?thesis
    unfolding sample_accept [OF a, of sample_engines False 1 "[]" init_state, unfolded h]
    by (simp add: render_entry_plain Let_def init_state_def sample_stamp_def field_bounds_def
        xshift_def yshift_def sample_kept_state_def)
qed

theorem stamp_addressing_witness:
  "process_entry sample_engines (sample_args 5 False 1) (locals_of (sample_args 5 False 1) [])
      init_state (sample_row 0.1 (- 0.1) 0.167835 24) = Inr (Accepted, sample_kept_state)
   \<and> logged sample_kept_state = [(1, 1, 3, 3)]
   \<and> (\<exists>sa::stamp_addr. logged sample_kept_state = [(1, 1, 2 * xhalf sa + 1, 2 * yhalf sa + 1)]
          \<and> xhalf sa = 1 \<and> yhalf sa = 1
          \<and> odd (2 * xhalf sa + 1) \<and> odd (2 * yhalf sa + 1)
          \<and> xmax (bbox sa) - xmin (bbox sa) + 1 = 3)"
proof -
  have "\<exists>sa::stamp_addr. logged sample_kept_state
          = logged init_state @ [(nkeep init_state + 1, lineno init_state + 1, 2 * xhalf sa + 1, 2 * yhalf sa + 1)]
        \<and> odd (2 * xhalf sa + 1) \<and> odd (2 * yhalf sa + 1)
        \<and> xmax (bbox sa) - xmin (bbox sa) + 1 = 2 * xhalf sa + 1"
    using stamp_addressing [OF sample_kept]
    apply (elim exE conjE)
    apply (intro exI conjI)
       apply assumption+
    done
  then obtain sa :: stamp_addr where
    l: "logged sample_kept_state
          = logged init_state @ [(nkeep init_state + 1, lineno init_state + 1, 2 * xhalf sa + 1, 2 * yhalf sa + 1)]"
    and o: "odd (2 * xhalf sa + 1)" "odd (2 * yhalf sa + 1)"
    and z: "xmax (bbox sa) - xmin (bbox sa) + 1 = 2 * xhalf sa + 1"
    by blast
  have v: "logged sample_kept_state = [(1, 1, 3, 3)]"
    by (simp add: sample_kept_state_def Let_def)
  from l v have h: "xhalf sa = 1" "yhalf sa = 1"
    by (simp_all add: init_state_def)
  from sample_kept v l o z h show ?thesis
    by (intro conjI exI [of _ sa]) (simp_all add: init_state_def)
qed

section \<open>The flux cut\<close>

text \<open>
  C5, as amended. An entry whose position and magnitudes are read and whose total flux is
  strictly below \<open>0.5 fcut\<close> is rejected, by the flux test when it is inside the margins
  and by the margin test before it otherwise, with the state unchanged but for the line
  counter: no stamp, the field as it was. This holds for the flux 0 in particular and
  whatever the other columns are, so the logarithm and the divisions of the geometry are
  never reached. An entry whose total flux is \<open>0.5 fcut\<close> or more is never rejected by the
  flux test.
\<close>

theorem flux_cut:
  assumes "sky_position cols = Inr (RA, DEC)" "total_flux a cols = Inr flux"
  shows "(flux < 0.5 * fcut \<longrightarrow>
            process_entry E a L st cols
              = Inr (Rejected (if outside_margins L RA DEC then OutsideMargin else FluxBelowCut),
                     st\<lparr>lineno := lineno st + 1\<rparr>))
       \<and> (flux = 0 \<longrightarrow>
            process_entry E a L st cols
              = Inr (Rejected (if outside_margins L RA DEC then OutsideMargin else FluxBelowCut),
                     st\<lparr>lineno := lineno st + 1\<rparr>))
       \<and> (0.5 * fcut \<le> flux \<longrightarrow>
            (\<forall>st'. process_entry E a L st cols \<noteq> Inr (Rejected FluxBelowCut, st')))"
proof (intro conjI impI allI)
  assume f: "flux < 0.5 * fcut"
  show "process_entry E a L st cols
              = Inr (Rejected (if outside_margins L RA DEC then OutsideMargin else FluxBelowCut),
                     st\<lparr>lineno := lineno st + 1\<rparr>)"
  proof (cases "outside_margins L RA DEC")
    case True
    then show ?thesis by (simp add: process_entry_outside [OF assms(1)])
  next
    case False
    then show ?thesis by (simp add: process_entry_flux [OF assms(1) False assms(2) f])
  qed
next
  assume "flux = 0"
  then have f: "flux < 0.5 * fcut" by (simp add: fcut_def)
  show "process_entry E a L st cols
              = Inr (Rejected (if outside_margins L RA DEC then OutsideMargin else FluxBelowCut),
                     st\<lparr>lineno := lineno st + 1\<rparr>)"
  proof (cases "outside_margins L RA DEC")
    case True
    then show ?thesis by (simp add: process_entry_outside [OF assms(1)])
  next
    case False
    then show ?thesis by (simp add: process_entry_flux [OF assms(1) False assms(2) f])
  qed
next
  fix st'
  assume g: "0.5 * fcut \<le> flux"
  show "process_entry E a L st cols \<noteq> Inr (Rejected FluxBelowCut, st')"
  proof
    assume "process_entry E a L st cols = Inr (Rejected FluxBelowCut, st')"
    then show False
    proof (cases rule: process_entry_cases)
      case (flux RA' DEC' flux')
      from flux(3) assms(2) have "flux' = flux" by simp
      with flux(4) g show False by simp
    qed simp_all
  qed
qed

theorem flux_cut_witness:
  "sky_position zero_flux_row = Inr (360, - 360)
   \<and> total_flux (sample_args 0 False 1) zero_flux_row = Inr 0
   \<and> disk_shape zero_flux_row = Inl ZeroDivisionError
   \<and> process_entry sample_engines (sample_args 0 False 1) (locals_of (sample_args 0 False 1) [])
        init_state zero_flux_row
      = Inr (Rejected FluxBelowCut, init_state\<lparr>lineno := lineno init_state + 1\<rparr>)
   \<and> total_flux (sample_args 5 False 1) (sample_row 0.1 (- 0.1) 0.167835 24) = Inr 5
   \<and> process_entry sample_engines (sample_args 5 False 1) (locals_of (sample_args 5 False 1) [])
        init_state (sample_row 0.1 (- 0.1) 0.167835 24)
      \<noteq> Inr (Rejected FluxBelowCut, init_state\<lparr>lineno := lineno init_state + 1\<rparr>)"
proof -
  have p: "sky_position zero_flux_row = Inr (360, - 360)"
    and f: "total_flux (sample_args 0 False 1) zero_flux_row = Inr 0"
    and d: "disk_shape zero_flux_row = Inl ZeroDivisionError"
    by (simp_all add: zero_flux_row_def sample_row_def sky_position_def total_flux_def
        disk_shape_def float_col_def deg2arcsec_def py_div_def)
  have i: "\<not> outside_margins (locals_of (sample_args 0 False 1) []) 360 (- 360)"
    using sample_inside [of 0 False 1 "[]"] by simp
  from flux_cut [OF p f, of sample_engines "locals_of (sample_args 0 False 1) []" init_state] i
  have r: "process_entry sample_engines (sample_args 0 False 1) (locals_of (sample_args 0 False 1) [])
        init_state zero_flux_row
      = Inr (Rejected FluxBelowCut, init_state\<lparr>lineno := lineno init_state + 1\<rparr>)"
    by simp
  have p2: "sky_position (sample_row 0.1 (- 0.1) 0.167835 24) = Inr (360, - 360)"
    and f2: "total_flux (sample_args 5 False 1) (sample_row 0.1 (- 0.1) 0.167835 24) = Inr 5"
    by simp_all
  have g: "0.5 * fcut \<le> (5::real)" by (simp add: fcut_def)
  from flux_cut [OF p2 f2, of sample_engines "locals_of (sample_args 5 False 1) []" init_state] g
  have r2: "process_entry sample_engines (sample_args 5 False 1) (locals_of (sample_args 5 False 1) [])
        init_state (sample_row 0.1 (- 0.1) 0.167835 24)
      \<noteq> Inr (Rejected FluxBelowCut, init_state\<lparr>lineno := lineno init_state + 1\<rparr>)"
    by blast
  from p f d r f2 r2 show ?thesis by blast
qed

text \<open>
  C5 as stated fails: with the flux normalisation 1 and the i-band magnitude 24 the total
  flux is exactly \<open>0.5 fcut\<close>, the test of line 161 is strict, and the entry (a small disk
  inside the field) is accepted and its datacube is written.
\<close>

theorem flux_at_half_cut_is_kept:
  "total_flux (sample_args 1 False 1) (sample_row 0.1 (- 0.1) 0.0839175 24) = Inr (0.5 * fcut)
   \<and> map_sum id fst
       (process_entry sample_engines (sample_args 1 False 1) (locals_of (sample_args 1 False 1) [])
          init_state (sample_row 0.1 (- 0.1) 0.0839175 24)) = Inr Accepted
   \<and> map_sum id (length \<circ> hduList \<circ> snd)
       (process_entry sample_engines (sample_args 1 False 1) (locals_of (sample_args 1 False 1) [])
          init_state (sample_row 0.1 (- 0.1) 0.0839175 24)) = Inr 1"
proof -
  have a: "(0::real) < 1 / 20" "(1 / 20 :: real) \<le> 1 / 10" "(1::real) \<le> 1" "(1::real) \<le> 6"
    "1 / 3 \<le> 100 * pi * (1 / 20) * (1 / 20) / 1" "100 * pi * (1 / 20) * (1 / 20) / 1 < 1"
    using pi_ge_two pi_less_4 by simp_all
  have h: "(1 / 20) * 1.67835 = (0.0839175 :: real)" by simp
  have f: "total_flux (sample_args 1 False 1) (sample_row 0.1 (- 0.1) 0.0839175 24) = Inr (0.5 * fcut)"
    by (simp add: fcut_def)
  note k = sample_accept [OF a, of sample_engines False 1 "[]" init_state, unfolded h]
  have "map_sum id fst
       (process_entry sample_engines (sample_args 1 False 1) (locals_of (sample_args 1 False 1) [])
          init_state (sample_row 0.1 (- 0.1) 0.0839175 24)) = Inr Accepted"
    "map_sum id (length \<circ> hduList \<circ> snd)
       (process_entry sample_engines (sample_args 1 False 1) (locals_of (sample_args 1 False 1) [])
          init_state (sample_row 0.1 (- 0.1) 0.0839175 24)) = Inr 1"
    unfolding k by (simp_all add: render_entry_plain Let_def init_state_def)
  with f show ?thesis by blast
qed

section \<open>The psf padding\<close>

lemma psf_padding_Inr:
  assumes "psf_padding a L flux = Inr rpad"
  shows "flux \<noteq> 0 \<and> arg_psf_beta a \<noteq> 0
     \<and> (\<exists>p. math_pow (cpsf L / flux) (- (1 / arg_psf_beta a)) = Inr p
            \<and> rpad = (if p - 1 > 0 then r0psf L * sqrt (p - 1) else 0))"
proof -
  from assms have f: "flux \<noteq> 0"
    by (auto simp: psf_padding_def py_div_def split: if_splits)
  from assms f have b: "arg_psf_beta a \<noteq> 0"
    by (auto simp: psf_padding_def py_div_def [of 1] split: if_splits)
  from assms f b obtain p where
    p: "math_pow (cpsf L / flux) (- (1 / arg_psf_beta a)) = Inr p"
    and r: "(if p - 1 > 0 then ebind (math_sqrt (p - 1)) (\<lambda>s. Inr (r0psf L * s)) else Inr 0) = Inr rpad"
    by (auto simp: psf_padding_def Let_def ebind_eq_Inr)
  from r have "rpad = (if p - 1 > 0 then r0psf L * sqrt (p - 1) else 0)"
    by (auto split: if_splits)
  with f b p show ?thesis by blast
qed

lemma main_init_f0_pos:
  assumes "main_init a = Inr L"
  shows "0 < f0 L"
proof -
  from main_init_fields [OF assms] have p: "arg_pixel_scale a \<noteq> 0" and l: "L = locals_of a (fdCoefs L)"
    by blast+
  have "f0 (locals_of a (fdCoefs L)) = fcut / (arg_pixel_scale a * arg_pixel_scale a)"
    by (simp add: locals_of_def Let_def)
  moreover have "0 < arg_pixel_scale a * arg_pixel_scale a"
    using p by (simp add: zero_less_mult_iff not_less less_le)
  then have "0 < fcut / (arg_pixel_scale a * arg_pixel_scale a)"
    by (simp add: fcut_def)
  ultimately show ?thesis using l by simp
qed

text \<open>
  C7, as amended. For every entry that is accepted in a run whose initialisation returned:
  with \<open>p = math.pow (cpsf / flux, - 1 / beta)\<close>, which is \<open>(cpsf / flux) powr (- 1 / beta)\<close>
  when \<open>cpsf > 0\<close>, and \<open>arg = p - 1\<close>, the padding is \<open>r0psf sqrt arg\<close> when \<open>arg > 0\<close>
  and 0 otherwise; it is added to the half width and to the half height before they are
  turned into the half sizes of the stamp; and for a circular source (\<open>q = 1\<close>),
  \<open>detM = 1\<close>, the half width and the half height before padding are both \<open>r_cut\<close>, and
  the stamp is square. Nothing is said of a psf of width 0.
\<close>

theorem psf_padding_rule:
  assumes "main_init a = Inr L" "process_entry E a L st cols = Inr (Accepted, st')"
  shows "\<exists>RA DEC flux hlr q pa w h rpad p sa.
       sky_position cols = Inr (RA, DEC) \<and> total_flux a cols = Inr flux
     \<and> float_col cols 7 = Inr hlr \<and> disk_shape cols = Inr (q, pa)
     \<and> isophote_box (f0 L) flux hlr q pa = Inr (Some (w, h))
     \<and> math_pow (cpsf L / flux) (- (1 / arg_psf_beta a)) = Inr p
     \<and> (0 < cpsf L \<longrightarrow> p = (cpsf L / flux) powr (- (1 / arg_psf_beta a)))
     \<and> rpad = (if p - 1 > 0 then r0psf L * sqrt (p - 1) else 0)
     \<and> psf_padding a L flux = Inr rpad
     \<and> stamp_address a L RA DEC (w + rpad) (h + rpad) = Inr sa
     \<and> xhalf sa = \<lceil>(w + rpad) / arg_pixel_scale a\<rceil>
     \<and> yhalf sa = \<lceil>(h + rpad) / arg_pixel_scale a\<rceil>
     \<and> logged st' = logged st @ [(nkeep st + 1, lineno st + 1, 2 * xhalf sa + 1, 2 * yhalf sa + 1)]
     \<and> (q = 1 \<longrightarrow> spec_detM q pa = 1
                  \<and> w = spec_rcut (f0 L) flux hlr q pa \<and> h = spec_rcut (f0 L) flux hlr q pa
                  \<and> 0 < spec_rcut (f0 L) flux hlr q pa
                  \<and> xhalf sa = yhalf sa)"
  using assms(2)
proof (cases rule: process_entry_cases)
  case (keep RA DEC flux hlr q pa w h rpad sa)
  from psf_padding_Inr [OF keep(9)] obtain p where
    p: "math_pow (cpsf L / flux) (- (1 / arg_psf_beta a)) = Inr p"
    and r: "rpad = (if p - 1 > 0 then r0psf L * sqrt (p - 1) else 0)"
    by blast
  from keep(4) have fp: "0 < flux" by (simp add: fcut_def)
  have pp: "0 < cpsf L \<longrightarrow> p = (cpsf L / flux) powr (- (1 / arg_psf_beta a))"
  proof
    assume "0 < cpsf L"
    with fp have "0 < cpsf L / flux" by simp
    from math_pow_pos [OF this] p show "p = (cpsf L / flux) powr (- (1 / arg_psf_beta a))"
      by simp
  qed
  have ps: "arg_pixel_scale a \<noteq> 0" by (rule stamp_address_Inr [OF keep(10)])
  note sa = keep(10) [unfolded stamp_address_eval [OF ps]]
  from sa have hf: "xhalf sa = \<lceil>(w + rpad) / arg_pixel_scale a\<rceil>"
    "yhalf sa = \<lceil>(h + rpad) / arg_pixel_scale a\<rceil>"
    by auto
  note eff = render_entry_effects [OF keep(12), simplified]
  from eff have lg: "logged st' = logged st @ [(nkeep st + 1, lineno st + 1, 2 * xhalf sa + 1, 2 * yhalf sa + 1)]"
    by simp
  have circ: "q = 1 \<longrightarrow> spec_detM q pa = 1
                  \<and> w = spec_rcut (f0 L) flux hlr q pa \<and> h = spec_rcut (f0 L) flux hlr q pa
                  \<and> 0 < spec_rcut (f0 L) flux hlr q pa
                  \<and> xhalf sa = yhalf sa"
  proof
    assume q: "q = 1"
    from keep(6) have hp: "0 < hlr" by simp
    have "isophote_box (f0 L) flux hlr 1 pa =
       Inr (if spec_rcut (f0 L) flux hlr 1 pa \<le> 0 then None
            else Some (spec_half_width (f0 L) flux hlr 1 pa, spec_half_height (f0 L) flux hlr 1 pa))"
      by (rule isophote_box_spec [OF fp zero_less_one hp main_init_f0_pos [OF assms(1)]])
    with keep(8) q have "\<not> spec_rcut (f0 L) flux hlr 1 pa \<le> 0"
      and "w = spec_rcut (f0 L) flux hlr 1 pa" "h = spec_rcut (f0 L) flux hlr 1 pa"
      by (auto simp: circular_geometry split: if_splits)
    with q hf show "spec_detM q pa = 1
                  \<and> w = spec_rcut (f0 L) flux hlr q pa \<and> h = spec_rcut (f0 L) flux hlr q pa
                  \<and> 0 < spec_rcut (f0 L) flux hlr q pa
                  \<and> xhalf sa = yhalf sa"
      by (simp add: circular_geometry)
  qed
  from keep(1,3,5,7,8,9,10) p pp r hf lg circ show ?thesis by blast
qed simp_all

lemma sample_main_init:
  "main_init (sample_args fn False k) = Inr (locals_of (sample_args fn False k) [])"
  by (rule main_init_eval) (simp_all add: init_fdCoefs_def)

lemma psf_padding_no_psf:
  assumes "main_init a = Inr L" "arg_psf_fwhm a = 0" "flux \<noteq> 0"
  shows "psf_padding a L flux = Inl ValueError"
proof -
  from main_init_fields [OF assms(1)] have b: "0 < arg_psf_beta a"
    and l: "L = locals_of a (fdCoefs L)"
    by blast+
  have "cpsf (locals_of a (fdCoefs L)) = 0"
    by (simp add: locals_of_def Let_def assms(2))
  with l have c: "cpsf L = 0" by simp
  have n: "arg_psf_beta a \<noteq> 0" using b by simp
  have m: "math_pow 0 (- (1 / arg_psf_beta a)) = Inl ValueError"
    using b by (simp add: math_pow_def)
  show ?thesis
    unfolding psf_padding_def c
    by (simp add: assms(3) n m)
qed

theorem psf_padding_rule_witness:
  "main_init (sample_args 5 False 1) = Inr (locals_of (sample_args 5 False 1) [])
   \<and> process_entry sample_engines (sample_args 5 False 1) (locals_of (sample_args 5 False 1) [])
        init_state (sample_row 0.1 (- 0.1) 0.167835 24) = Inr (Accepted, sample_kept_state)
   \<and> disk_shape (sample_row 0.1 (- 0.1) 0.167835 24) = Inr (1, 0)
   \<and> (\<exists>sa::stamp_addr. logged sample_kept_state = [(1, 1, 2 * xhalf sa + 1, 2 * yhalf sa + 1)]
          \<and> xhalf sa = yhalf sa)"
proof -
  let ?row = "sample_row 0.1 (- 0.1) 0.167835 24"
  have d: "disk_shape ?row = Inr (1, 0)" by simp
  from psf_padding_rule [OF sample_main_init sample_kept]
  obtain q pa and sa :: stamp_addr where
    s: "disk_shape ?row = Inr (q, pa)"
    and l: "logged sample_kept_state
            = logged init_state @ [(nkeep init_state + 1, lineno init_state + 1, 2 * xhalf sa + 1, 2 * yhalf sa + 1)]"
    and c: "q = 1 \<longrightarrow> xhalf sa = yhalf sa"
    by blast
  from s d have "q = 1" by simp
  with c have e: "xhalf sa = yhalf sa" by simp
  from l have "logged sample_kept_state = [(1, 1, 2 * xhalf sa + 1, 2 * yhalf sa + 1)]"
    by (simp add: init_state_def)
  with e have "\<exists>sa::stamp_addr. logged sample_kept_state = [(1, 1, 2 * xhalf sa + 1, 2 * yhalf sa + 1)]
          \<and> xhalf sa = yhalf sa"
    by blast
  with sample_main_init [of 5 1] sample_kept d show ?thesis by blast
qed

text \<open>
  C7 as stated fails: with a psf of width 0 the initialisation returns with \<open>cpsf = 0\<close>,
  and for an entry that passes the first four tests line 192 raises \<^verbatim>\<open>ValueError\<close>
  (\<^verbatim>\<open>math.pow\<close> of 0 to a negative power): there is no stamp without padding, the run ends.
\<close>

theorem no_psf_raises:
  "arg_psf_fwhm no_psf_args = 0
   \<and> main_init no_psf_args = Inr (locals_of no_psf_args [])
   \<and> process_entry sample_engines no_psf_args (locals_of no_psf_args []) init_state
        (sample_row 0.1 (- 0.1) 0.167835 24) = Inl ValueError"
proof -
  let ?row = "sample_row 0.1 (- 0.1) 0.167835 24"
  let ?L = "locals_of no_psf_args []"
  have z: "arg_psf_fwhm no_psf_args = 0" by (simp add: no_psf_args_def)
  have i: "main_init no_psf_args = Inr ?L"
    by (rule main_init_eval) (simp_all add: init_fdCoefs_def no_psf_args_def sample_args_def)
  have o: "\<not> outside_margins ?L 360 (- 360)"
    by (simp add: outside_margins_def locals_of_def Let_def no_psf_args_def sample_args_def
        arcmin2arcsec_def)
  have f: "arg_flux_norm no_psf_args = 5"
    by (simp add: no_psf_args_def)
  have c: "\<not> (5::real) < 0.5 * fcut" by (simp add: fcut_def)
  have f0: "f0 ?L = 50"
    by (simp add: locals_of_def Let_def no_psf_args_def sample_args_def fcut_def)
  have iso: "isophote_box (f0 ?L) 5 0.167835 1 0
               = Inr (Some (spec_rcut 50 5 0.167835 1 0, spec_rcut 50 5 0.167835 1 0))"
    unfolding f0 by (rule sample_small_disk(1))
  have p: "psf_padding no_psf_args ?L 5 = Inl ValueError"
    by (rule psf_padding_no_psf [OF i z]) simp
  have "process_entry sample_engines no_psf_args ?L init_state ?row = Inl ValueError"
    unfolding process_entry_def Let_def
    using c iso by (simp add: o f p)
  with z i show ?thesis by blast
qed

section \<open>The files written\<close>

text \<open>
  C9, as amended. When the initialisation and the catalog loop return, the run returns and
  writes, in this order: the field image without noise; when the sky level is positive, the
  field image again after the Poisson noise of the generator seeded with 123 and the sky
  level \<open>2 nvisits sky_level\<close> has been added; and the stamps. So the field image is
  written twice when the sky level is positive and once otherwise.
\<close>

theorem field_image_writes:
  assumes "main_init a = Inr L" "catalog_loop E a L init_state cat = Inr st"
  shows "main E a cat = Inr
     ([(arg_output a @ ''_field.fits'', FieldImage (field st))]
      @ (if arg_sky_level a > 0
         then [(arg_output a @ ''_noise.fits'',
                FieldImage (addNoise E (PoissonNoise (BaseDeviate 123)
                                          (2 * real_of_int (arg_nvisits a) * arg_sky_level a))
                              (field st)))]
         else [])
      @ [(arg_output a @ ''_stamps.fits'', StampCubes (hduList st))])
   \<and> map_sum id field_writes (main E a cat) = Inr
       (field st #
        (if arg_sky_level a > 0
         then [addNoise E (PoissonNoise (BaseDeviate 123)
                             (2 * real_of_int (arg_nvisits a) * arg_sky_level a)) (field st)]
         else []))"
proof -
  have run: "main E a cat = Inr (write_outputs E a st)"
    by (simp add: main_def assms)
  have files: "write_outputs E a st =
     [(arg_output a @ ''_field.fits'', FieldImage (field st))]
      @ (if arg_sky_level a > 0
         then [(arg_output a @ ''_noise.fits'',
                FieldImage (addNoise E (PoissonNoise (BaseDeviate 123)
                                          (2 * real_of_int (arg_nvisits a) * arg_sky_level a))
                              (field st)))]
         else [])
      @ [(arg_output a @ ''_stamps.fits'', StampCubes (hduList st))]"
    by (simp add: write_outputs_def Let_def)
  show ?thesis
    unfolding run files by simp
qed

lemma sample_catalog:
  "catalog_loop sample_engines (sample_args 5 False 1) (locals_of (sample_args 5 False 1) [])
     init_state [sample_row 0.1 (- 0.1) 0.167835 24] = Inr sample_kept_state"
  using sample_kept by simp

theorem field_image_writes_witness:
  "main_init (sample_args 5 False 1) = Inr (locals_of (sample_args 5 False 1) [])
   \<and> catalog_loop sample_engines (sample_args 5 False 1) (locals_of (sample_args 5 False 1) [])
        init_state [sample_row 0.1 (- 0.1) 0.167835 24] = Inr sample_kept_state
   \<and> main sample_engines (sample_args 5 False 1) [sample_row 0.1 (- 0.1) 0.167835 24] = Inr
       [(''catout_field.fits'', FieldImage (field sample_kept_state)),
        (''catout_noise.fits'',
           FieldImage (addNoise sample_engines (PoissonNoise (BaseDeviate 123) (2 * 230 * 780.778))
                         (field sample_kept_state))),
        (''catout_stamps.fits'', StampCubes (hduList sample_kept_state))]"
  using field_image_writes [OF sample_main_init sample_catalog] sample_main_init [of 5 1] sample_catalog
  by (simp add: sample_args_def)

text \<open>
  C9 as stated fails: with the sky level 0 (and an empty catalog) the run writes the field
  image once, and no image with noise.
\<close>

theorem no_sky_writes_field_once:
  "arg_sky_level no_sky_args = 0
   \<and> main sample_engines no_sky_args [] = Inr
       [(''catout_field.fits'', FieldImage ImageD), (''catout_stamps.fits'', StampCubes [])]
   \<and> map_sum id (length \<circ> field_writes) (main sample_engines no_sky_args []) = Inr 1"
proof -
  have i: "main_init no_sky_args = Inr (locals_of no_sky_args [])"
    by (rule main_init_eval) (simp_all add: init_fdCoefs_def no_sky_args_def sample_args_def)
  show ?thesis
    unfolding main_def i
    by (simp add: write_outputs_def Let_def no_sky_args_def sample_args_def init_state_def)
qed

section \<open>Determinism\<close>

lemma createStamp_draw:
  assumes "draw F = draw E"
  shows "createStamp F src p px bb ds = createStamp E src p px bb ds"
  by (simp add: createStamp_def assms)

lemma fd_steps_draw:
  assumes "draw F = draw E"
  shows "fd_steps F L prm bb pn delta steps acc = fd_steps E L prm bb pn delta steps acc"
proof (induction steps arbitrary: acc)
  case Nil
  show ?case by simp
next
  case (Cons s steps)
  obtain np partial ds where acc: "acc = (np, partial, ds)" by (cases acc)
  show ?case
    unfolding acc fd_steps.simps createStamp_draw [OF assms] Cons.IH ..
qed

lemma fd_partial_draw:
  assumes "draw F = draw E"
  shows "fd_partial F a L prm bb v ds = fd_partial E a L prm bb v ds"
  unfolding fd_partial_def fd_steps_draw [OF assms] ..

lemma partials_loop_draw:
  assumes "draw F = draw E"
  shows "partials_loop F a L prm bb vs acc = partials_loop E a L prm bb vs acc"
proof (induction vs arbitrary: acc)
  case Nil
  show ?case by simp
next
  case (Cons v vs)
  obtain cube ds where acc: "acc = (cube, ds)" by (cases acc)
  show ?case
    unfolding acc partials_loop.simps fd_partial_draw [OF assms] Cons.IH ..
qed

lemma render_entry_draw:
  assumes "draw F = draw E"
  shows "render_entry F a L flux hlr_d q_d pa_d sa st = render_entry E a L flux hlr_d q_d pa_d sa st"
  unfolding render_entry_def createStamp_draw [OF assms] partials_loop_draw [OF assms] ..

lemma process_entry_draw:
  assumes "draw F = draw E"
  shows "process_entry F a L st cols = process_entry E a L st cols"
  unfolding process_entry_def render_entry_draw [OF assms] ..

lemma catalog_loop_draw:
  assumes "draw F = draw E"
  shows "catalog_loop F a L st cat = catalog_loop E a L st cat"
proof (induction cat arbitrary: st)
  case Nil
  show ?case by simp
next
  case (Cons cols cat)
  show ?case
    unfolding catalog_loop.simps process_entry_draw [OF assms] Cons.IH ..
qed

text \<open>
  C10. The result of a run is a function of the configuration, the catalog, the rendering
  engine and the noise generator at the random generator seeded with 123: it does not depend
  on the seed that a fresh random generator would take, nor on what the noise generator does
  with a random generator seeded otherwise. Two runs on the same catalog and configuration
  give the same result, an exception or the same files.
\<close>

theorem run_is_deterministic:
  assumes "\<forall>sky. N (PoissonNoise (BaseDeviate 123) sky) = addNoise E (PoissonNoise (BaseDeviate 123) sky)"
  shows "main (E\<lparr>addNoise := N, fresh_seed := s\<rparr>) a cat = main E a cat"
proof -
  let ?F = "E\<lparr>addNoise := N, fresh_seed := s\<rparr>"
  have d: "draw ?F = draw E" by simp
  have w: "write_outputs ?F a st = write_outputs E a st" for st
    using assms by (simp add: write_outputs_def Let_def)
  show ?thesis
    by (simp add: main_def catalog_loop_draw [OF d] w)
qed

theorem run_is_deterministic_witness:
  "(\<forall>sky. other_noise (PoissonNoise (BaseDeviate 123) sky)
            = addNoise sample_engines (PoissonNoise (BaseDeviate 123) sky))
   \<and> other_noise (PoissonNoise (BaseDeviate 7) 1) \<noteq> addNoise sample_engines (PoissonNoise (BaseDeviate 7) 1)
   \<and> main (sample_engines\<lparr>addNoise := other_noise, fresh_seed := 7\<rparr>) (sample_args 5 False 1)
        [sample_row 0.1 (- 0.1) 0.167835 24]
     = main sample_engines (sample_args 5 False 1) [sample_row 0.1 (- 0.1) 0.167835 24]"
proof -
  have a: "\<forall>sky. other_noise (PoissonNoise (BaseDeviate 123) sky)
            = addNoise sample_engines (PoissonNoise (BaseDeviate 123) sky)"
    by (simp add: other_noise_def sample_engines_def fun_eq_iff)
  have b: "other_noise (PoissonNoise (BaseDeviate 7) 1) \<noteq> addNoise sample_engines (PoissonNoise (BaseDeviate 7) 1)"
    by (simp add: other_noise_def sample_engines_def fun_eq_iff)
  from run_is_deterministic [OF a] a b show ?thesis by blast
qed

end
